(* ===== verification/Prelude.thy ===== *)
theory Prelude
  imports
    Main
    "HOL-Library.Finite_Map"
    "HOL-Library.Monad_Syntax"
    "HOL-Library.List_Lexorder"
    "HOL-Library.Char_ord"
    "HOL-Library.Sublist"
begin

text \<open>
  Shared vocabulary of the development: the Go values the program manipulates and the parts of
  the Go standard library it calls.

  \<^item> A Go \<open>map[string]string\<close> is a finite map \<open>smap\<close>; where nil and empty are told apart it is
    \<open>smap option\<close>, and a slice is a list or, where nil matters, a \<open>list option\<close>.
  \<^item> A Go \<open>error\<close> is a value of \<open>go_error\<close>; \<open>Error_msg\<close> is its \<open>Error()\<close> method.
  \<^item> A function that can panic (nil dereference, failed type assertion) returns an \<open>option\<close>,
    with \<open>None\<close> for the panic, and is written with the \<open>do\<close> notation of the option monad.
  \<^item> Code that talks to the cluster passes the state of the outside world explicitly.
  \<^item> \<open>for k, v := range m\<close> is a fold over an enumeration of the map; the locale \<open>range_loop\<close>
    shows that the enumeration order, which Go leaves open, does not matter.

  Strings are byte strings, as in Go.
\<close>

named_theorems go_defs \<open>definitions of Go runtime helpers, unfolded to evaluate closed terms\<close>
named_theorems world_frame \<open>which part of the cluster an operation leaves alone\<close>

type_synonym smap = "(string, string) fmap"

section \<open>Errors\<close>

datatype go_error =
    ErrorString string
  | StatusError string string
  | WrapError string go_error
  | JoinError go_error go_error

text \<open>
  \<open>ErrorString m\<close> is \<open>errors.New(m)\<close> or an \<open>fmt.Errorf\<close> without \<open>%w\<close>; \<open>StatusError r m\<close> is an
  error of the API machinery with reason \<open>r\<close>; \<open>WrapError p e\<close> is \<open>fmt.Errorf("p%w", e)\<close> (in this
  program \<open>%w\<close> is always the last thing in the format); \<open>JoinError\<close> is \<open>errors.Join\<close> of two
  non-nil errors.
\<close>

fun Error_msg :: "go_error \<Rightarrow> string" where
  "Error_msg (ErrorString m) = m"
| "Error_msg (StatusError r m) = m"
| "Error_msg (WrapError p e) = p @ Error_msg e"
| "Error_msg (JoinError a b) = Error_msg a @ [CHR 0x0A] @ Error_msg b"

section \<open>Slices and maps\<close>

definition slice :: "'a list option \<Rightarrow> 'a list" where
  "slice s = (case s of None \<Rightarrow> [] | Some xs \<Rightarrow> xs)"

definition smap_of :: "smap option \<Rightarrow> smap" where
  "smap_of m = (case m of None \<Rightarrow> fmempty | Some x \<Rightarrow> x)"

text \<open>Reading a missing key, or a nil map, gives the zero value \<open>""\<close>.\<close>

definition map_get :: "smap option \<Rightarrow> string \<Rightarrow> string" where
  "map_get m k = (case fmlookup (smap_of m) k of None \<Rightarrow> '''' | Some v \<Rightarrow> v)"

text \<open>An enumeration of a map, as \<open>range\<close> delivers it: every entry once, in some order.\<close>

definition enumerates :: "('k \<times> 'v) list \<Rightarrow> ('k, 'v) fmap \<Rightarrow> bool" where
  "enumerates es m \<longleftrightarrow> distinct (map fst es) \<and> map_of es = fmlookup m"

definition go_range :: "smap \<Rightarrow> (string \<times> string) list" where
  "go_range m = sorted_list_of_fmap m"

section \<open>Strings\<close>

definition HasPrefix :: "string \<Rightarrow> string \<Rightarrow> bool" where
  "HasPrefix s p \<longleftrightarrow> take (length p) s = p"

definition HasSuffix :: "string \<Rightarrow> string \<Rightarrow> bool" where
  "HasSuffix s p \<longleftrightarrow> length p \<le> length s \<and> drop (length s - length p) s = p"

definition TrimPrefix :: "string \<Rightarrow> string \<Rightarrow> string" where
  "TrimPrefix s p = (if HasPrefix s p then drop (length p) s else s)"

definition TrimSuffix :: "string \<Rightarrow> string \<Rightarrow> string" where
  "TrimSuffix s p = (if HasSuffix s p then take (length s - length p) s else s)"

fun Join :: "string list \<Rightarrow> string \<Rightarrow> string" where
  "Join [] sep = []"
| "Join [x] sep = x"
| "Join (x # y # ys) sep = x @ sep @ Join (y # ys) sep"

text \<open>\<open>strings.Split(s, sep)\<close> for a separator of one byte.\<close>

fun Split :: "string \<Rightarrow> char \<Rightarrow> string list" where
  "Split [] c = [[]]"
| "Split (x # xs) c =
     (if x = c then [] # Split xs c
      else (case Split xs c of [] \<Rightarrow> [[x]] | p # ps \<Rightarrow> (x # p) # ps))"

text \<open>
  The ASCII white space of \<open>strings.TrimSpace\<close>. (Go also trims U+0085, U+00A0 and other Unicode
  spaces, which label keys cannot contain.)
\<close>

definition is_space :: "char \<Rightarrow> bool" where
  "is_space c \<longleftrightarrow> c \<in> {CHR 0x09, CHR 0x0A, CHR 0x0B, CHR 0x0C, CHR 0x0D, CHR '' ''}"

definition TrimSpace :: "string \<Rightarrow> string" where
  "TrimSpace s = rev (dropWhile is_space (rev (dropWhile is_space s)))"

definition digit :: "nat \<Rightarrow> char" where
  "digit n = char_of (48 + n)"

fun digits :: "nat \<Rightarrow> string" where
  "digits n = (if n < 10 then [digit n] else digits (n div 10) @ [digit (n mod 10)])"

declare digits.simps [simp del]

definition Itoa :: "int \<Rightarrow> string" where
  "Itoa i = (if i < 0 then CHR ''-'' # digits (nat (- i)) else digits (nat i))"

definition is_digit :: "char \<Rightarrow> bool" where
  "is_digit c \<longleftrightarrow> 48 \<le> (of_char c :: nat) \<and> (of_char c :: nat) \<le> 57"

definition digit_val :: "char \<Rightarrow> nat" where
  "digit_val c = of_char c - 48"

definition digits_val :: "string \<Rightarrow> nat" where
  "digits_val s = foldl (\<lambda>a c. 10 * a + digit_val c) 0 s"

text \<open>The range of \<open>int\<close> on the platforms the program is built for.\<close>

definition MaxInt :: int where "MaxInt = 9223372036854775807"

definition MinInt :: int where "MinInt = - 9223372036854775808"

text \<open>\<open>%q\<close> for printable ASCII.\<close>

definition quote_char :: "char \<Rightarrow> string" where
  "quote_char c = (if c = CHR 0x22 \<or> c = CHR 0x5C then [CHR 0x5C, c] else [c])"

definition Quote :: "string \<Rightarrow> string" where
  "Quote s = [CHR 0x22] @ concat (map quote_char s) @ [CHR 0x22]"

text \<open>\<open>strconv.Atoi\<close>: an optional sign and decimal digits, within the range of \<open>int\<close>.\<close>

definition split_sign :: "string \<Rightarrow> bool \<times> string" where
  "split_sign s = (case s of
       [] \<Rightarrow> (False, [])
     | c # cs \<Rightarrow> if c = CHR ''-'' then (True, cs) else if c = CHR ''+'' then (False, cs) else (False, s))"

definition Atoi :: "string \<Rightarrow> go_error + int" where
  "Atoi s =
    (let (neg, ds) = split_sign s; v = (if neg then - int (digits_val ds) else int (digits_val ds)) in
     if ds = [] \<or> \<not> list_all is_digit ds then Inl (ErrorString (''strconv.Atoi: parsing '' @ Quote s @ '': invalid syntax''))
     else if v < MinInt \<or> MaxInt < v then Inl (ErrorString (''strconv.Atoi: parsing '' @ Quote s @ '': value out of range''))
     else Inr v)"

text \<open>\<open>%v\<close> of a slice of strings.\<close>

definition Sprint_slice :: "string list \<Rightarrow> string" where
  "Sprint_slice xs = ''['' @ Join xs '' '' @ '']''"

text \<open>\<open>%v\<close> of a \<open>map[string]string\<close>: entries in key order.\<close>

definition Sprint_smap :: "smap \<Rightarrow> string" where
  "Sprint_smap m = ''map['' @ Join (map (\<lambda>(k, v). k @ '':'' @ v) (go_range m)) '' '' @ '']''"

lemmas go_string_defs [go_defs] =
  HasPrefix_def HasSuffix_def TrimPrefix_def TrimSuffix_def is_space_def TrimSpace_def
  slice_def smap_of_def map_get_def

section \<open>Facts about the helpers\<close>

lemma slice_simps [simp]: "slice None = []" "slice (Some xs) = xs"
  by (simp_all add: slice_def)

lemma smap_of_simps [simp]: "smap_of None = fmempty" "smap_of (Some m) = m"
  by (simp_all add: smap_of_def)

lemma HasPrefix_iff: "HasPrefix s p \<longleftrightarrow> prefix p s"
  unfolding HasPrefix_def by (metis append_eq_conv_conj prefix_def)

lemma HasPrefix_Nil [simp]: "HasPrefix s []"
  by (simp add: HasPrefix_def)

lemma HasPrefix_append [simp]: "HasPrefix (p @ s) p"
  by (simp add: HasPrefix_def)

lemma HasSuffix_iff: "HasSuffix s p \<longleftrightarrow> suffix p s"
proof
  assume "HasSuffix s p"
  then have "s = take (length s - length p) s @ p"
    unfolding HasSuffix_def by (metis append_take_drop_id)
  then show "suffix p s" by (metis suffixI)
next
  assume "suffix p s"
  then show "HasSuffix s p" by (auto simp: HasSuffix_def suffix_def)
qed

lemma TrimSuffix_append [simp]: "TrimSuffix (s @ p) p = s"
  by (simp add: TrimSuffix_def HasSuffix_def)

lemma TrimPrefix_append [simp]: "TrimPrefix (p @ s) p = s"
  by (simp add: TrimPrefix_def)

lemma Split_not_Nil [simp]: "Split s c \<noteq> []"
  by (induction s) (auto split: list.splits)

lemma Join_Split: "Join (Split s c) [c] = s"
proof (induction s)
  case (Cons x xs)
  obtain p ps where sp: "Split xs c = p # ps"
    by (meson Split_not_Nil neq_Nil_conv)
  with Cons show ?case by (cases ps) auto
qed simp

lemma Split_parts: "\<forall>p \<in> set (Split s c). c \<notin> set p"
  by (induction s) (auto split: list.splits)

lemma Split_no_sep: "c \<notin> set s \<Longrightarrow> Split s c = [s]"
  by (induction s) auto

lemma Split_append_sep: "c \<notin> set p \<Longrightarrow> Split (p @ c # s) c = p # Split s c"
  by (induction p) auto

lemma Split_Join:
  "xs \<noteq> [] \<Longrightarrow> \<forall>p \<in> set xs. c \<notin> set p \<Longrightarrow> Split (Join xs [c]) c = xs"
  by (induction xs "[c]" rule: Join.induct) (auto simp: Split_no_sep Split_append_sep)

lemma Join_eq_Nil_iff: "sep \<noteq> [] \<Longrightarrow> Join xs sep = [] \<longleftrightarrow> xs = [] \<or> xs = [[]]"
  by (induction xs sep rule: Join.induct) auto

lemma of_char_digit: "n < 10 \<Longrightarrow> (of_char (digit n) :: nat) = 48 + n"
  by (simp add: digit_def)

lemma digit_val_digit [simp]: "n < 10 \<Longrightarrow> digit_val (digit n) = n"
  by (simp add: digit_val_def of_char_digit)

lemma is_digit_digit [simp]: "n < 10 \<Longrightarrow> is_digit (digit n)"
  by (simp add: is_digit_def of_char_digit)

lemma digits_val_snoc: "digits_val (s @ [c]) = 10 * digits_val s + digit_val c"
  by (simp add: digits_val_def)

lemma digits_val_digits: "digits_val (digits n) = n"
proof (induction n rule: digits.induct)
  case (1 n)
  show ?case
  proof (cases "n < 10")
    case True
    then show ?thesis by (simp add: digits.simps [of n] digits_val_def)
  next
    case False
    with 1 show ?thesis by (simp add: digits.simps [of n] digits_val_snoc)
  qed
qed

lemma set_digits: "c \<in> set (digits n) \<Longrightarrow> is_digit c"
proof (induction n rule: digits.induct)
  case (1 n)
  then show ?case
    by (cases "n < 10") (auto simp: digits.simps [of n])
qed

lemma digits_inject [simp]: "digits m = digits n \<longleftrightarrow> m = n"
  by (metis digits_val_digits)

lemma digits_not_minus: "CHR ''-'' # s \<noteq> digits n"
proof
  assume "CHR ''-'' # s = digits n"
  then have "CHR ''-'' \<in> set (digits n)" by (metis list.set_intros(1))
  then have "is_digit (CHR ''-'')" by (rule set_digits)
  then show False by (simp add: is_digit_def)
qed

lemma Itoa_inject: "Itoa i = Itoa j \<longleftrightarrow> i = j"
  using digits_not_minus digits_not_minus [symmetric]
  by (auto simp: Itoa_def split: if_splits)

lemma digits_ne [simp]: "digits n \<noteq> []"
  by (simp add: digits.simps [of n])

lemma Itoa_number: "Itoa i \<noteq> []" "split_sign (Itoa i) = (i < 0, digits (nat \<bar>i\<bar>))"
proof -
  have "digits n = c # cs \<Longrightarrow> c \<noteq> CHR ''-'' \<and> c \<noteq> CHR ''+''" for n c cs
    using set_digits [of c n] by (auto simp: is_digit_def)
  then show "split_sign (Itoa i) = (i < 0, digits (nat \<bar>i\<bar>))"
    by (auto simp: split_sign_def Itoa_def split: list.split)
qed (simp add: Itoa_def)

lemma Atoi_Itoa: "MinInt \<le> i \<Longrightarrow> i \<le> MaxInt \<Longrightarrow> Atoi (Itoa i) = Inr i"
  by (simp add: Atoi_def Itoa_number Let_def digits_val_digits list_all_iff set_digits)

lemma Atoi_range: "Atoi s = Inr i \<Longrightarrow> MinInt \<le> i \<and> i \<le> MaxInt"
  by (auto simp: Atoi_def Let_def split: prod.splits if_splits)

lemma find_SomeD: "find P xs = Some x \<Longrightarrow> x \<in> set xs \<and> P x"
  by (auto simp: find_Some_iff)

lemma map_of_filter_in: "P k \<Longrightarrow> map_of (filter (\<lambda>(k, v). P k) es) k = map_of es k"
  by (induction es) auto

section \<open>Range loops\<close>

lemma enumerates_go_range: "enumerates (go_range m) m"
proof -
  have "map fst (sorted_list_of_fmap m) = sorted_list_of_fset (fmdom m)"
    by (simp add: sorted_list_of_fmap_def comp_def)
  then show ?thesis
    by (simp add: enumerates_def go_range_def sorted_list_of_fset.rep_eq)
qed

lemma enumerates_set: "enumerates es m \<Longrightarrow> set es = {(k, v). fmlookup m k = Some v}"
  by (auto simp: enumerates_def simp flip: map_of_eq_Some_iff)

locale range_loop =
  fixes body :: "'k \<Rightarrow> 'v \<Rightarrow> 's \<Rightarrow> 's"
  assumes body_commute:
    "k \<noteq> k' \<Longrightarrow> body k v (body k' v' s) = body k' v' (body k v s)"
begin

lemma body_fold:
  "k \<notin> fst ` set es \<Longrightarrow> fold (\<lambda>(k, v). body k v) es (body k v s) = body k v (fold (\<lambda>(k, v). body k v) es s)"
proof (induction es arbitrary: s)
  case (Cons e es)
  obtain k' v' where e: "e = (k', v')" by (cases e)
  with Cons.prems have "body k' v' (body k v s) = body k v (body k' v' s)"
    by (auto intro: body_commute)
  with Cons e show ?case by simp
qed simp

lemma order_irrelevant:
  assumes "distinct (map fst es)" and "distinct (map fst es')" and "set es = set es'"
  shows "fold (\<lambda>(k, v). body k v) es s = fold (\<lambda>(k, v). body k v) es' s"
  using assms
proof (induction es arbitrary: es' s)
  case (Cons e es)
  obtain k v where e: "e = (k, v)" by (cases e)
  with Cons.prems(3) have "(k, v) \<in> set es'" by auto
  then obtain as bs where es': "es' = as @ (k, v) # bs" by (meson split_list)
  from Cons.prems(1,2) e es' have fresh: "k \<notin> fst ` set as"
    and out: "(k, v) \<notin> set es" "(k, v) \<notin> set (as @ bs)"
    by (auto simp: image_iff)
  from Cons.prems(3) e es' have "insert (k, v) (set es) = insert (k, v) (set (as @ bs))"
    by auto
  with out have set: "set es = set (as @ bs)" by (simp add: insert_ident)
  have "fold (\<lambda>(k, v). body k v) (e # es) s = fold (\<lambda>(k, v). body k v) (as @ bs) (body k v s)"
    using Cons.IH [of "as @ bs"] Cons.prems e es' set by simp
  also have "\<dots> = fold (\<lambda>(k, v). body k v) es' s"
    using fresh es' by (simp add: body_fold)
  finally show ?case .
qed simp

lemma any_enumeration:
  "enumerates es m \<Longrightarrow> enumerates es' m \<Longrightarrow>
    fold (\<lambda>(k, v). body k v) es s = fold (\<lambda>(k, v). body k v) es' s"
  by (rule order_irrelevant) (auto simp: enumerates_def enumerates_set)

end

end
