(* ===== verification/Kube_Types.thy ===== *)
theory Kube_Types
  imports Prelude
begin

text \<open>
  The Kubernetes objects the program reads and writes, restricted to the fields it touches. Go
  embeds \<open>metav1.ObjectMeta\<close> into every object, so every kind here extends the record
  \<open>ObjectMeta\<close>; an operation on \<open>metav1.Object\<close> is an operation on \<open>'a ObjectMeta_scheme\<close>.
  A nil pointer, map or slice is \<open>None\<close>. \<open>OtherMeta\<close> stands for the remaining metadata
  (\<open>uid\<close>, \<open>generation\<close>, \<open>creationTimestamp\<close>, \<open>ownerReferences\<close>, ...), which the program only
  compares; the \<open>...Rest\<close> fields stand for the parts of an object it never looks at.
\<close>

section \<open>Metadata\<close>

record ObjectMeta =
  Name :: string
  Namespace :: string
  Labels :: "smap option"
  Annotations :: "smap option"
  Finalizers :: "string list option"
  ResourceVersion :: string
  DeletionTimestamp :: "int option"
  ManagedFields :: "string list option"
  OtherMeta :: string

record TypeMeta =
  Kind :: string
  APIVersion :: string

section \<open>Label selectors\<close>

record LabelSelectorRequirement =
  Key :: string
  Operator :: string
  Values :: "string list"

record LabelSelector =
  MatchLabels :: "smap option"
  MatchExpressions :: "LabelSelectorRequirement list option"

section \<open>Kinds\<close>

record StorageClass = ObjectMeta +
  SCTypeMeta :: TypeMeta
  Provisioner :: string
  Parameters :: "smap option"
  ReclaimPolicy :: "string option"
  MountOptions :: "string list option"
  AllowVolumeExpansion :: "bool option"
  VolumeBindingMode :: "string option"
  AllowedTopologies :: "string list option"

record Secret = ObjectMeta +
  SecretTypeMeta :: TypeMeta
  Data :: "smap option"
  StringData :: "smap option"

record VolumeSnapshotClass = ObjectMeta +
  Driver :: string
  DeletionPolicy :: string
  VSParameters :: "smap option"

record Node = ObjectMeta +
  NodeRest :: string

record Volume =
  VolumeName' :: string
  PersistentVolumeClaim :: "string option"

record Pod = ObjectMeta +
  NodeName :: string
  Volumes :: "Volume list"

record NamespaceObj = ObjectMeta +
  NamespaceRest :: string

record Lease = ObjectMeta +
  HolderIdentity :: "string option"

record PersistentVolumeClaim = ObjectMeta +
  StorageClassName :: "string option"
  VolumeName :: string
  Phase :: string

record PersistentVolume = ObjectMeta +
  CSIDriver :: "string option"

text \<open>
  \<open>ReadyToUse\<close> is \<open>None\<close> for a nil status, \<open>Some None\<close> for a status with a nil \<open>readyToUse\<close>.
\<close>

record VolumeSnapshot = ObjectMeta +
  SourcePVCName :: "string option"
  ReadyToUse :: "bool option option"

text \<open>Values of \<open>map[string]any\<close>, as the JSON decoder produces them.\<close>

datatype any =
    AnyNil
  | AnyBool bool
  | AnyNum int
  | AnyString string
  | AnyArray "any list"
  | AnyMap "(string \<times> any) list"

record ModuleConfig = ObjectMeta +
  Settings :: "(string \<times> any) list"
  MCSpecRest :: string

section \<open>Metadata the server owns\<close>

text \<open>
  \<open>same_object x y\<close>: \<open>y\<close> is \<open>x\<close> up to the metadata the API server sets itself.
\<close>

definition same_object :: "'a ObjectMeta_scheme \<Rightarrow> 'a ObjectMeta_scheme \<Rightarrow> bool" where
  "same_object x y \<longleftrightarrow>
     y = x\<lparr>ResourceVersion := ResourceVersion y, DeletionTimestamp := DeletionTimestamp y,
           ManagedFields := ManagedFields y, OtherMeta := OtherMeta y\<rparr>"

definition fins :: "'a ObjectMeta_scheme \<Rightarrow> string list" where
  "fins x = slice (Finalizers x)"

text \<open>Encoding drops empty maps and slices (\<open>omitempty\<close>): they are read back as nil.\<close>

definition omit_map :: "smap option \<Rightarrow> smap option" where
  "omit_map m = (if smap_of m = fmempty then None else m)"

definition omit_slice :: "'a list option \<Rightarrow> 'a list option" where
  "omit_slice s = (if slice s = [] then None else s)"

definition wire_meta :: "'a ObjectMeta_scheme \<Rightarrow> 'a ObjectMeta_scheme" where
  "wire_meta x = x\<lparr>Labels := omit_map (Labels x), Annotations := omit_map (Annotations x),
     Finalizers := omit_slice (Finalizers x)\<rparr>"

definition wire_sc :: "StorageClass \<Rightarrow> StorageClass" where
  "wire_sc x = (wire_meta x)\<lparr>Parameters := omit_map (Parameters x),
     MountOptions := omit_slice (MountOptions x)\<rparr>"

text \<open>\<open>stringData\<close> of a Secret is write-only: the server folds it into \<open>data\<close> and never returns it.\<close>

definition wire_secret :: "Secret \<Rightarrow> Secret" where
  "wire_secret x = (wire_meta x)\<lparr>
     Data := omit_map (Some (smap_of (Data x) ++\<^sub>f smap_of (StringData x))), StringData := None\<rparr>"

definition wire_vsclass :: "VolumeSnapshotClass \<Rightarrow> VolumeSnapshotClass" where
  "wire_vsclass x = (wire_meta x)\<lparr>VSParameters := omit_map (VSParameters x)\<rparr>"

section \<open>Facts\<close>

lemma same_object_refl [simp]: "same_object x x"
  by (simp add: same_object_def)

lemma same_object_meta:
  assumes "same_object x y"
  shows "Name y = Name x" "Namespace y = Namespace x" "Labels y = Labels x"
    "Annotations y = Annotations x" "Finalizers y = Finalizers x" "fins y = fins x"
proof -
  from assms obtain rv dt mf om where
    "y = x\<lparr>ResourceVersion := rv, DeletionTimestamp := dt, ManagedFields := mf, OtherMeta := om\<rparr>"
    unfolding same_object_def by blast
  then show "Name y = Name x" "Namespace y = Namespace x" "Labels y = Labels x"
    "Annotations y = Annotations x" "Finalizers y = Finalizers x" "fins y = fins x"
    by (simp_all add: fins_def)
qed

lemma same_object_more:
  assumes "same_object x y"
  shows "ObjectMeta.more y = ObjectMeta.more x"
proof -
  from assms obtain rv dt mf om where
    "y = x\<lparr>ResourceVersion := rv, DeletionTimestamp := dt, ManagedFields := mf, OtherMeta := om\<rparr>"
    unfolding same_object_def by blast
  then show ?thesis by simp
qed

lemma same_object_fields:
  assumes "same_object x y"
  obtains rv dt mf om where
    "y = x\<lparr>ResourceVersion := rv, DeletionTimestamp := dt, ManagedFields := mf, OtherMeta := om\<rparr>"
  using assms unfolding same_object_def by blast

lemma wire_meta_simps [simp]:
  "Name (wire_meta x) = Name x" "Namespace (wire_meta x) = Namespace x"
  "fins (wire_meta x) = fins x" "DeletionTimestamp (wire_meta x) = DeletionTimestamp x"
  "ResourceVersion (wire_meta x) = ResourceVersion x"
  by (simp_all add: wire_meta_def fins_def omit_slice_def slice_def split: option.splits)

lemma omit_map_Some [simp]: "m \<noteq> fmempty \<Longrightarrow> omit_map (Some m) = Some m"
  by (simp add: omit_map_def)

lemma omit_slice_Some [simp]: "xs \<noteq> [] \<Longrightarrow> omit_slice (Some xs) = Some xs"
  by (simp add: omit_slice_def)

lemma omit_None [simp]: "omit_map None = None" "omit_slice None = None"
  by (simp_all add: omit_map_def omit_slice_def)

lemma smap_of_omit [simp]: "smap_of (omit_map m) = smap_of m"
  by (auto simp: omit_map_def smap_of_def split: option.splits)

end
