(* ===== verification/Api_V1alpha1.thy ===== *)
theory Api_V1alpha1
  imports Kube_Types
begin

text \<open>
  The custom resource of the module, \<open>api/v1alpha1/nfs_storage_class.go\<close>: the structs of the
  API group \<open>storage.deckhouse.io/v1alpha1\<close>. Go's \<open>int\<close> fields are only compared with 0 and
  printed, so they are unbounded here.
\<close>

record NFSStorageClassConnection =
  Host :: string
  Share :: string
  NFSVersion :: string
  Tls :: bool
  Mtls :: bool

record NFSStorageClassMountOptions =
  MountMode :: string
  Timeout :: int
  Retransmissions :: int
  ReadOnly :: "bool option"

record NFSStorageClassWorkloadNodes =
  NodeSelector :: "LabelSelector option"

record NFSStorageClassSpec =
  Connection :: "NFSStorageClassConnection option"
  SpecMountOptions :: "NFSStorageClassMountOptions option"
  ChmodPermissions :: string
  SpecReclaimPolicy :: string
  SpecVolumeBindingMode :: string
  WorkloadNodes :: "NFSStorageClassWorkloadNodes option"
  VolumeCleanup :: string

record NFSStorageClassStatus =
  StatusPhase :: string
  StatusReason :: string

record NFSStorageClass = ObjectMeta +
  Spec :: NFSStorageClassSpec
  Status :: "NFSStorageClassStatus option"

definition zero_spec :: NFSStorageClassSpec where
  "zero_spec = \<lparr>Connection = None, SpecMountOptions = None, ChmodPermissions = '''',
     SpecReclaimPolicy = '''', SpecVolumeBindingMode = '''', WorkloadNodes = None,
     VolumeCleanup = ''''\<rparr>"

text \<open>The freshly allocated \<open>&v1alpha1.NFSStorageClass{}\<close>.\<close>

definition zero_nsc :: NFSStorageClass where
  "zero_nsc = \<lparr>Name = '''', Namespace = '''', Labels = None, Annotations = None,
     Finalizers = None, ResourceVersion = '''', DeletionTimestamp = None,
     ManagedFields = None, OtherMeta = '''', Spec = zero_spec, Status = None\<rparr>"

lemma zero_nsc_Name [simp]: "Name zero_nsc = ''''"
  by (simp add: zero_nsc_def)

end
