(* ===== verification/Kube_Client.thy ===== *)
theory Kube_Client
  imports Api_V1alpha1
begin

text \<open>
  The code the program calls and does not contain: the controller-runtime client and the helper
  libraries of the API machinery. Both are parameters. A \<open>'w client\<close> is a record of operations on
  an outside world of type \<open>'w\<close>; a \<open>lib\<close> is a record of library functions. What their
  documentation promises is stated as locales:

  \<^item> \<open>lib_laws\<close>: label selectors match by requirement, \<open>labels.Merge\<close> lets the second map win,
    \<open>cmp.Equal\<close> is equality of maps and slices (nil and empty are different);
  \<^item> \<open>kind_laws\<close>: create, update, delete, get and list of one kind, seen through an abstraction
    \<open>view\<close> of the world as a \<open>cluster\<close>; a successful write has the documented effect, and any
    write, successful or not, touches at most the object it names;
  \<^item> \<open>kube_laws\<close>: all kinds of the cluster together, with the status subresource.

  \<open>std_lib\<close> is a concrete \<open>lib\<close> and interprets \<open>lib_laws\<close>; theory \<open>Memory_API\<close> gives a client
  that interprets \<open>kube_laws\<close>.
\<close>

section \<open>Library functions\<close>

record lib =
  labels_Merge :: "smap \<Rightarrow> smap \<Rightarrow> smap"
  labels_Matches :: "smap option \<Rightarrow> smap option \<Rightarrow> bool"
  LabelSelectorAsSelector :: "LabelSelector \<Rightarrow> go_error + (smap option \<Rightarrow> bool)"
  cmp_Equal_map :: "smap option \<Rightarrow> smap option \<Rightarrow> bool"
  cmp_Diff_map :: "smap option \<Rightarrow> smap option \<Rightarrow> string"
  cmp_Equal_slice :: "string list option \<Rightarrow> string list option \<Rightarrow> bool"
  cmp_Diff_slice :: "string list option \<Rightarrow> string list option \<Rightarrow> string"
  IsNotFound :: "go_error \<Rightarrow> bool"
  fmt_selectors :: "LabelSelector list \<Rightarrow> string"

text \<open>
  \<open>labels_Matches s t\<close> is \<open>labels.Set(s).AsSelector().Matches(labels.Set(t))\<close>, which is also
  \<open>labels.SelectorFromSet(s).Matches(t)\<close>. A \<open>labels.Selector\<close> is represented by its \<open>Matches\<close>
  method. \<open>fmt_selectors\<close> is \<open>%+v\<close> of a slice of selector pointers, which prints addresses.
\<close>

section \<open>The client\<close>

datatype ListOption =
    InNamespace string
  | MatchingLabels smap
  | MatchingSelector "smap option \<Rightarrow> bool"

record ('w, 'a) kind_client =
  Create :: "'a \<Rightarrow> 'w \<Rightarrow> (go_error option \<times> 'a) \<times> 'w"
  Update :: "'a \<Rightarrow> 'w \<Rightarrow> (go_error option \<times> 'a) \<times> 'w"
  StatusUpdate :: "'a \<Rightarrow> 'w \<Rightarrow> (go_error option \<times> 'a) \<times> 'w"
  Delete :: "'a \<Rightarrow> 'w \<Rightarrow> go_error option \<times> 'w"
  Get :: "string \<Rightarrow> string \<Rightarrow> 'w \<Rightarrow> (go_error + 'a) \<times> 'w"
  List :: "ListOption list \<Rightarrow> 'w \<Rightarrow> (go_error + 'a list) \<times> 'w"

text \<open>
  Writes take the object and return the error and the object as the client leaves it (the server's
  response on success). \<open>Get\<close> takes namespace and name.
\<close>

record 'w client =
  nsc_client :: "('w, NFSStorageClass) kind_client"
  sc_client :: "('w, StorageClass) kind_client"
  secret_client :: "('w, Secret) kind_client"
  vsc_client :: "('w, VolumeSnapshotClass) kind_client"
  mc_client :: "('w, ModuleConfig) kind_client"
  node_client :: "('w, Node) kind_client"
  pod_client :: "('w, Pod) kind_client"
  ns_client :: "('w, NamespaceObj) kind_client"
  lease_client :: "('w, Lease) kind_client"
  pvc_client :: "('w, PersistentVolumeClaim) kind_client"
  pv_client :: "('w, PersistentVolume) kind_client"
  vs_client :: "('w, VolumeSnapshot) kind_client"
  RetryOnConflict :: "('w \<Rightarrow> go_error option \<times> 'w) \<Rightarrow> 'w \<Rightarrow> go_error option \<times> 'w"

section \<open>The cluster as the client shows it\<close>

type_synonym key = "string \<times> string"
type_synonym 'a store = "key \<Rightarrow> 'a option"

record cluster =
  nscs :: "NFSStorageClass store"
  scs :: "StorageClass store"
  secrets :: "Secret store"
  vscs :: "VolumeSnapshotClass store"
  mcs :: "ModuleConfig store"
  nodes :: "Node store"
  pods :: "Pod store"
  nss :: "NamespaceObj store"
  leases :: "Lease store"
  pvcs :: "PersistentVolumeClaim store"
  pvs :: "PersistentVolume store"
  vss :: "VolumeSnapshot store"

text \<open>Cluster-scoped objects are keyed by name, the others by namespace and name.\<close>

definition ckey :: "'a ObjectMeta_scheme \<Rightarrow> key" where
  "ckey x = ('''', Name x)"

definition nkey :: "'a ObjectMeta_scheme \<Rightarrow> key" where
  "nkey x = (Namespace x, Name x)"

fun option_matches :: "ListOption \<Rightarrow> 'a ObjectMeta_scheme \<Rightarrow> bool" where
  "option_matches (InNamespace ns) x \<longleftrightarrow> ns = '''' \<or> Namespace x = ns"
| "option_matches (MatchingLabels m) x \<longleftrightarrow> m \<subseteq>\<^sub>f smap_of (Labels x)"
| "option_matches (MatchingSelector P) x \<longleftrightarrow> P (Labels x)"

definition options_match :: "ListOption list \<Rightarrow> 'a ObjectMeta_scheme \<Rightarrow> bool" where
  "options_match opts x \<longleftrightarrow> list_all (\<lambda>opt. option_matches opt x) opts"

section \<open>Documented meaning of selectors\<close>

definition requirement_valid :: "LabelSelectorRequirement \<Rightarrow> bool" where
  "requirement_valid r \<longleftrightarrow>
     (Operator r \<in> {''In'', ''NotIn''} \<and> Values r \<noteq> []) \<or>
     (Operator r \<in> {''Exists'', ''DoesNotExist''} \<and> Values r = [])"

definition requirement_matches :: "LabelSelectorRequirement \<Rightarrow> smap \<Rightarrow> bool" where
  "requirement_matches r m \<longleftrightarrow>
     (if Operator r = ''In''
      then (case fmlookup m (Key r) of None \<Rightarrow> False | Some v \<Rightarrow> v \<in> set (Values r))
      else if Operator r = ''NotIn''
      then (case fmlookup m (Key r) of None \<Rightarrow> True | Some v \<Rightarrow> v \<notin> set (Values r))
      else if Operator r = ''Exists'' then fmlookup m (Key r) \<noteq> None
      else fmlookup m (Key r) = None)"

definition selector_valid :: "LabelSelector \<Rightarrow> bool" where
  "selector_valid s \<longleftrightarrow> list_all requirement_valid (slice (MatchExpressions s))"

definition selector_matches :: "LabelSelector \<Rightarrow> smap \<Rightarrow> bool" where
  "selector_matches s m \<longleftrightarrow> smap_of (MatchLabels s) \<subseteq>\<^sub>f m \<and>
     list_all (\<lambda>r. requirement_matches r m) (slice (MatchExpressions s))"

section \<open>Laws\<close>

locale lib_laws =
  fixes L :: lib
  assumes Merge: "labels_Merge L m n = m ++\<^sub>f n"
    and Matches: "labels_Matches L p q \<longleftrightarrow> smap_of p \<subseteq>\<^sub>f smap_of q"
    and AsSelector_valid: "selector_valid s \<Longrightarrow>
      \<exists>P. LabelSelectorAsSelector L s = Inr P \<and> (\<forall>l. P l \<longleftrightarrow> selector_matches s (smap_of l))"
    and AsSelector_invalid: "\<not> selector_valid s \<Longrightarrow> \<exists>e. LabelSelectorAsSelector L s = Inl e"
    and Equal_map: "cmp_Equal_map L p q \<longleftrightarrow> p = q"
    and Equal_slice: "cmp_Equal_slice L xs ys \<longleftrightarrow> xs = ys"
    and NotFound: "IsNotFound L (StatusError r msg) \<longleftrightarrow> r = ''NotFound''"
begin

lemmas lib_simps = Merge Matches Equal_map Equal_slice

lemma AsSelector_Inr_valid:
  "LabelSelectorAsSelector L s = Inr P \<Longrightarrow> selector_valid s"
  using AsSelector_invalid by fastforce

lemma AsSelector_Inr_matches:
  "LabelSelectorAsSelector L s = Inr P \<Longrightarrow> P l \<longleftrightarrow> selector_matches s (smap_of l)"
  using AsSelector_valid AsSelector_Inr_valid by fastforce

end

locale kind_laws =
  fixes api :: "('w, 'm ObjectMeta_scheme) kind_client"
    and view :: "'w \<Rightarrow> cluster"
    and sel :: "cluster \<Rightarrow> 'm ObjectMeta_scheme store"
    and upd :: "('m ObjectMeta_scheme store \<Rightarrow> 'm ObjectMeta_scheme store) \<Rightarrow> cluster \<Rightarrow> cluster"
    and key :: "'m ObjectMeta_scheme \<Rightarrow> key"
    and wire :: "'m ObjectMeta_scheme \<Rightarrow> 'm ObjectMeta_scheme"
  assumes sel_upd: "sel (upd f c) = f (sel c)"
    and upd_upd: "upd f (upd g c) = upd (\<lambda>s. f (g s)) c"
    and key_fins: "key (x\<lparr>Finalizers := fs\<rparr>) = key x"
    and wire_fins: "fins (wire x) = fins x"
    and keyed: "sel (view w) k = Some x \<Longrightarrow> key x = k"
    and stored_wire: "sel (view w) k = Some x \<Longrightarrow> wire x = x"
    and create_ok: "Create api x w = ((None, x'), w') \<Longrightarrow>
      sel (view w) (key x) = None \<and>
      (\<exists>y. same_object (wire x) y \<and> DeletionTimestamp y = None \<and>
           view w' = upd (\<lambda>s. s(key x := Some y)) (view w))"
    and create_frame: "Create api x w = (r, w') \<Longrightarrow>
      \<exists>v. view w' = upd (\<lambda>s. s(key x := v)) (view w)"
    and update_ok: "Update api x w = ((None, x'), w') \<Longrightarrow>
      \<exists>old. sel (view w) (key x) = Some old \<and> same_object (wire x) x' \<and>
        DeletionTimestamp x' = DeletionTimestamp old \<and>
        view w' = upd (\<lambda>s. s(key x :=
          (if DeletionTimestamp old \<noteq> None \<and> fins x' = [] then None else Some x'))) (view w)"
    and update_frame: "Update api x w = (r, w') \<Longrightarrow>
      \<exists>v. view w' = upd (\<lambda>s. s(key x := v)) (view w)"
    and update_key: "Update api x w = ((e, x'), w') \<Longrightarrow> key x' = key x"
    and update_conflict: "Update api x w = ((Some (StatusError ''Conflict'' m), x'), w') \<Longrightarrow> view w' = view w"
    and delete_ok: "Delete api x w = (None, w') \<Longrightarrow>
      \<exists>old. sel (view w) (key x) = Some old \<and>
        (if fins old = [] then view w' = upd (\<lambda>s. s(key x := None)) (view w)
         else \<exists>y. same_object old y \<and> DeletionTimestamp y \<noteq> None \<and>
                  view w' = upd (\<lambda>s. s(key x := Some y)) (view w))"
    and delete_frame: "Delete api x w = (d, w') \<Longrightarrow>
      \<exists>v. view w' = upd (\<lambda>s. s(key x := v)) (view w)"
    and get_view: "Get api ns n w = (gr, w') \<Longrightarrow> view w' = view w"
    and get_ok: "Get api ns n w = (Inr x, w') \<Longrightarrow> sel (view w) (ns, n) = Some x"
    and list_view: "List api opts w = (lr, w') \<Longrightarrow> view w' = view w"
    and list_ok: "List api opts w = (Inr xs, w') \<Longrightarrow>
      distinct (map key xs) \<and>
      (\<forall>x. x \<in> set xs \<longleftrightarrow> sel (view w) (key x) = Some x \<and> options_match opts x)"

text \<open>
  \<open>retried f w r w'\<close>: \<open>f\<close> was run at least once from \<open>w\<close>, every run but the last failed with a
  conflict, and the last one ended with \<open>r\<close> in \<open>w'\<close>. It is all the program relies on of
  \<open>retry.RetryOnConflict\<close>.
\<close>

inductive retried :: "('w \<Rightarrow> go_error option \<times> 'w) \<Rightarrow> 'w \<Rightarrow> go_error option \<Rightarrow> 'w \<Rightarrow> bool"
  for f where
  last_run: "f w = (r, w') \<Longrightarrow> retried f w r w'"
| another_run: "f w = (Some (StatusError ''Conflict'' m), w1) \<Longrightarrow> retried f w1 r w' \<Longrightarrow> retried f w r w'"

inductive_cases retriedE: "retried f w r w'"

locale kube_laws =
  fixes cl :: "'w client"
    and view :: "'w \<Rightarrow> cluster"
  assumes nsc_laws: "kind_laws (nsc_client cl) view nscs nscs_update ckey wire_meta"
    and sc_laws: "kind_laws (sc_client cl) view scs scs_update ckey wire_sc"
    and secret_laws: "kind_laws (secret_client cl) view secrets secrets_update nkey wire_secret"
    and vsc_laws: "kind_laws (vsc_client cl) view vscs vscs_update ckey wire_vsclass"
    and mc_laws: "kind_laws (mc_client cl) view mcs mcs_update ckey wire_meta"
    and node_laws: "kind_laws (node_client cl) view nodes nodes_update ckey wire_meta"
    and pod_laws: "kind_laws (pod_client cl) view pods pods_update nkey wire_meta"
    and ns_laws: "kind_laws (ns_client cl) view nss nss_update ckey wire_meta"
    and lease_laws: "kind_laws (lease_client cl) view leases leases_update nkey wire_meta"
    and pvc_laws: "kind_laws (pvc_client cl) view pvcs pvcs_update nkey wire_meta"
    and pv_laws: "kind_laws (pv_client cl) view pvs pvs_update ckey wire_meta"
    and vs_laws: "kind_laws (vs_client cl) view vss vss_update nkey wire_meta"
    and status_ok: "StatusUpdate (nsc_client cl) x w = ((None, x'), w') \<Longrightarrow>
      \<exists>old. nscs (view w) (ckey x) = Some old \<and> same_object (old\<lparr>Status := Status x\<rparr>) x' \<and>
        DeletionTimestamp x' = DeletionTimestamp old \<and>
        view w' = nscs_update (\<lambda>s. s(ckey x := Some x')) (view w)"
    and status_frame: "StatusUpdate (nsc_client cl) x w = (r, w') \<Longrightarrow>
      \<exists>v. view w' = nscs_update (\<lambda>s. s(ckey x := v)) (view w)"
    and status_key: "StatusUpdate (nsc_client cl) x w = ((e, x'), w') \<Longrightarrow> ckey x' = ckey x"
    and retry: "RetryOnConflict cl f w = (res, w') \<Longrightarrow> retried f w res w'"

sublocale kube_laws \<subseteq> nsc: kind_laws "nsc_client cl" view nscs nscs_update ckey wire_meta
  by (rule nsc_laws)

sublocale kube_laws \<subseteq> sc: kind_laws "sc_client cl" view scs scs_update ckey wire_sc
  by (rule sc_laws)

sublocale kube_laws \<subseteq> secret: kind_laws "secret_client cl" view secrets secrets_update nkey wire_secret
  by (rule secret_laws)

sublocale kube_laws \<subseteq> vsc: kind_laws "vsc_client cl" view vscs vscs_update ckey wire_vsclass
  by (rule vsc_laws)

sublocale kube_laws \<subseteq> mc: kind_laws "mc_client cl" view mcs mcs_update ckey wire_meta
  by (rule mc_laws)

sublocale kube_laws \<subseteq> node: kind_laws "node_client cl" view nodes nodes_update ckey wire_meta
  by (rule node_laws)

sublocale kube_laws \<subseteq> pod: kind_laws "pod_client cl" view pods pods_update nkey wire_meta
  by (rule pod_laws)

sublocale kube_laws \<subseteq> ns: kind_laws "ns_client cl" view nss nss_update ckey wire_meta
  by (rule ns_laws)

sublocale kube_laws \<subseteq> lease: kind_laws "lease_client cl" view leases leases_update nkey wire_meta
  by (rule lease_laws)

sublocale kube_laws \<subseteq> pvc: kind_laws "pvc_client cl" view pvcs pvcs_update nkey wire_meta
  by (rule pvc_laws)

sublocale kube_laws \<subseteq> pv: kind_laws "pv_client cl" view pvs pvs_update ckey wire_meta
  by (rule pv_laws)

sublocale kube_laws \<subseteq> vs: kind_laws "vs_client cl" view vss vss_update nkey wire_meta
  by (rule vs_laws)

section \<open>A concrete library\<close>

definition std_lib :: lib where
  "std_lib = \<lparr>
     labels_Merge = (\<lambda>m n. m ++\<^sub>f n),
     labels_Matches = (\<lambda>s t. smap_of s \<subseteq>\<^sub>f smap_of t),
     LabelSelectorAsSelector = (\<lambda>s. if selector_valid s
       then Inr (\<lambda>l. selector_matches s (smap_of l))
       else Inl (ErrorString ''invalid label selector'')),
     cmp_Equal_map = (\<lambda>m n. m = n),
     cmp_Diff_map = (\<lambda>m n. ''-map+map''),
     cmp_Equal_slice = (\<lambda>xs ys. xs = ys),
     cmp_Diff_slice = (\<lambda>xs ys. ''-slice+slice''),
     IsNotFound = (\<lambda>e. case e of StatusError r msg \<Rightarrow> r = ''NotFound'' | _ \<Rightarrow> False),
     fmt_selectors = (\<lambda>_. ''[...]'')\<rparr>"

interpretation std: lib_laws std_lib
  by unfold_locales (simp_all add: std_lib_def)

section \<open>Facts about the laws\<close>

lemma ckey_simps [simp]: "ckey x = ckey y \<longleftrightarrow> Name x = Name y" "snd (ckey x) = Name x"
  by (simp_all add: ckey_def)

lemma same_object_key: "same_object x y \<Longrightarrow> ckey y = ckey x" "same_object x y \<Longrightarrow> nkey y = nkey x"
  by (simp_all add: ckey_def nkey_def same_object_meta)

lemma options_match_simps [simp]:
  "options_match [] x"
  "options_match (opt # opts) x \<longleftrightarrow> option_matches opt x \<and> options_match opts x"
  by (simp_all add: options_match_def)

context kind_laws
begin

lemma list_mem:
  "List api opts w = (Inr xs, w') \<Longrightarrow>
    x \<in> set xs \<longleftrightarrow> sel (view w) (key x) = Some x \<and> options_match opts x"
  using list_ok by blast

lemma list_find:
  assumes l: "List api [] w = (Inr xs, w')"
  shows "find (\<lambda>x. key x = k) xs = sel (view w) k"
proof (cases "find (\<lambda>x. key x = k) xs")
  case None
  then have none: "\<not> (\<exists>x. x \<in> set xs \<and> key x = k)" by (simp add: find_None_iff)
  have "sel (view w) k = None"
  proof (rule ccontr)
    assume "sel (view w) k \<noteq> None"
    then obtain x where x: "sel (view w) k = Some x" by blast
    then have "key x = k" by (rule keyed)
    with x l have "x \<in> set xs" by (simp add: list_mem)
    with none \<open>key x = k\<close> show False by blast
  qed
  with None show ?thesis by simp
next
  case (Some x)
  then have "x \<in> set xs" "key x = k" by (auto simp: find_Some_iff)
  with l Some show ?thesis by (metis list_mem)
qed

end

end
