(* ===== verification/Memory_API.thy ===== *)
theory Memory_API
  imports Kube_Client
begin

text \<open>
  An API server in memory: lists of objects per kind, a clock for resource versions and deletion
  timestamps, and a list of operations that fail. Its client satisfies \<open>kube_laws\<close>
  (\<open>mem: kube_laws mem_client mem_view\<close>), so the hypotheses of the theorems about the controllers can
  be met, and the witnesses run the controllers against it. It models no code of the program.
\<close>

section \<open>One kind\<close>

primrec uniq :: "('a \<Rightarrow> key) \<Rightarrow> 'a list \<Rightarrow> 'a list" where
  "uniq key [] = []"
| "uniq key (x # xs) = x # filter (\<lambda>y. key y \<noteq> key x) (uniq key xs)"

definition stored :: "('a \<Rightarrow> key) \<Rightarrow> ('a \<Rightarrow> 'a) \<Rightarrow> 'a list \<Rightarrow> 'a store" where
  "stored key wire xs k = map_option wire (find (\<lambda>x. key x = k) xs)"

definition set_at :: "('a \<Rightarrow> key) \<Rightarrow> key \<Rightarrow> 'a option \<Rightarrow> 'a list \<Rightarrow> 'a list" where
  "set_at key k v xs = (case v of None \<Rightarrow> [] | Some y \<Rightarrow> [y]) @ filter (\<lambda>x. key x \<noteq> k) xs"

lemma find_filter_neq: "find (\<lambda>x. key x = k) (filter (\<lambda>x. key x \<noteq> k') xs) =
    (if k = k' then None else find (\<lambda>x. key x = k) xs)"
  by (induction xs) auto

lemma stored_set_at:
  assumes "\<And>y. v = Some y \<Longrightarrow> key y = k \<and> wire y = y"
  shows "stored key wire (set_at key k v xs) = (stored key wire xs)(k := v)"
  using assms
  by (cases v) (auto simp: stored_def set_at_def find_filter_neq fun_eq_iff)

lemma find_uniq: "find (\<lambda>x. key x = k) (uniq key xs) = find (\<lambda>x. key x = k) xs"
  by (induction xs) (auto simp: find_filter_neq)

lemma distinct_uniq: "distinct (map key (uniq key xs))"
  by (induction xs) (auto simp: distinct_map_filter)

lemma find_distinct:
  "distinct (map key ys) \<Longrightarrow> y \<in> set ys \<longleftrightarrow> find (\<lambda>x. key x = key y) ys = Some y"
  by (induction ys) (auto simp: image_iff dest: find_SomeD)

lemma set_uniq: "x \<in> set (uniq key xs) \<longleftrightarrow> find (\<lambda>y. key y = key x) xs = Some x"
  using find_distinct [OF distinct_uniq] by (metis find_uniq)

section \<open>The server\<close>

record mem =
  m_nscs :: "NFSStorageClass list"
  m_scs :: "StorageClass list"
  m_secrets :: "Secret list"
  m_vscs :: "VolumeSnapshotClass list"
  m_mcs :: "ModuleConfig list"
  m_nodes :: "Node list"
  m_pods :: "Pod list"
  m_nss :: "NamespaceObj list"
  m_leases :: "Lease list"
  m_pvcs :: "PersistentVolumeClaim list"
  m_pvs :: "PersistentVolume list"
  m_vss :: "VolumeSnapshot list"
  m_clock :: nat
  m_fail :: "string list"

definition mem_empty :: mem where
  "mem_empty = \<lparr>m_nscs = [], m_scs = [], m_secrets = [], m_vscs = [], m_mcs = [], m_nodes = [],
     m_pods = [], m_nss = [], m_leases = [], m_pvcs = [], m_pvs = [], m_vss = [], m_clock = 0, m_fail = []\<rparr>"

definition mem_view :: "mem \<Rightarrow> cluster" where
  "mem_view w = \<lparr>nscs = stored ckey wire_meta (m_nscs w), scs = stored ckey wire_sc (m_scs w),
     secrets = stored nkey wire_secret (m_secrets w), vscs = stored ckey wire_vsclass (m_vscs w),
     mcs = stored ckey wire_meta (m_mcs w), nodes = stored ckey wire_meta (m_nodes w),
     pods = stored nkey wire_meta (m_pods w), nss = stored ckey wire_meta (m_nss w),
     leases = stored nkey wire_meta (m_leases w), pvcs = stored nkey wire_meta (m_pvcs w),
     pvs = stored ckey wire_meta (m_pvs w), vss = stored nkey wire_meta (m_vss w)\<rparr>"

definition tick :: "mem \<Rightarrow> mem" where
  "tick w = w\<lparr>m_clock := Suc (m_clock w)\<rparr>"

definition fresh_version :: "mem \<Rightarrow> string" where
  "fresh_version w = Itoa (int (Suc (m_clock w)))"

text \<open>
  The operations of one kind: \<open>rd\<close> and \<open>wr\<close> access its list in the server. An update carrying a
  resource version must carry the current one; an empty one is not compared.
\<close>

definition mem_create ::
  "string \<Rightarrow> (mem \<Rightarrow> 'm ObjectMeta_scheme list) \<Rightarrow> (('m ObjectMeta_scheme list \<Rightarrow> 'm ObjectMeta_scheme list) \<Rightarrow> mem \<Rightarrow> mem) \<Rightarrow>
   ('m ObjectMeta_scheme \<Rightarrow> key) \<Rightarrow> ('m ObjectMeta_scheme \<Rightarrow> 'm ObjectMeta_scheme) \<Rightarrow>
   'm ObjectMeta_scheme \<Rightarrow> mem \<Rightarrow> (go_error option \<times> 'm ObjectMeta_scheme) \<times> mem" where
  "mem_create kind rd wr key wire x w =
    (if ''create '' @ kind \<in> set (m_fail w) then ((Some (StatusError ''InternalError'' kind), x), w)
     else if stored key wire (rd w) (key x) \<noteq> None then ((Some (StatusError ''AlreadyExists'' (Name x)), x), w)
     else (let y = (wire x)\<lparr>ResourceVersion := fresh_version w, DeletionTimestamp := None\<rparr>
           in ((None, y), tick (wr (set_at key (key x) (Some y)) w))))"

definition conflict :: "'m ObjectMeta_scheme \<Rightarrow> 'm ObjectMeta_scheme \<Rightarrow> bool" where
  "conflict x old \<longleftrightarrow> ResourceVersion x \<noteq> '''' \<and> ResourceVersion x \<noteq> ResourceVersion old"

definition mem_update ::
  "string \<Rightarrow> (mem \<Rightarrow> 'm ObjectMeta_scheme list) \<Rightarrow> (('m ObjectMeta_scheme list \<Rightarrow> 'm ObjectMeta_scheme list) \<Rightarrow> mem \<Rightarrow> mem) \<Rightarrow>
   ('m ObjectMeta_scheme \<Rightarrow> key) \<Rightarrow> ('m ObjectMeta_scheme \<Rightarrow> 'm ObjectMeta_scheme) \<Rightarrow>
   'm ObjectMeta_scheme \<Rightarrow> mem \<Rightarrow> (go_error option \<times> 'm ObjectMeta_scheme) \<times> mem" where
  "mem_update kind rd wr key wire x w =
    (if ''update '' @ kind \<in> set (m_fail w) then ((Some (StatusError ''InternalError'' kind), x), w)
     else case stored key wire (rd w) (key x) of
       None \<Rightarrow> ((Some (StatusError ''NotFound'' (Name x)), x), w)
     | Some old \<Rightarrow>
         if conflict x old then ((Some (StatusError ''Conflict'' (Name x)), x), w)
         else (let y = (wire x)\<lparr>ResourceVersion := fresh_version w, DeletionTimestamp := DeletionTimestamp old\<rparr>;
                   v = (if DeletionTimestamp old \<noteq> None \<and> fins y = [] then None else Some y)
               in ((None, y), tick (wr (set_at key (key x) v) w))))"

definition mem_delete ::
  "string \<Rightarrow> (mem \<Rightarrow> 'm ObjectMeta_scheme list) \<Rightarrow> (('m ObjectMeta_scheme list \<Rightarrow> 'm ObjectMeta_scheme list) \<Rightarrow> mem \<Rightarrow> mem) \<Rightarrow>
   ('m ObjectMeta_scheme \<Rightarrow> key) \<Rightarrow> ('m ObjectMeta_scheme \<Rightarrow> 'm ObjectMeta_scheme) \<Rightarrow>
   'm ObjectMeta_scheme \<Rightarrow> mem \<Rightarrow> go_error option \<times> mem" where
  "mem_delete kind rd wr key wire x w =
    (if ''delete '' @ kind \<in> set (m_fail w) then (Some (StatusError ''InternalError'' kind), w)
     else case stored key wire (rd w) (key x) of
       None \<Rightarrow> (Some (StatusError ''NotFound'' (Name x)), w)
     | Some old \<Rightarrow>
         (let v = (if fins old = [] then None else Some (old\<lparr>DeletionTimestamp := Some (int (m_clock w))\<rparr>))
          in (None, tick (wr (set_at key (key x) v) w))))"

definition mem_get ::
  "string \<Rightarrow> (mem \<Rightarrow> 'a list) \<Rightarrow> ('a \<Rightarrow> key) \<Rightarrow> ('a \<Rightarrow> 'a) \<Rightarrow> string \<Rightarrow> string \<Rightarrow> mem \<Rightarrow> (go_error + 'a) \<times> mem" where
  "mem_get kind rd key wire ns n w =
    (if ''get '' @ kind \<in> set (m_fail w) then (Inl (StatusError ''InternalError'' kind), w)
     else case stored key wire (rd w) (ns, n) of
       None \<Rightarrow> (Inl (StatusError ''NotFound'' n), w)
     | Some x \<Rightarrow> (Inr x, w))"

definition mem_list ::
  "string \<Rightarrow> (mem \<Rightarrow> 'm ObjectMeta_scheme list) \<Rightarrow> ('m ObjectMeta_scheme \<Rightarrow> key) \<Rightarrow>
   ('m ObjectMeta_scheme \<Rightarrow> 'm ObjectMeta_scheme) \<Rightarrow> ListOption list \<Rightarrow> mem \<Rightarrow>
   (go_error + 'm ObjectMeta_scheme list) \<times> mem" where
  "mem_list kind rd key wire opts w =
    (if ''list '' @ kind \<in> set (m_fail w) then (Inl (StatusError ''InternalError'' kind), w)
     else (Inr (filter (options_match opts) (map wire (uniq key (rd w)))), w))"

definition mem_kind ::
  "string \<Rightarrow> (mem \<Rightarrow> 'm ObjectMeta_scheme list) \<Rightarrow> (('m ObjectMeta_scheme list \<Rightarrow> 'm ObjectMeta_scheme list) \<Rightarrow> mem \<Rightarrow> mem) \<Rightarrow>
   ('m ObjectMeta_scheme \<Rightarrow> key) \<Rightarrow> ('m ObjectMeta_scheme \<Rightarrow> 'm ObjectMeta_scheme) \<Rightarrow>
   (mem, 'm ObjectMeta_scheme) kind_client" where
  "mem_kind kind rd wr key wire = \<lparr>Create = mem_create kind rd wr key wire,
     Update = mem_update kind rd wr key wire, StatusUpdate = mem_update kind rd wr key wire,
     Delete = mem_delete kind rd wr key wire, Get = mem_get kind rd key wire,
     List = mem_list kind rd key wire\<rparr>"

text \<open>The status subresource of an NFSStorageClass takes nothing but the status.\<close>

definition mem_status :: "NFSStorageClass \<Rightarrow> mem \<Rightarrow> (go_error option \<times> NFSStorageClass) \<times> mem" where
  "mem_status x w =
    (if ''status nsc'' \<in> set (m_fail w) then ((Some (StatusError ''InternalError'' ''nsc''), x), w)
     else case stored ckey wire_meta (m_nscs w) (ckey x) of
       None \<Rightarrow> ((Some (StatusError ''NotFound'' (Name x)), x), w)
     | Some old \<Rightarrow>
         if conflict x old then ((Some (StatusError ''Conflict'' (Name x)), x), w)
         else (let y = old\<lparr>Status := Status x, ResourceVersion := fresh_version w\<rparr>
               in ((None, y), tick (m_nscs_update (set_at ckey (ckey x) (Some y)) w))))"

fun mem_retry :: "nat \<Rightarrow> ('w \<Rightarrow> go_error option \<times> 'w) \<Rightarrow> 'w \<Rightarrow> go_error option \<times> 'w" where
  "mem_retry 0 f w = f w"
| "mem_retry (Suc n) f w =
    (case f w of
       (Some (StatusError reason msg), w') \<Rightarrow>
         if reason = ''Conflict'' then mem_retry n f w' else (Some (StatusError reason msg), w')
     | r \<Rightarrow> r)"

definition mem_client :: "mem client" where
  "mem_client = \<lparr>
     nsc_client = (mem_kind ''nsc'' m_nscs m_nscs_update ckey wire_meta)\<lparr>StatusUpdate := mem_status\<rparr>,
     sc_client = mem_kind ''sc'' m_scs m_scs_update ckey wire_sc,
     secret_client = mem_kind ''secret'' m_secrets m_secrets_update nkey wire_secret,
     vsc_client = mem_kind ''vsc'' m_vscs m_vscs_update ckey wire_vsclass,
     mc_client = mem_kind ''mc'' m_mcs m_mcs_update ckey wire_meta,
     node_client = mem_kind ''node'' m_nodes m_nodes_update ckey wire_meta,
     pod_client = mem_kind ''pod'' m_pods m_pods_update nkey wire_meta,
     ns_client = mem_kind ''ns'' m_nss m_nss_update ckey wire_meta,
     lease_client = mem_kind ''lease'' m_leases m_leases_update nkey wire_meta,
     pvc_client = mem_kind ''pvc'' m_pvcs m_pvcs_update nkey wire_meta,
     pv_client = mem_kind ''pv'' m_pvs m_pvs_update ckey wire_meta,
     vs_client = mem_kind ''vs'' m_vss m_vss_update nkey wire_meta,
     RetryOnConflict = mem_retry 5\<rparr>"

section \<open>The laws\<close>

locale mem_kind_setting =
  fixes kind :: string
    and rd :: "mem \<Rightarrow> 'm ObjectMeta_scheme list"
    and wr :: "('m ObjectMeta_scheme list \<Rightarrow> 'm ObjectMeta_scheme list) \<Rightarrow> mem \<Rightarrow> mem"
    and key :: "'m ObjectMeta_scheme \<Rightarrow> key"
    and wire :: "'m ObjectMeta_scheme \<Rightarrow> 'm ObjectMeta_scheme"
    and sel :: "cluster \<Rightarrow> 'm ObjectMeta_scheme store"
    and upd :: "('m ObjectMeta_scheme store \<Rightarrow> 'm ObjectMeta_scheme store) \<Rightarrow> cluster \<Rightarrow> cluster"
  assumes sel_upd: "sel (upd f c) = f (sel c)"
    and upd_upd: "upd f (upd g c) = upd (\<lambda>s. f (g s)) c"
    and upd_const: "upd f c = upd (\<lambda>_. f (sel c)) c"
    and upd_id: "upd (\<lambda>s. s) c = c"
    and sel_view: "sel (mem_view w) = stored key wire (rd w)"
    and view_wr: "mem_view (wr h w) = upd (\<lambda>_. stored key wire (h (rd w))) (mem_view w)"
    and key_wire: "key (wire x) = key x"
    and key_meta: "key (x\<lparr>ResourceVersion := rv, DeletionTimestamp := dt\<rparr>) = key x"
    and key_fins: "key (x\<lparr>Finalizers := fs\<rparr>) = key x"
    and wire_idem: "wire (wire x) = wire x"
    and wire_meta': "wire (x\<lparr>ResourceVersion := rv, DeletionTimestamp := dt\<rparr>) =
      (wire x)\<lparr>ResourceVersion := rv, DeletionTimestamp := dt\<rparr>"
    and wire_fins: "fins (wire x) = fins x"
begin

lemma view_tick: "mem_view (tick w) = mem_view w"
  by (simp add: mem_view_def tick_def)

lemma stored_key: "stored key wire xs k = Some x \<Longrightarrow> key x = k"
  by (auto simp: stored_def key_wire dest: find_SomeD)

lemma stored_idem: "stored key wire xs k = Some x \<Longrightarrow> wire x = x"
  by (auto simp: stored_def wire_idem)

lemma view_set:
  assumes "\<And>y. v = Some y \<Longrightarrow> key y = k \<and> wire y = y"
  shows "mem_view (tick (wr (set_at key k v) w)) = upd (\<lambda>s. s(k := v)) (mem_view w)"
proof -
  have "mem_view (tick (wr (set_at key k v) w)) = upd (\<lambda>_. (stored key wire (rd w))(k := v)) (mem_view w)"
    using stored_set_at [OF assms] by (simp add: view_tick view_wr)
  also have "\<dots> = upd (\<lambda>s. s(k := v)) (mem_view w)"
    using upd_const [of "\<lambda>s. s(k := v)" "mem_view w"] by (simp add: sel_view)
  finally show ?thesis .
qed

lemma view_same: "upd (\<lambda>s. s(k := sel (mem_view w) k)) (mem_view w) = mem_view w"
  using upd_const [of "\<lambda>s. s(k := sel (mem_view w) k)" "mem_view w"] upd_const [of "\<lambda>s. s" "mem_view w"]
  by (simp add: upd_id)

lemma frame:
  assumes "w' = w \<or> (\<exists>v. (\<forall>y. v = Some y \<longrightarrow> key y = k \<and> wire y = y) \<and> w' = tick (wr (set_at key k v) w))"
  shows "\<exists>v. mem_view w' = upd (\<lambda>s. s(k := v)) (mem_view w)"
  using assms view_same [of k w] view_set by metis

lemma create_result:
  assumes "mem_create kind rd wr key wire x w = ((e, x'), w')"
  obtains "e \<noteq> None" "w' = w"
  | "e = None" "stored key wire (rd w) (key x) = None" "key x' = key x" "wire x' = x'"
    "same_object (wire x) x'" "DeletionTimestamp x' = None"
    "w' = tick (wr (set_at key (key x) (Some x')) w)"
proof (cases "e = None")
  case True
  from assms True have none: "stored key wire (rd w) (key x) = None"
    and x': "x' = (wire x)\<lparr>ResourceVersion := fresh_version w, DeletionTimestamp := None\<rparr>"
    and w': "w' = tick (wr (set_at key (key x) (Some x')) w)"
    by (auto simp: mem_create_def Let_def split: if_splits)
  have "key x' = key x" "wire x' = x'" "same_object (wire x) x'" "DeletionTimestamp x' = None"
    by (simp_all add: x' key_meta key_wire wire_meta' wire_idem same_object_def)
  with True none w' that(2) show ?thesis by blast
next
  case False
  have "w' = w" using assms False by (auto simp: mem_create_def Let_def split: if_splits)
  with False that(1) show ?thesis by blast
qed

lemma update_result:
  assumes "mem_update kind rd wr key wire x w = ((e, x'), w')"
  obtains "e \<noteq> None" "w' = w" "x' = x"
  | old where "e = None" "stored key wire (rd w) (key x) = Some old" "key x' = key x" "wire x' = x'"
    "same_object (wire x) x'" "DeletionTimestamp x' = DeletionTimestamp old"
    "w' = tick (wr (set_at key (key x)
       (if DeletionTimestamp old \<noteq> None \<and> fins x' = [] then None else Some x')) w)"
proof (cases "e = None")
  case True
  with assms obtain old where old: "stored key wire (rd w) (key x) = Some old"
    by (auto simp: mem_update_def Let_def split: if_splits option.splits)
  from assms True old have x': "x' = (wire x)\<lparr>ResourceVersion := fresh_version w, DeletionTimestamp := DeletionTimestamp old\<rparr>"
    and w': "w' = tick (wr (set_at key (key x)
       (if DeletionTimestamp old \<noteq> None \<and> fins x' = [] then None else Some x')) w)"
    by (auto simp: mem_update_def Let_def split: if_splits)
  have "key x' = key x" "wire x' = x'" "same_object (wire x) x'" "DeletionTimestamp x' = DeletionTimestamp old"
    by (simp_all add: x' key_meta key_wire wire_meta' wire_idem same_object_def)
  with True old w' that(2) show ?thesis by blast
next
  case False
  have "w' = w \<and> x' = x"
    using assms False by (auto simp: mem_update_def Let_def split: if_splits option.splits)
  with False that(1) show ?thesis by blast
qed

lemma delete_result:
  assumes "mem_delete kind rd wr key wire x w = (e, w')"
  obtains "e \<noteq> None" "w' = w"
  | old v where "e = None" "stored key wire (rd w) (key x) = Some old"
    "v = (if fins old = [] then None else Some (old\<lparr>DeletionTimestamp := Some (int (m_clock w))\<rparr>))"
    "\<And>y. v = Some y \<Longrightarrow> key y = key x \<and> wire y = y"
    "w' = tick (wr (set_at key (key x) v) w)"
proof (cases "e = None")
  case True
  with assms obtain old where old: "stored key wire (rd w) (key x) = Some old"
    by (auto simp: mem_delete_def Let_def split: if_splits option.splits)
  let ?y = "old\<lparr>DeletionTimestamp := Some (int (m_clock w))\<rparr>"
  have "?y = old\<lparr>ResourceVersion := ResourceVersion old, DeletionTimestamp := Some (int (m_clock w))\<rparr>" by simp
  then have "key ?y = key x" "wire ?y = ?y"
    using key_meta wire_meta' stored_key [OF old] stored_idem [OF old] by metis+
  define v where "v = (if fins old = [] then None else Some ?y)"
  with assms True old have w': "w' = tick (wr (set_at key (key x) v) w)"
    by (simp add: mem_delete_def Let_def split: if_splits)
  have "key y = key x \<and> wire y = y" if "v = Some y" for y
    using that \<open>key ?y = key x\<close> \<open>wire ?y = ?y\<close> by (auto simp: v_def split: if_splits)
  with True old v_def w' that(2) show ?thesis by blast
next
  case False
  have "w' = w"
    using assms False by (auto simp: mem_delete_def Let_def split: if_splits option.splits)
  with False that(1) show ?thesis by blast
qed

lemma list_result:
  assumes "mem_list kind rd key wire opts w = (Inr xs, w')"
  shows "distinct (map key xs) \<and>
    (\<forall>x. x \<in> set xs \<longleftrightarrow> stored key wire (rd w) (key x) = Some x \<and> options_match opts x)"
proof -
  have xs: "xs = filter (options_match opts) (map wire (uniq key (rd w)))"
    using assms by (auto simp: mem_list_def split: if_splits)
  have "map key (map wire ys) = map key ys" for ys by (simp add: key_wire)
  then have "distinct (map key (map wire (uniq key (rd w))))" by (metis distinct_uniq)
  moreover have "x \<in> wire ` set (uniq key (rd w)) \<longleftrightarrow> stored key wire (rd w) (key x) = Some x" for x
  proof
    assume "x \<in> wire ` set (uniq key (rd w))"
    then show "stored key wire (rd w) (key x) = Some x" by (auto simp: set_uniq stored_def key_wire)
  next
    assume "stored key wire (rd w) (key x) = Some x"
    then obtain z where z: "find (\<lambda>y. key y = key x) (rd w) = Some z" "x = wire z"
      by (auto simp: stored_def)
    then have "z \<in> set (uniq key (rd w))" using set_uniq [of z key "rd w"] by (simp add: key_wire)
    with z show "x \<in> wire ` set (uniq key (rd w))" by blast
  qed
  ultimately show ?thesis unfolding xs by (auto simp: distinct_map_filter)
qed

lemma kind_laws_mem: "kind_laws (mem_kind kind rd wr key wire) mem_view sel upd key wire"
proof (unfold_locales, simp_all only: mem_kind_def kind_client.simps, goal_cases)
  case 1 show ?case by (rule sel_upd)
next
  case 2 show ?case by (rule upd_upd)
next
  case 3 show ?case by (rule key_fins)
next
  case 4 show ?case by (rule wire_fins)
next
  case (5 w k x) then show ?case by (simp add: sel_view stored_key)
next
  case (6 w k x) then show ?case by (simp add: sel_view stored_idem)
next
  case (7 x w x' w')
  from this show ?case
    by (rule create_result) (auto simp: sel_view intro!: exI [of _ x'] view_set)
next
  case (8 x w r w')
  obtain e x' where r: "r = (e, x')" by fastforce
  from 8 [unfolded r] show ?case
    by (rule create_result) (rule frame, blast)+
next
  case (9 x w x' w')
  from this show ?case
  proof (rule update_result)
    fix old
    assume *: "stored key wire (rd w) (key x) = Some old" "key x' = key x" "wire x' = x'"
      "same_object (wire x) x'" "DeletionTimestamp x' = DeletionTimestamp old"
      "w' = tick (wr (set_at key (key x)
        (if DeletionTimestamp old \<noteq> None \<and> fins x' = [] then None else Some x')) w)"
    show ?case
      unfolding *(6) by (rule exI [of _ old], subst view_set) (use * in \<open>auto simp: sel_view split: if_splits\<close>)
  qed simp
next
  case (10 x w r w')
  obtain e x' where r: "r = (e, x')" by fastforce
  from 10 [unfolded r] show ?case
  proof (rule update_result)
    fix old
    assume *: "key x' = key x" "wire x' = x'" and w': "w' = tick (wr (set_at key (key x)
        (if DeletionTimestamp old \<noteq> None \<and> fins x' = [] then None else Some x')) w)"
    show ?case
      by (rule frame, rule disjI2, rule exI, rule conjI [OF _ w']) (use * in \<open>simp split: if_splits\<close>)
  qed (use frame in blast)
next
  case (11 x w e x' w')
  then show ?case by (rule update_result) simp_all
next
  case (12 x w m x' w')
  then show ?case by (rule update_result) simp_all
next
  case (13 x w w')
  then show ?case
  proof (rule delete_result)
    fix old v
    assume *: "stored key wire (rd w) (key x) = Some old"
      "v = (if fins old = [] then None else Some (old\<lparr>DeletionTimestamp := Some (int (m_clock w))\<rparr>))"
      "\<And>y. v = Some y \<Longrightarrow> key y = key x \<and> wire y = y"
      "w' = tick (wr (set_at key (key x) v) w)"
    have "mem_view w' = upd (\<lambda>s. s(key x := v)) (mem_view w)"
      unfolding *(4) by (rule view_set) (rule *(3))
    moreover have "same_object old (old\<lparr>DeletionTimestamp := Some (int (m_clock w))\<rparr>)"
      by (simp add: same_object_def)
    ultimately show ?case using *(1,2)
      by (intro exI [of _ old]) (auto simp: sel_view)
  qed simp
next
  case (14 x w d w')
  then show ?case by (rule delete_result) (rule frame, blast)+
next
  case (15 ns n w gr w')
  then show ?case by (auto simp: mem_get_def split: if_splits option.splits)
next
  case (16 ns n w x w')
  then show ?case by (auto simp: mem_get_def sel_view split: if_splits option.splits)
next
  case (17 opts w lr w')
  then show ?case by (auto simp: mem_list_def split: if_splits)
next
  case (18 opts w xs w')
  then show ?case unfolding sel_view by (rule list_result)
qed

end

lemma omit_map_idem [simp]: "omit_map (omit_map m) = omit_map m"
  by (simp add: omit_map_def smap_of_def)

lemma omit_slice_idem [simp]: "omit_slice (omit_slice xs) = omit_slice xs"
  by (simp add: omit_slice_def slice_def)

lemma wire_secret_idem: "wire_secret (wire_secret x) = wire_secret x"
proof -
  have "omit_map (Some (smap_of (omit_map (Some m)) ++\<^sub>f fmempty)) = omit_map (Some m)" for m
    by (simp add: omit_map_def smap_of_def)
  then show ?thesis by (simp add: wire_secret_def wire_meta_def smap_of_def [of None])
qed

lemmas mem_setting_simps = mem_view_def ckey_def nkey_def wire_sc_def wire_vsclass_def wire_meta_def

interpretation mem_nsc: mem_kind_setting "''nsc''" m_nscs m_nscs_update ckey wire_meta nscs nscs_update
  by unfold_locales
    (simp_all add: mem_setting_simps fins_def omit_slice_def slice_def split: option.splits)

interpretation mem_sc: mem_kind_setting "''sc''" m_scs m_scs_update ckey wire_sc scs scs_update
  by unfold_locales
    (simp_all add: mem_setting_simps fins_def omit_slice_def slice_def split: option.splits)

interpretation mem_secret: mem_kind_setting "''secret''" m_secrets m_secrets_update nkey wire_secret secrets secrets_update
  by unfold_locales
    (simp_all add: wire_secret_idem, simp_all add: mem_setting_simps wire_secret_def fins_def omit_slice_def slice_def
      split: option.splits)

interpretation mem_vsc: mem_kind_setting "''vsc''" m_vscs m_vscs_update ckey wire_vsclass vscs vscs_update
  by unfold_locales
    (simp_all add: mem_setting_simps fins_def omit_slice_def slice_def split: option.splits)

interpretation mem_mc: mem_kind_setting "''mc''" m_mcs m_mcs_update ckey wire_meta mcs mcs_update
  by unfold_locales
    (simp_all add: mem_setting_simps fins_def omit_slice_def slice_def split: option.splits)

interpretation mem_node: mem_kind_setting "''node''" m_nodes m_nodes_update ckey wire_meta nodes nodes_update
  by unfold_locales
    (simp_all add: mem_setting_simps fins_def omit_slice_def slice_def split: option.splits)

interpretation mem_pod: mem_kind_setting "''pod''" m_pods m_pods_update nkey wire_meta pods pods_update
  by unfold_locales
    (simp_all add: mem_setting_simps fins_def omit_slice_def slice_def split: option.splits)

interpretation mem_ns: mem_kind_setting "''ns''" m_nss m_nss_update ckey wire_meta nss nss_update
  by unfold_locales
    (simp_all add: mem_setting_simps fins_def omit_slice_def slice_def split: option.splits)

interpretation mem_lease: mem_kind_setting "''lease''" m_leases m_leases_update nkey wire_meta leases leases_update
  by unfold_locales
    (simp_all add: mem_setting_simps fins_def omit_slice_def slice_def split: option.splits)

interpretation mem_pvc: mem_kind_setting "''pvc''" m_pvcs m_pvcs_update nkey wire_meta pvcs pvcs_update
  by unfold_locales
    (simp_all add: mem_setting_simps fins_def omit_slice_def slice_def split: option.splits)

interpretation mem_pv: mem_kind_setting "''pv''" m_pvs m_pvs_update ckey wire_meta pvs pvs_update
  by unfold_locales
    (simp_all add: mem_setting_simps fins_def omit_slice_def slice_def split: option.splits)

interpretation mem_vs: mem_kind_setting "''vs''" m_vss m_vss_update nkey wire_meta vss vss_update
  by unfold_locales
    (simp_all add: mem_setting_simps fins_def omit_slice_def slice_def split: option.splits)

lemma kind_laws_status:
  "kind_laws api v sel upd key wire \<Longrightarrow> kind_laws (api\<lparr>StatusUpdate := f\<rparr>) v sel upd key wire"
  by (simp add: kind_laws_def)

lemma retried_mem_retry: "mem_retry n f w = (r, w') \<Longrightarrow> retried f w r w'"
proof (induction n arbitrary: w)
  case 0
  then show ?case by (simp add: last_run)
next
  case (Suc n)
  obtain e w1 where f: "f w = (e, w1)" by fastforce
  show ?case
  proof (cases "\<exists>msg. e = Some (StatusError ''Conflict'' msg)")
    case True
    with f Suc.prems have "mem_retry n f w1 = (r, w')" by auto
    then have "retried f w1 r w'" by (rule Suc.IH)
    with f True show ?thesis by (blast intro: another_run)
  next
    case False
    then have "mem_retry (Suc n) f w = (e, w1)"
      using f by (cases e; cases "the e") auto
    with f Suc.prems show ?thesis by (simp add: last_run)
  qed
qed

lemma status_result:
  assumes "mem_status x w = ((e, x'), w')"
  obtains "e \<noteq> None" "w' = w" "x' = x"
  | old where "e = None" "nscs (mem_view w) (ckey x) = Some old"
    "same_object (old\<lparr>Status := Status x\<rparr>) x'" "DeletionTimestamp x' = DeletionTimestamp old"
    "ckey x' = ckey x" "mem_view w' = nscs_update (\<lambda>s. s(ckey x := Some x')) (mem_view w)"
proof (cases "e = None")
  case True
  with assms obtain old where old: "stored ckey wire_meta (m_nscs w) (ckey x) = Some old"
    by (auto simp: mem_status_def Let_def split: if_splits option.splits)
  from assms True old have x': "x' = old\<lparr>Status := Status x, ResourceVersion := fresh_version w\<rparr>"
    and w': "w' = tick (m_nscs_update (set_at ckey (ckey x) (Some x')) w)"
    by (auto simp: mem_status_def Let_def split: if_splits)
  have "ckey x' = ckey x" using mem_nsc.stored_key [OF old] by (simp add: x' ckey_def)
  moreover have "wire_meta x' = x'"
  proof -
    have "wire_meta (old\<lparr>Status := s, ResourceVersion := rv\<rparr>) = (wire_meta old)\<lparr>Status := s, ResourceVersion := rv\<rparr>" for s rv
      by (simp add: wire_meta_def)
    then show ?thesis using mem_nsc.stored_idem [OF old] by (simp add: x')
  qed
  ultimately have "mem_view w' = nscs_update (\<lambda>s. s(ckey x := Some x')) (mem_view w)"
    unfolding w' by (intro mem_nsc.view_set) simp
  moreover have "same_object (old\<lparr>Status := Status x\<rparr>) x'" "DeletionTimestamp x' = DeletionTimestamp old"
    by (simp_all add: x' same_object_def)
  moreover have "nscs (mem_view w) (ckey x) = Some old" using old by (simp add: mem_view_def)
  ultimately show ?thesis using True \<open>ckey x' = ckey x\<close> that(2) by blast
next
  case False
  have "w' = w \<and> x' = x"
    using assms False by (auto simp: mem_status_def Let_def split: if_splits option.splits)
  with False that(1) show ?thesis by blast
qed

interpretation mem: kube_laws mem_client mem_view
proof (rule kube_laws.intro)
  show "kind_laws (nsc_client mem_client) mem_view nscs nscs_update ckey wire_meta"
    by (simp add: mem_client_def kind_laws_status [OF mem_nsc.kind_laws_mem])
  show "kind_laws (sc_client mem_client) mem_view scs scs_update ckey wire_sc"
    by (simp add: mem_client_def mem_sc.kind_laws_mem)
  show "kind_laws (secret_client mem_client) mem_view secrets secrets_update nkey wire_secret"
    by (simp add: mem_client_def mem_secret.kind_laws_mem)
  show "kind_laws (vsc_client mem_client) mem_view vscs vscs_update ckey wire_vsclass"
    by (simp add: mem_client_def mem_vsc.kind_laws_mem)
  show "kind_laws (mc_client mem_client) mem_view mcs mcs_update ckey wire_meta"
    by (simp add: mem_client_def mem_mc.kind_laws_mem)
  show "kind_laws (node_client mem_client) mem_view nodes nodes_update ckey wire_meta"
    by (simp add: mem_client_def mem_node.kind_laws_mem)
  show "kind_laws (pod_client mem_client) mem_view pods pods_update nkey wire_meta"
    by (simp add: mem_client_def mem_pod.kind_laws_mem)
  show "kind_laws (ns_client mem_client) mem_view nss nss_update ckey wire_meta"
    by (simp add: mem_client_def mem_ns.kind_laws_mem)
  show "kind_laws (lease_client mem_client) mem_view leases leases_update nkey wire_meta"
    by (simp add: mem_client_def mem_lease.kind_laws_mem)
  show "kind_laws (pvc_client mem_client) mem_view pvcs pvcs_update nkey wire_meta"
    by (simp add: mem_client_def mem_pvc.kind_laws_mem)
  show "kind_laws (pv_client mem_client) mem_view pvs pvs_update ckey wire_meta"
    by (simp add: mem_client_def mem_pv.kind_laws_mem)
  show "kind_laws (vs_client mem_client) mem_view vss vss_update nkey wire_meta"
    by (simp add: mem_client_def mem_vs.kind_laws_mem)
next
  fix x w x' w'
  assume "StatusUpdate (nsc_client mem_client) x w = ((None, x'), w')"
  then have "mem_status x w = ((None, x'), w')" by (simp add: mem_client_def)
  then show "\<exists>old. nscs (mem_view w) (ckey x) = Some old \<and> same_object (old\<lparr>Status := Status x\<rparr>) x' \<and>
      DeletionTimestamp x' = DeletionTimestamp old \<and>
      mem_view w' = nscs_update (\<lambda>s. s(ckey x := Some x')) (mem_view w)"
    by (rule status_result) auto
next
  fix x w r w'
  assume "StatusUpdate (nsc_client mem_client) x w = (r, w')"
  moreover obtain e x' where "r = (e, x')" by fastforce
  ultimately have "mem_status x w = ((e, x'), w')" by (simp add: mem_client_def)
  then show "\<exists>v. mem_view w' = nscs_update (\<lambda>s. s(ckey x := v)) (mem_view w)"
    by (rule status_result) (use mem_nsc.view_same in \<open>metis\<close>, blast)
next
  fix x w e x' w'
  assume "StatusUpdate (nsc_client mem_client) x w = ((e, x'), w')"
  then have "mem_status x w = ((e, x'), w')" by (simp add: mem_client_def)
  then show "ckey x' = ckey x" by (rule status_result) simp_all
next
  fix f w res w'
  assume "RetryOnConflict mem_client f w = (res, w')"
  then show "retried f w res w'" by (simp add: mem_client_def retried_mem_retry)
qed

end
