(* ===== verification/API_Available.thy ===== *)
theory API_Available
  imports Memory_API
begin

text \<open>
  When calls succeed: while the API server is \<open>up\<close>, it answers every read of something that exists, and carries out every write
  that respects its rules. \<open>kube_laws\<close> says what a successful call does; the locales here say when it is successful, and the API server in
  memory is an instance as long as it injects no failure.

  \<open>accepts old x\<close> is the validation of an update: the resource version, which only built-in kinds may leave out, and the
  fields that a kind does not let change. No update may add a finalizer to an object that is being deleted.
\<close>

section \<open>One kind\<close>

locale available_kind =
  fixes api :: "('w, 'm ObjectMeta_scheme) kind_client"
    and view :: "'w \<Rightarrow> cluster"
    and sel :: "cluster \<Rightarrow> 'm ObjectMeta_scheme store"
    and key :: "'m ObjectMeta_scheme \<Rightarrow> key"
    and accepts :: "'m ObjectMeta_scheme \<Rightarrow> 'm ObjectMeta_scheme \<Rightarrow> bool"
    and up :: "'w \<Rightarrow> bool"
  assumes create_up: "up w \<Longrightarrow> sel (view w) (key x) = None \<Longrightarrow> \<exists>x' w'. Create api x w = ((None, x'), w') \<and> up w'"
    and update_up: "up w \<Longrightarrow> sel (view w) (key x) = Some old \<Longrightarrow> accepts old x \<Longrightarrow>
      DeletionTimestamp old = None \<or> set (fins x) \<subseteq> set (fins old) \<Longrightarrow>
      \<exists>x' w'. Update api x w = ((None, x'), w') \<and> up w'"
    and delete_up: "up w \<Longrightarrow> sel (view w) (key x) \<noteq> None \<Longrightarrow> \<exists>w'. Delete api x w = (None, w') \<and> up w'"
    and get_up: "up w \<Longrightarrow> sel (view w) (ns, n) = Some x \<Longrightarrow> \<exists>w'. Get api ns n w = (Inr x, w') \<and> up w'"
    and list_up: "up w \<Longrightarrow> \<exists>xs w'. List api opts w = (Inr xs, w') \<and> up w'"

section \<open>The rules of the kinds\<close>

definition current :: "'m ObjectMeta_scheme \<Rightarrow> 'm ObjectMeta_scheme \<Rightarrow> bool" where
  "current old x \<longleftrightarrow> ResourceVersion x = ResourceVersion old"

definition current_or_none :: "'m ObjectMeta_scheme \<Rightarrow> 'm ObjectMeta_scheme \<Rightarrow> bool" where
  "current_or_none old x \<longleftrightarrow> ResourceVersion x \<in> {'''', ResourceVersion old}"

text \<open>\<open>ValidateStorageClassUpdate\<close> of the API server: the provisioner, the parameters, the reclaim policy and the binding mode are
  immutable.\<close>

definition sc_accepts :: "StorageClass \<Rightarrow> StorageClass \<Rightarrow> bool" where
  "sc_accepts old x \<longleftrightarrow> current_or_none old x \<and> Provisioner x = Provisioner old \<and> Parameters x = Parameters old \<and>
     ReclaimPolicy old \<in> {None, ReclaimPolicy x} \<and> VolumeBindingMode old \<in> {None, VolumeBindingMode x}"

locale available = kube_laws cl view for cl :: "'w client" and view :: "'w \<Rightarrow> cluster" +
  fixes up :: "'w \<Rightarrow> bool"
  assumes nsc_up: "available_kind (nsc_client cl) view nscs ckey current up"
    and sc_up: "available_kind (sc_client cl) view scs ckey sc_accepts up"
    and secret_up: "available_kind (secret_client cl) view secrets nkey current_or_none up"
    and vsc_up: "available_kind (vsc_client cl) view vscs ckey current up"
    and mc_up: "available_kind (mc_client cl) view mcs ckey current up"
    and status_up: "up w \<Longrightarrow> nscs (view w) (ckey x) = Some old \<Longrightarrow> current old x \<Longrightarrow>
      \<exists>x' w'. StatusUpdate (nsc_client cl) x w = ((None, x'), w') \<and> up w'"

sublocale available \<subseteq> nscu: available_kind "nsc_client cl" view nscs ckey current up by (rule nsc_up)
sublocale available \<subseteq> scu: available_kind "sc_client cl" view scs ckey sc_accepts up by (rule sc_up)
sublocale available \<subseteq> secretu: available_kind "secret_client cl" view secrets nkey current_or_none up by (rule secret_up)
sublocale available \<subseteq> vscu: available_kind "vsc_client cl" view vscs ckey current up by (rule vsc_up)
sublocale available \<subseteq> mcu: available_kind "mc_client cl" view mcs ckey current up by (rule mc_up)

section \<open>The server in memory\<close>

definition mem_up :: "mem \<Rightarrow> bool" where
  "mem_up w \<longleftrightarrow> m_fail w = []"

locale mem_kind_up = mem_kind_setting +
  assumes fail_wr: "m_fail (wr h w) = m_fail w"
begin

lemma mem_available:
  assumes acc: "\<And>old x. accepts old x \<Longrightarrow> current_or_none old x"
  shows "available_kind (mem_kind kind rd wr key wire) mem_view sel key accepts mem_up"
proof
  fix w x
  assume "mem_up w" "sel (mem_view w) (key x) = None"
  then show "\<exists>x' w'. Create (mem_kind kind rd wr key wire) x w = ((None, x'), w') \<and> mem_up w'"
    by (simp add: mem_kind_def mem_create_def mem_up_def sel_view Let_def tick_def fail_wr)
next
  fix w x old
  assume "mem_up w" "sel (mem_view w) (key x) = Some old" "accepts old x"
    "DeletionTimestamp old = None \<or> set (fins x) \<subseteq> set (fins old)"
  then show "\<exists>x' w'. Update (mem_kind kind rd wr key wire) x w = ((None, x'), w') \<and> mem_up w'"
    using acc [of old x]
    by (auto simp: mem_kind_def mem_update_def mem_up_def sel_view Let_def tick_def fail_wr conflict_def current_or_none_def)
next
  fix w x
  assume "mem_up w" "sel (mem_view w) (key x) \<noteq> None"
  then show "\<exists>w'. Delete (mem_kind kind rd wr key wire) x w = (None, w') \<and> mem_up w'"
    by (auto simp: mem_kind_def mem_delete_def mem_up_def sel_view Let_def tick_def fail_wr)
next
  fix w ns n x
  assume "mem_up w" "sel (mem_view w) (ns, n) = Some x"
  then show "\<exists>w'. Get (mem_kind kind rd wr key wire) ns n w = (Inr x, w') \<and> mem_up w'"
    by (simp add: mem_kind_def mem_get_def mem_up_def sel_view)
next
  fix w opts
  assume "mem_up w"
  then show "\<exists>xs w'. List (mem_kind kind rd wr key wire) opts w = (Inr xs, w') \<and> mem_up w'"
    by (simp add: mem_kind_def mem_list_def mem_up_def)
qed

end

interpretation mem_nsc_up: mem_kind_up "''nsc''" m_nscs m_nscs_update ckey wire_meta nscs nscs_update
  by unfold_locales simp

interpretation mem_sc_up: mem_kind_up "''sc''" m_scs m_scs_update ckey wire_sc scs scs_update
  by unfold_locales simp

interpretation mem_secret_up: mem_kind_up "''secret''" m_secrets m_secrets_update nkey wire_secret secrets secrets_update
  by unfold_locales simp

interpretation mem_vsc_up: mem_kind_up "''vsc''" m_vscs m_vscs_update ckey wire_vsclass vscs vscs_update
  by unfold_locales simp

interpretation mem_mc_up: mem_kind_up "''mc''" m_mcs m_mcs_update ckey wire_meta mcs mcs_update
  by unfold_locales simp

lemma available_status:
  "available_kind api v sel key accepts up \<Longrightarrow> available_kind (api\<lparr>StatusUpdate := f\<rparr>) v sel key accepts up"
  by (simp add: available_kind_def)

lemma current_imp: "current old x \<Longrightarrow> current_or_none old x"
  by (simp add: current_def current_or_none_def)

lemma sc_accepts_imp: "sc_accepts old x \<Longrightarrow> current_or_none old x"
  by (simp add: sc_accepts_def)

interpretation mem_available: available mem_client mem_view mem_up
proof (intro available.intro available_axioms.intro)
  show "kube_laws mem_client mem_view" by (rule mem.kube_laws_axioms)
  show "available_kind (nsc_client mem_client) mem_view nscs ckey current mem_up"
    using available_status [OF mem_nsc_up.mem_available [OF current_imp]] by (simp add: mem_client_def)
  show "available_kind (sc_client mem_client) mem_view scs ckey sc_accepts mem_up"
    using mem_sc_up.mem_available [OF sc_accepts_imp] by (simp add: mem_client_def)
  show "available_kind (secret_client mem_client) mem_view secrets nkey current_or_none mem_up"
    using mem_secret_up.mem_available [of current_or_none] by (simp add: mem_client_def)
  show "available_kind (vsc_client mem_client) mem_view vscs ckey current mem_up"
    using mem_vsc_up.mem_available [OF current_imp] by (simp add: mem_client_def)
  show "available_kind (mc_client mem_client) mem_view mcs ckey current mem_up"
    using mem_mc_up.mem_available [OF current_imp] by (simp add: mem_client_def)
next
  fix w x old
  assume "mem_up w" "nscs (mem_view w) (ckey x) = Some old" "current old x"
  then show "\<exists>x' w'. StatusUpdate (nsc_client mem_client) x w = ((None, x'), w') \<and> mem_up w'"
    by (auto simp: mem_client_def mem_status_def mem_up_def mem_view_def conflict_def current_def Let_def tick_def)
qed

end
