(* ===== verification/Samples.thy ===== *)
theory Samples
  imports Kube_Client
begin

text \<open>
  Concrete objects used by the witnesses of the development: one well-formed NFSStorageClass, the
  objects around it and a ModuleConfig. They model no code.
\<close>

definition sample_connection :: NFSStorageClassConnection where
  "sample_connection = \<lparr>Host = ''10.0.0.1'', Share = ''/export'', NFSVersion = ''4.2'', Tls = False, Mtls = False\<rparr>"

definition sample_spec :: NFSStorageClassSpec where
  "sample_spec = \<lparr>Connection = Some sample_connection, SpecMountOptions = None, ChmodPermissions = '''',
     SpecReclaimPolicy = ''Delete'', SpecVolumeBindingMode = ''Immediate'', WorkloadNodes = None,
     VolumeCleanup = ''''\<rparr>"

definition sample_nsc :: NFSStorageClass where
  "sample_nsc = \<lparr>Name = ''nfs'', Namespace = '''', Labels = None, Annotations = None,
     Finalizers = None, ResourceVersion = ''1'', DeletionTimestamp = None, ManagedFields = None,
     OtherMeta = '''', Spec = sample_spec, Status = None\<rparr>"

definition sample_mc :: ModuleConfig where
  "sample_mc = \<lparr>Name = ''csi-nfs'', Namespace = '''', Labels = None, Annotations = None,
     Finalizers = None, ResourceVersion = ''1'', DeletionTimestamp = None, ManagedFields = None,
     OtherMeta = '''', Settings = [], MCSpecRest = ''''\<rparr>"

definition sample_secret :: "string \<Rightarrow> smap option \<Rightarrow> Secret" where
  "sample_secret name labels = \<lparr>Name = name, Namespace = ''d8-csi-nfs'', Labels = labels, Annotations = None,
     Finalizers = None, ResourceVersion = ''1'', DeletionTimestamp = None, ManagedFields = None,
     OtherMeta = '''', SecretTypeMeta = \<lparr>Kind = ''Secret'', APIVersion = ''v1''\<rparr>,
     Data = None, StringData = None\<rparr>"

lemmas sample_defs = sample_connection_def sample_spec_def sample_nsc_def sample_mc_def sample_secret_def

end
