(* ===== verification/Validating.thy ===== *)
theory Validating
  imports Samples
begin

text \<open>
  The code shared by the controller and the webhooks: \<open>lib/go/common/pkg/feature\<close> (which features
  an edition has, chosen by build tags) and \<open>lib/go/common/pkg/validating/validator.go\<close>.

  The outer \<open>option\<close> of \<open>ValidateNFSStorageClass\<close> is the panic of a nil \<open>Connection\<close> or of a failed
  type assertion; the inner one is the returned \<open>error\<close>. The lemmas characterise when it panics and
  when it accepts, and relate it to the abstract rule \<open>tls_configured\<close>.
\<close>

section \<open>Features\<close>

datatype edition = CE | SE | SEPLUS | EE | CSEPRO

fun tlsEnabled :: "edition \<Rightarrow> bool" where
  "tlsEnabled CE = False"
| "tlsEnabled SE = True"
| "tlsEnabled SEPLUS = True"
| "tlsEnabled EE = True"
| "tlsEnabled CSEPRO = True"

fun volumeCleanupEnabled :: "edition \<Rightarrow> bool" where
  "volumeCleanupEnabled CE = False"
| "volumeCleanupEnabled SE = False"
| "volumeCleanupEnabled SEPLUS = False"
| "volumeCleanupEnabled EE = True"
| "volumeCleanupEnabled CSEPRO = True"

definition TLSEnabled :: "edition \<Rightarrow> bool" where
  "TLSEnabled ed = tlsEnabled ed"

definition VolumeCleanupEnabled :: "edition \<Rightarrow> bool" where
  "VolumeCleanupEnabled ed = volumeCleanupEnabled ed"

section \<open>Validation of an NFSStorageClass against the ModuleConfig\<close>

definition logPostfix :: string where
  "logPostfix = ''Such a combination of parameters is not allowed''"

definition mismatch :: "ModuleConfig \<Rightarrow> NFSStorageClass \<Rightarrow> string \<Rightarrow> string \<Rightarrow> go_error" where
  "mismatch mc nsc what why = ErrorString
     (''ModuleConfig: '' @ Name mc @ '' ('' @ what @ ''); NFSStorageClass: '' @ Name nsc @
      '' ('' @ why @ ''); '' @ logPostfix)"

fun as_map :: "any \<Rightarrow> (string \<times> any) list option" where
  "as_map (AnyMap m) = Some m"
| "as_map _ = None"

fun as_string :: "any \<Rightarrow> string option" where
  "as_string (AnyString s) = Some s"
| "as_string _ = None"

text \<open>\<open>value, ok := m[k]; !ok || len(value.(string)) == 0\<close>: the assertion panics on a non-string.\<close>

definition missing_or_empty :: "(string \<times> any) list \<Rightarrow> string \<Rightarrow> bool option" where
  "missing_or_empty m k = (case map_of m k of
      None \<Rightarrow> Some True
    | Some v \<Rightarrow> do { s \<leftarrow> as_string v; Some (s = []) })"

definition validate_v3 :: "ModuleConfig \<Rightarrow> NFSStorageClassConnection \<Rightarrow> NFSStorageClass \<Rightarrow> go_error option" where
  "validate_v3 mc c nsc =
     (if NFSVersion c = ''3'' then
        (case map_of (Settings mc) ''v3support'' of
           None \<Rightarrow> Some (mismatch mc nsc ''the v3support parameter is missing'' ''nfsVersion is set to 3'')
         | Some value \<Rightarrow>
             if value = AnyBool False
             then Some (mismatch mc nsc ''the v3support parameter is disabled'' ''nfsVersion is set to 3'')
             else None)
      else None)"

definition validate_mtls :: "ModuleConfig \<Rightarrow> (string \<times> any) list \<Rightarrow> NFSStorageClass \<Rightarrow> go_error option option" where
  "validate_mtls mc tlsParameters nsc =
     (case map_of tlsParameters ''mtls'' of
        None \<Rightarrow> Some (Some (mismatch mc nsc ''the tlsParameters.mtls parameter is missing'' ''mtls is enabled''))
      | Some value \<Rightarrow> do {
          mtls \<leftarrow> as_map value;
          noCert \<leftarrow> missing_or_empty mtls ''clientCert'';
          if noCert
          then Some (Some (mismatch mc nsc
            ''the tlsParameters.mtls.clientCert parameter is either missing or has a zero length'' ''mtls is enabled''))
          else do {
            noKey \<leftarrow> missing_or_empty mtls ''clientKey'';
            if noKey
            then Some (Some (mismatch mc nsc
              ''the tlsParameters.mtls.clientKey parameter is either missing or has a zero length'' ''mtls is enabled''))
            else Some None
          }
        })"

definition validate_tls :: "ModuleConfig \<Rightarrow> NFSStorageClassConnection \<Rightarrow> NFSStorageClass \<Rightarrow> go_error option option" where
  "validate_tls mc c nsc =
     (if Tls c \<or> Mtls c then
        (case map_of (Settings mc) ''tlsParameters'' of
           None \<Rightarrow> Some (Some (mismatch mc nsc ''the tlsParameters parameter is missing'' ''tls or mtls is enabled''))
         | Some value \<Rightarrow> do {
             tlsParameters \<leftarrow> as_map value;
             noCa \<leftarrow> missing_or_empty tlsParameters ''ca'';
             if noCa
             then Some (Some (mismatch mc nsc
               ''the tlsParameters.ca parameter is either missing or has a zero length'' ''tls or mtls is enabled''))
             else if Mtls c then validate_mtls mc tlsParameters nsc
             else Some None
           })
      else Some None)"

definition ValidateNFSStorageClass :: "edition \<Rightarrow> ModuleConfig \<Rightarrow> NFSStorageClass \<Rightarrow> go_error option option" where
  "ValidateNFSStorageClass ed mc nsc = do {
     c \<leftarrow> Connection (Spec nsc);
     (case validate_v3 mc c nsc of
        Some e \<Rightarrow> Some (Some e)
      | None \<Rightarrow>
          if TLSEnabled ed then validate_tls mc c nsc
          else if Tls c \<or> Mtls c \<or> map_of (Settings mc) ''tlsParameters'' \<noteq> None
          then Some (Some (ErrorString
            ''RPC-with-TLS related parameters are not allowed because the TLS feature is not available in your edition''))
          else Some None)
   }"

section \<open>The abstract rule\<close>

definition nonempty_string :: "(string \<times> any) list \<Rightarrow> string \<Rightarrow> bool" where
  "nonempty_string m k \<longleftrightarrow> (\<exists>s. map_of m k = Some (AnyString s) \<and> s \<noteq> [])"

definition v3_allowed :: "ModuleConfig \<Rightarrow> bool" where
  "v3_allowed mc \<longleftrightarrow> map_of (Settings mc) ''v3support'' \<notin> {None, Some (AnyBool False)}"

definition tls_configured :: "ModuleConfig \<Rightarrow> bool \<Rightarrow> bool" where
  "tls_configured mc mtls \<longleftrightarrow> (\<exists>p. map_of (Settings mc) ''tlsParameters'' = Some (AnyMap p) \<and>
     nonempty_string p ''ca'' \<and>
     (mtls \<longrightarrow> (\<exists>q. map_of p ''mtls'' = Some (AnyMap q) \<and>
        nonempty_string q ''clientCert'' \<and> nonempty_string q ''clientKey'')))"

definition admissible :: "edition \<Rightarrow> ModuleConfig \<Rightarrow> NFSStorageClassConnection \<Rightarrow> bool" where
  "admissible ed mc c \<longleftrightarrow>
     (NFSVersion c = ''3'' \<longrightarrow> v3_allowed mc) \<and>
     (if TLSEnabled ed then Tls c \<or> Mtls c \<longrightarrow> tls_configured mc (Mtls c)
      else \<not> Tls c \<and> \<not> Mtls c \<and> map_of (Settings mc) ''tlsParameters'' = None)"

text \<open>
  A ModuleConfig whose TLS settings have the types its OpenAPI schema prescribes
  (\<open>openapi/config-values.yaml\<close>): objects where the code asserts \<open>map[string]any\<close>, strings where it
  asserts \<open>string\<close>.
\<close>

fun string_or_absent :: "any option \<Rightarrow> bool" where
  "string_or_absent None = True"
| "string_or_absent (Some v) = (as_string v \<noteq> None)"

definition mtls_typed :: "(string \<times> any) list \<Rightarrow> bool" where
  "mtls_typed p = (case map_of p ''mtls'' of
      None \<Rightarrow> True
    | Some (AnyMap q) \<Rightarrow> string_or_absent (map_of q ''clientCert'') \<and> string_or_absent (map_of q ''clientKey'')
    | Some _ \<Rightarrow> False)"

definition settings_typed :: "ModuleConfig \<Rightarrow> bool" where
  "settings_typed mc = (case map_of (Settings mc) ''tlsParameters'' of
      None \<Rightarrow> True
    | Some (AnyMap p) \<Rightarrow> string_or_absent (map_of p ''ca'') \<and> mtls_typed p
    | Some _ \<Rightarrow> False)"

section \<open>Facts\<close>

lemma as_map_Some [simp]: "as_map v = Some m \<longleftrightarrow> v = AnyMap m"
  by (cases v) auto

lemma as_string_Some [simp]: "as_string v = Some s \<longleftrightarrow> v = AnyString s"
  by (cases v) auto

lemma missing_or_empty_False: "missing_or_empty m k = Some False \<longleftrightarrow> nonempty_string m k"
  by (auto simp: missing_or_empty_def nonempty_string_def bind_eq_Some_conv split: option.splits)

lemma missing_or_empty_typed: "missing_or_empty m k \<noteq> None \<longleftrightarrow> string_or_absent (map_of m k)"
proof (cases "map_of m k")
  case (Some v)
  then show ?thesis by (cases "as_string v") (auto simp: missing_or_empty_def)
qed (simp add: missing_or_empty_def)

lemma validate_v3_None: "validate_v3 mc c nsc = None \<longleftrightarrow> (NFSVersion c = ''3'' \<longrightarrow> v3_allowed mc)"
  by (auto simp: validate_v3_def v3_allowed_def split: option.splits)

lemma bind_bool_Some_None:
  "(do { b \<leftarrow> m; if b then Some (Some e) else f }) = Some None \<longleftrightarrow> m = Some False \<and> f = Some None"
  by (cases m) auto

lemma validate_mtls_ok:
  "validate_mtls mc p nsc = Some None \<longleftrightarrow>
    (\<exists>q. map_of p ''mtls'' = Some (AnyMap q) \<and>
       nonempty_string q ''clientCert'' \<and> nonempty_string q ''clientKey'')"
  by (auto simp: validate_mtls_def bind_bool_Some_None missing_or_empty_False bind_eq_Some_conv
      split: option.splits)

lemma validate_tls_ok:
  "validate_tls mc c nsc = Some None \<longleftrightarrow> (Tls c \<or> Mtls c \<longrightarrow> tls_configured mc (Mtls c))"
  by (auto simp: validate_tls_def tls_configured_def bind_bool_Some_None missing_or_empty_False
      validate_mtls_ok bind_eq_Some_conv split: option.splits)

lemma validate_accepts_iff:
  assumes "Connection (Spec nsc) = Some c"
  shows "ValidateNFSStorageClass ed mc nsc = Some None \<longleftrightarrow> admissible ed mc c"
proof (cases "validate_v3 mc c nsc")
  case None
  with validate_v3_None have "NFSVersion c = ''3'' \<longrightarrow> v3_allowed mc" by metis
  with None assms show ?thesis
    by (simp add: ValidateNFSStorageClass_def admissible_def validate_tls_ok)
next
  case (Some e)
  then have "\<not> (NFSVersion c = ''3'' \<longrightarrow> v3_allowed mc)"
    using validate_v3_None [of mc c nsc] by simp
  with Some assms show ?thesis
    by (simp add: ValidateNFSStorageClass_def admissible_def)
qed

lemma validate_mtls_typed:
  assumes "mtls_typed p"
  shows "validate_mtls mc p nsc \<noteq> None"
proof (cases "map_of p ''mtls''")
  case (Some v)
  with assms obtain q where "v = AnyMap q" and "string_or_absent (map_of q ''clientCert'')"
    and "string_or_absent (map_of q ''clientKey'')"
    by (auto simp: mtls_typed_def split: any.splits)
  with Some show ?thesis
    by (auto simp: validate_mtls_def simp flip: missing_or_empty_typed)
qed (simp add: validate_mtls_def)

lemma validate_tls_typed:
  assumes "settings_typed mc"
  shows "validate_tls mc c nsc \<noteq> None"
proof (cases "map_of (Settings mc) ''tlsParameters''")
  case (Some v)
  with assms obtain p where "v = AnyMap p" and "string_or_absent (map_of p ''ca'')"
    and "mtls_typed p"
    by (auto simp: settings_typed_def split: any.splits)
  with Some show ?thesis using validate_mtls_typed [of p mc nsc]
    by (auto simp: validate_tls_def simp flip: missing_or_empty_typed)
qed (simp add: validate_tls_def)

lemma validate_no_panic:
  assumes "Connection (Spec nsc) \<noteq> None" and "settings_typed mc"
  shows "ValidateNFSStorageClass ed mc nsc \<noteq> None"
  using assms validate_tls_typed
  by (auto simp: ValidateNFSStorageClass_def split: option.splits)

lemma validate_nil_connection:
  "Connection (Spec nsc) = None \<Longrightarrow> ValidateNFSStorageClass ed mc nsc = None"
  by (simp add: ValidateNFSStorageClass_def)

section \<open>Properties\<close>

text \<open>C27: For an NFSStorageClass with a connection and a ModuleConfig with well-typed TLS settings the
  validator never panics, and it accepts exactly the admissible combinations: NFSv3 only with
  \<open>v3support\<close> on; in editions with TLS, \<open>tls\<close> and \<open>mtls\<close> only with a CA, and with a client certificate
  and key for \<open>mtls\<close>; in editions without TLS, no TLS setting on either side.\<close>

theorem validation_decides:
  assumes "Connection (Spec nsc) = Some c" and "settings_typed mc"
  shows "\<exists>verdict. ValidateNFSStorageClass ed mc nsc = Some verdict \<and> (verdict = None \<longleftrightarrow> admissible ed mc c)"
  using validate_no_panic [of nsc mc ed] validate_accepts_iff [OF assms(1), of ed mc] assms by auto

theorem validation_decides_witness:
  "(\<exists>e. ValidateNFSStorageClass EE sample_mc
      (sample_nsc\<lparr>Spec := sample_spec\<lparr>Connection := Some (sample_connection\<lparr>Mtls := True\<rparr>)\<rparr>\<rparr>) = Some (Some e)) \<and>
   ValidateNFSStorageClass EE
     (sample_mc\<lparr>Settings := [(''tlsParameters'', AnyMap [(''ca'', AnyString ''c''),
        (''mtls'', AnyMap [(''clientCert'', AnyString ''x''), (''clientKey'', AnyString ''y'')])])]\<rparr>)
     (sample_nsc\<lparr>Spec := sample_spec\<lparr>Connection := Some (sample_connection\<lparr>Mtls := True\<rparr>)\<rparr>\<rparr>) = Some None"
proof -
  let ?c = "sample_connection\<lparr>Mtls := True\<rparr>"
  let ?nsc = "sample_nsc\<lparr>Spec := sample_spec\<lparr>Connection := Some ?c\<rparr>\<rparr>"
  let ?mc = "sample_mc\<lparr>Settings := [(''tlsParameters'', AnyMap [(''ca'', AnyString ''c''),
        (''mtls'', AnyMap [(''clientCert'', AnyString ''x''), (''clientKey'', AnyString ''y'')])])]\<rparr>"
  have c: "Connection (Spec ?nsc) = Some ?c" by simp
  have "settings_typed sample_mc" "settings_typed ?mc"
    by (simp_all add: settings_typed_def mtls_typed_def sample_mc_def)
  moreover have "\<not> admissible EE sample_mc ?c" "admissible EE ?mc ?c"
    by (simp_all add: admissible_def tls_configured_def nonempty_string_def TLSEnabled_def sample_defs)
  ultimately show ?thesis
    using validation_decides [OF c, of sample_mc EE] validation_decides [OF c, of ?mc EE] by auto
qed

end
