(* ===== verification/Storage_Class.thy ===== *)
theory Storage_Class
  imports Validating
begin

text \<open>
  The pure half of the StorageClass controller, \<open>nfs_storage_class_watcher_func.go\<close>: what the
  StorageClass, the Secret and the VolumeSnapshotClass of an NFSStorageClass should look like
  (\<open>ConfigureStorageClass\<close>, \<open>configureSecret\<close>, \<open>ConfigureVSClass\<close>), how an existing object differs from
  that (\<open>CompareStorageClasses\<close>, \<open>CompareVSClasses\<close>), and which reconcile function applies
  (\<open>IdentifyReconcileFuncFor...\<close>).

  The lemmas show what a comparison says about the two objects, that a configured object is a fixed
  point (configuring again yields no difference), that labels are filtered independently of Go's
  map order, and that the reconcile types are exhaustive and exclusive.
\<close>

section \<open>Constants\<close>

definition StorageClassKind :: string where "StorageClassKind = ''StorageClass''"
definition StorageClassAPIVersion :: string where "StorageClassAPIVersion = ''storage.k8s.io/v1''"
definition NFSStorageClassProvisioner :: string where "NFSStorageClassProvisioner = ''nfs.csi.k8s.io''"
definition NFSStorageClassControllerFinalizerName :: string where
  "NFSStorageClassControllerFinalizerName = ''storage.deckhouse.io/nfs-storage-class-controller''"
definition NFSStorageClassManagedLabelKey :: string where
  "NFSStorageClassManagedLabelKey = ''storage.deckhouse.io/managed-by''"
definition NFSStorageClassManagedLabelValue :: string where
  "NFSStorageClassManagedLabelValue = ''nfs-storage-class-controller''"
definition NFSStorageClassVolumeSnapshotClassAnnotationKey :: string where
  "NFSStorageClassVolumeSnapshotClassAnnotationKey = ''storage.deckhouse.io/volumesnapshotclass''"
definition AllowVolumeExpansionDefaultValue :: bool where "AllowVolumeExpansionDefaultValue = True"
definition FailedStatusPhase :: string where "FailedStatusPhase = ''Failed''"
definition CreatedStatusPhase :: string where "CreatedStatusPhase = ''Created''"
definition CreateReconcile :: string where "CreateReconcile = ''Create''"
definition UpdateReconcile :: string where "UpdateReconcile = ''Update''"
definition RecreateReconcile :: string where "RecreateReconcile = ''Recreate''"
definition DeleteReconcile :: string where "DeleteReconcile = ''Delete''"
definition serverParamKey :: string where "serverParamKey = ''server''"
definition shareParamKey :: string where "shareParamKey = ''share''"
definition MountPermissionsParamKey :: string where "MountPermissionsParamKey = ''mountPermissions''"
definition MountOptionsParamKey :: string where "MountOptionsParamKey = ''mountOptions''"
definition MountOptionsSecretKey :: string where "MountOptionsSecretKey = ''mountOptions''"
definition SecretForMountOptionsPrefix :: string where
  "SecretForMountOptionsPrefix = ''nfs-mount-options-for-''"
definition ProvisionerSecretNameKey :: string where
  "ProvisionerSecretNameKey = ''csi.storage.k8s.io/provisioner-secret-name''"
definition ProvisionerSecretNamespaceKey :: string where
  "ProvisionerSecretNamespaceKey = ''csi.storage.k8s.io/provisioner-secret-namespace''"
definition SnapshotterSecretNameKey :: string where
  "SnapshotterSecretNameKey = ''csi.storage.k8s.io/snapshotter-secret-name''"
definition SnapshotterSecretNamespaceKey :: string where
  "SnapshotterSecretNamespaceKey = ''csi.storage.k8s.io/snapshotter-secret-namespace''"
definition volumeCleanupMethodKey :: string where "volumeCleanupMethodKey = ''volumeCleanup''"

definition allowedProvisioners :: "string list" where
  "allowedProvisioners = [NFSStorageClassProvisioner]"

lemmas reconcile_type_defs = CreateReconcile_def UpdateReconcile_def RecreateReconcile_def DeleteReconcile_def

lemmas const_defs = StorageClassKind_def StorageClassAPIVersion_def NFSStorageClassProvisioner_def
  NFSStorageClassControllerFinalizerName_def NFSStorageClassManagedLabelKey_def
  NFSStorageClassManagedLabelValue_def NFSStorageClassVolumeSnapshotClassAnnotationKey_def
  AllowVolumeExpansionDefaultValue_def FailedStatusPhase_def CreatedStatusPhase_def
  reconcile_type_defs serverParamKey_def shareParamKey_def MountPermissionsParamKey_def
  MountOptionsParamKey_def MountOptionsSecretKey_def SecretForMountOptionsPrefix_def
  ProvisionerSecretNameKey_def ProvisionerSecretNamespaceKey_def SnapshotterSecretNameKey_def
  SnapshotterSecretNamespaceKey_def volumeCleanupMethodKey_def

abbreviation FIN :: string where "FIN \<equiv> NFSStorageClassControllerFinalizerName"

abbreviation secret_name :: "NFSStorageClass \<Rightarrow> string" where
  "secret_name nsc \<equiv> SecretForMountOptionsPrefix @ Name nsc"

section \<open>Desired state\<close>

definition GetSCMountOptions :: "edition \<Rightarrow> NFSStorageClass \<Rightarrow> string list option" where
  "GetSCMountOptions ed nsc = do {
     c \<leftarrow> Connection (Spec nsc);
     let mountOptions = [];
     let mountOptions = (if NFSVersion c \<noteq> '''' then mountOptions @ [''nfsvers='' @ NFSVersion c] else mountOptions);
     let mountOptions =
       (if TLSEnabled ed then
          if Mtls c then mountOptions @ [''xprtsec=mtls'']
          else if Tls c then mountOptions @ [''xprtsec=tls'']
          else mountOptions
        else mountOptions);
     (case SpecMountOptions (Spec nsc) of
        None \<Rightarrow> Some mountOptions
      | Some mo \<Rightarrow> do {
          let mountOptions = (if MountMode mo \<noteq> '''' then mountOptions @ [MountMode mo] else mountOptions);
          let mountOptions = (if Timeout mo > 0 then mountOptions @ [''timeo='' @ Itoa (Timeout mo)] else mountOptions);
          let mountOptions =
            (if Retransmissions mo > 0 then mountOptions @ [''retrans='' @ Itoa (Retransmissions mo)] else mountOptions);
          (case ReadOnly mo of
             None \<Rightarrow> Some mountOptions
           | Some ro \<Rightarrow> if ro then Some (mountOptions @ [''ro'']) else Some (mountOptions @ [''rw'']))
        })
   }"

definition GetSCParams :: "NFSStorageClass \<Rightarrow> string \<Rightarrow> smap option" where
  "GetSCParams nsc controllerNamespace = do {
     c \<leftarrow> Connection (Spec nsc);
     let params = fmempty;
     let params = fmupd serverParamKey (Host c) params;
     let params = fmupd shareParamKey (Share c) params;
     let params = fmupd ProvisionerSecretNameKey (secret_name nsc) params;
     let params = fmupd ProvisionerSecretNamespaceKey controllerNamespace params;
     if ChmodPermissions (Spec nsc) \<noteq> ''''
     then Some (fmupd MountPermissionsParamKey (ChmodPermissions (Spec nsc)) params)
     else Some params
   }"

fun isIgnoredLabelKey :: "string \<Rightarrow> string list \<Rightarrow> bool" where
  "isIgnoredLabelKey k [] = False"
| "isIgnoredLabelKey k (p # ps) =
     (if p = '''' then isIgnoredLabelKey k ps
      else if HasPrefix k p then True
      else isIgnoredLabelKey k ps)"

definition filter_label_body :: "string list \<Rightarrow> string \<Rightarrow> string \<Rightarrow> smap \<Rightarrow> smap" where
  "filter_label_body ignoredPrefixes k v out =
     (if isIgnoredLabelKey k ignoredPrefixes then out else fmupd k v out)"

definition filterLabelsForStorageClass :: "smap option \<Rightarrow> string list \<Rightarrow> smap" where
  "filterLabelsForStorageClass src ignoredPrefixes =
     fold (\<lambda>(k, v). filter_label_body ignoredPrefixes k v) (go_range (smap_of src)) fmempty"

definition ConfigureStorageClass ::
  "lib \<Rightarrow> edition \<Rightarrow> StorageClass option \<Rightarrow> NFSStorageClass \<Rightarrow> string \<Rightarrow> string list \<Rightarrow> StorageClass option" where
  "ConfigureStorageClass L ed oldSC nsc controllerNamespace ignoredLabelPrefixes = do {
     params \<leftarrow> GetSCParams nsc controllerNamespace;
     mountOptions \<leftarrow> GetSCMountOptions ed nsc;
     let annotations = fmupd NFSStorageClassVolumeSnapshotClassAnnotationKey (Name nsc) fmempty;
     let newSc = \<lparr>
       Name = Name nsc,
       Namespace = Namespace nsc,
       Labels = None,
       Annotations = Some annotations,
       Finalizers = Some [NFSStorageClassControllerFinalizerName],
       ResourceVersion = '''',
       DeletionTimestamp = None,
       ManagedFields = None,
       OtherMeta = '''',
       SCTypeMeta = \<lparr>Kind = StorageClassKind, APIVersion = StorageClassAPIVersion\<rparr>,
       Provisioner = NFSStorageClassProvisioner,
       Parameters = Some params,
       ReclaimPolicy = Some (SpecReclaimPolicy (Spec nsc)),
       MountOptions = Some mountOptions,
       AllowVolumeExpansion = Some AllowVolumeExpansionDefaultValue,
       VolumeBindingMode = Some (SpecVolumeBindingMode (Spec nsc)),
       AllowedTopologies = None\<rparr>;
     let newSc = (case oldSC of
         None \<Rightarrow> newSc
       | Some old \<Rightarrow> (case Annotations old of
           None \<Rightarrow> newSc
         | Some oldAnnotations \<Rightarrow> newSc\<lparr>Annotations := Some (labels_Merge L oldAnnotations annotations)\<rparr>));
     let filteredLabels = filterLabelsForStorageClass (Labels nsc) ignoredLabelPrefixes;
     Some (if filteredLabels \<noteq> fmempty
       then newSc\<lparr>Labels := Some (fmupd NFSStorageClassManagedLabelKey NFSStorageClassManagedLabelValue filteredLabels)\<rparr>
       else newSc\<lparr>Labels := Some (fmupd NFSStorageClassManagedLabelKey NFSStorageClassManagedLabelValue fmempty)\<rparr>)
   }"

definition configureSecret :: "edition \<Rightarrow> NFSStorageClass \<Rightarrow> string \<Rightarrow> Secret option" where
  "configureSecret ed nsc controllerNamespace = do {
     mountOptions \<leftarrow> GetSCMountOptions ed nsc;
     let stringData = fmupd MountOptionsSecretKey (Join mountOptions '','') fmempty;
     let secret = \<lparr>
       Name = secret_name nsc,
       Namespace = controllerNamespace,
       Labels = Some (fmupd NFSStorageClassManagedLabelKey NFSStorageClassManagedLabelValue fmempty),
       Annotations = None,
       Finalizers = Some [NFSStorageClassControllerFinalizerName],
       ResourceVersion = '''',
       DeletionTimestamp = None,
       ManagedFields = None,
       OtherMeta = '''',
       SecretTypeMeta = \<lparr>Kind = ''Secret'', APIVersion = ''v1''\<rparr>,
       Data = None,
       StringData = Some stringData\<rparr>;
     if VolumeCleanup (Spec nsc) \<noteq> ''''
     then Some (secret\<lparr>StringData := Some (fmupd volumeCleanupMethodKey (VolumeCleanup (Spec nsc)) stringData)\<rparr>)
     else Some secret
   }"

definition ConfigureVSClass ::
  "lib \<Rightarrow> edition \<Rightarrow> VolumeSnapshotClass option \<Rightarrow> NFSStorageClass \<Rightarrow> string \<Rightarrow> VolumeSnapshotClass option" where
  "ConfigureVSClass L ed oldVSClass nsc controllerNamespace = do {
     mountOptions \<leftarrow> GetSCMountOptions ed nsc;
     let labels = fmupd NFSStorageClassManagedLabelKey NFSStorageClassManagedLabelValue fmempty;
     let newVSClass = \<lparr>
       Name = Name nsc,
       Namespace = Namespace nsc,
       Labels = Some labels,
       Annotations = None,
       Finalizers = Some [NFSStorageClassControllerFinalizerName],
       ResourceVersion = '''',
       DeletionTimestamp = None,
       ManagedFields = None,
       OtherMeta = '''',
       Driver = NFSStorageClassProvisioner,
       DeletionPolicy = SpecReclaimPolicy (Spec nsc),
       VSParameters = Some (fmupd MountOptionsParamKey (Join mountOptions '','')
         (fmupd MountPermissionsParamKey (ChmodPermissions (Spec nsc))
         (fmupd SnapshotterSecretNameKey (secret_name nsc)
         (fmupd SnapshotterSecretNamespaceKey controllerNamespace fmempty))))\<rparr>;
     Some (case oldVSClass of
         None \<Rightarrow> newVSClass
       | Some old \<Rightarrow>
           let newVSClass = (case Labels old of
               None \<Rightarrow> newVSClass
             | Some oldLabels \<Rightarrow> newVSClass\<lparr>Labels := Some (labels_Merge L oldLabels labels)\<rparr>)
           in (case Annotations old of
               None \<Rightarrow> newVSClass
             | Some oldAnnotations \<Rightarrow> newVSClass\<lparr>Annotations := Some oldAnnotations\<rparr>))
   }"

section \<open>Differences\<close>

definition Sprint_bool :: "bool \<Rightarrow> string" where
  "Sprint_bool b = (if b then ''true'' else ''false'')"

text \<open>The pattern \<open>a != nil && b != nil && *a != *b\<close>.\<close>

definition ptr_differ :: "'a option \<Rightarrow> 'a option \<Rightarrow> bool" where
  "ptr_differ a b = (case (a, b) of (Some x, Some y) \<Rightarrow> x \<noteq> y | _ \<Rightarrow> False)"

definition CompareStorageClasses :: "lib \<Rightarrow> StorageClass \<Rightarrow> StorageClass \<Rightarrow> bool \<times> string" where
  "CompareStorageClasses L sc newSC =
    (let diffs = []; needRecreate = False;
       (diffs, needRecreate) =
         (if ptr_differ (ReclaimPolicy sc) (ReclaimPolicy newSC)
          then (diffs @ [''ReclaimPolicy: '' @ the (ReclaimPolicy sc) @ '' -> '' @ the (ReclaimPolicy newSC)], True)
          else (diffs, needRecreate));
       (diffs, needRecreate) =
         (if ptr_differ (AllowVolumeExpansion sc) (AllowVolumeExpansion newSC)
          then (diffs @ [''AllowVolumeExpansion: '' @ Sprint_bool (the (AllowVolumeExpansion sc)) @ '' -> '' @
                  Sprint_bool (the (AllowVolumeExpansion newSC))], True)
          else (diffs, needRecreate));
       (diffs, needRecreate) =
         (if ptr_differ (VolumeBindingMode sc) (VolumeBindingMode newSC)
          then (diffs @ [''VolumeBindingMode: '' @ the (VolumeBindingMode sc) @ '' -> '' @ the (VolumeBindingMode newSC)], True)
          else (diffs, needRecreate));
       (diffs, needRecreate) =
         (if \<not> cmp_Equal_map L (Parameters sc) (Parameters newSC)
          then (diffs @ [''Parameters diff: '' @ cmp_Diff_map L (Parameters sc) (Parameters newSC)], True)
          else (diffs, needRecreate));
       diffs =
         (if \<not> cmp_Equal_slice L (MountOptions sc) (MountOptions newSC)
          then diffs @ [''MountOptions diff: '' @ cmp_Diff_slice L (MountOptions sc) (MountOptions newSC)]
          else diffs);
       diffs =
         (if \<not> cmp_Equal_map L (Labels sc) (Labels newSC)
          then diffs @ [''Labels diff: '' @ cmp_Diff_map L (Labels sc) (Labels newSC)]
          else diffs);
       diffs =
         (if \<not> cmp_Equal_map L (Annotations sc) (Annotations newSC)
          then diffs @ [''Annotations diff: '' @ cmp_Diff_map L (Annotations sc) (Annotations newSC)]
          else diffs)
     in (needRecreate, Join diffs '', ''))"

definition CompareVSClasses :: "lib \<Rightarrow> VolumeSnapshotClass \<Rightarrow> VolumeSnapshotClass \<Rightarrow> string" where
  "CompareVSClasses L vsClass newVSClass =
    (let diffs = [];
       diffs =
         (if DeletionPolicy vsClass \<noteq> DeletionPolicy newVSClass
          then diffs @ [''DeletionPolicy: '' @ DeletionPolicy vsClass @ '' -> '' @ DeletionPolicy newVSClass]
          else diffs);
       diffs =
         (if \<not> cmp_Equal_map L (VSParameters vsClass) (VSParameters newVSClass)
          then diffs @ [''Parameters diff: '' @ cmp_Diff_map L (VSParameters vsClass) (VSParameters newVSClass)]
          else diffs);
       diffs =
         (if \<not> cmp_Equal_map L (Labels vsClass) (Labels newVSClass)
          then diffs @ [''Labels diff: '' @ cmp_Diff_map L (Labels vsClass) (Labels newVSClass)]
          else diffs);
       diffs =
         (if \<not> cmp_Equal_map L (Annotations vsClass) (Annotations newVSClass)
          then diffs @ [''Annotations diff: '' @ cmp_Diff_map L (Annotations vsClass) (Annotations newVSClass)]
          else diffs)
     in Join diffs '', '')"

section \<open>Choosing the reconcile function\<close>

definition shouldReconcileByDeleteFunc :: "'a ObjectMeta_scheme \<Rightarrow> bool" where
  "shouldReconcileByDeleteFunc obj \<longleftrightarrow> DeletionTimestamp obj \<noteq> None"

definition findStorageClass :: "StorageClass list \<Rightarrow> string \<Rightarrow> StorageClass option" where
  "findStorageClass scList name = find (\<lambda>sc. Name sc = name) scList"

definition findVSClass :: "VolumeSnapshotClass list \<Rightarrow> string \<Rightarrow> VolumeSnapshotClass option" where
  "findVSClass vsClassList name = find (\<lambda>vsClass. Name vsClass = name) vsClassList"

definition shouldReconcileStorageClassByCreateFunc :: "StorageClass option \<Rightarrow> NFSStorageClass \<Rightarrow> bool" where
  "shouldReconcileStorageClassByCreateFunc oldSC nsc =
     (if DeletionTimestamp nsc \<noteq> None then False
      else if oldSC \<noteq> None then False
      else True)"

definition shouldReconcileStorageClassByRecreateOrUpdateFunc ::
  "lib \<Rightarrow> StorageClass option \<Rightarrow> StorageClass \<Rightarrow> NFSStorageClass \<Rightarrow> string" where
  "shouldReconcileStorageClassByRecreateOrUpdateFunc L oldSC newSC nsc =
     (if DeletionTimestamp nsc \<noteq> None then ''''
      else case oldSC of
        None \<Rightarrow> ''''
      | Some old \<Rightarrow>
          (let (needRecreate, diff) = CompareStorageClasses L old newSC in
           if diff \<noteq> '''' then (if needRecreate then RecreateReconcile else UpdateReconcile)
           else ''''))"

definition IdentifyReconcileFuncForStorageClass ::
  "lib \<Rightarrow> edition \<Rightarrow> StorageClass list \<Rightarrow> NFSStorageClass \<Rightarrow> string \<Rightarrow> string list \<Rightarrow>
   (string \<times> StorageClass option \<times> StorageClass option) option" where
  "IdentifyReconcileFuncForStorageClass L ed scList nsc controllerNamespace ignoredLabelPrefixes =
    (let oldSC = findStorageClass scList (Name nsc) in
     if shouldReconcileByDeleteFunc nsc then Some (DeleteReconcile, oldSC, None)
     else do {
       newSC \<leftarrow> ConfigureStorageClass L ed oldSC nsc controllerNamespace ignoredLabelPrefixes;
       if shouldReconcileStorageClassByCreateFunc oldSC nsc then Some (CreateReconcile, None, Some newSC)
       else do {
         let updateType = shouldReconcileStorageClassByRecreateOrUpdateFunc L oldSC newSC nsc;
         if updateType \<noteq> '''' then Some (updateType, oldSC, Some newSC)
         else Some ('''', oldSC, Some newSC)
       }
     })"

definition shouldReconcileSecretByCreateFunc :: "Secret list \<Rightarrow> NFSStorageClass \<Rightarrow> bool" where
  "shouldReconcileSecretByCreateFunc secretList nsc =
     (if DeletionTimestamp nsc \<noteq> None then False
      else \<not> list_ex (\<lambda>s. Name s = secret_name nsc) secretList)"

definition secretSelector :: smap where
  "secretSelector = fmupd NFSStorageClassManagedLabelKey NFSStorageClassManagedLabelValue fmempty"

fun secretUpdateLoop ::
  "lib \<Rightarrow> edition \<Rightarrow> Secret list \<Rightarrow> NFSStorageClass \<Rightarrow> string \<Rightarrow> (bool \<times> go_error option) option" where
  "secretUpdateLoop L ed [] nsc controllerNamespace = Some (True, None)"
| "secretUpdateLoop L ed (oldSecret # rest) nsc controllerNamespace =
     (if Name oldSecret = secret_name nsc then do {
        newSecret \<leftarrow> configureSecret ed nsc controllerNamespace;
        if StringData oldSecret \<noteq> StringData newSecret
        then (if \<not> labels_Matches L (Labels oldSecret) (Some secretSelector)
              then Some (False, Some (ErrorString (''a secret '' @ Quote (Name oldSecret) @
                '' does not have a label '' @ NFSStorageClassManagedLabelKey @ ''='' @ NFSStorageClassManagedLabelValue)))
              else Some (True, None))
        else if \<not> labels_Matches L (Labels oldSecret) (Some secretSelector) then Some (True, None)
        else Some (False, None)
      }
      else secretUpdateLoop L ed rest nsc controllerNamespace)"

definition shouldReconcileSecretByUpdateFunc ::
  "lib \<Rightarrow> edition \<Rightarrow> Secret list \<Rightarrow> NFSStorageClass \<Rightarrow> string \<Rightarrow> (bool \<times> go_error option) option" where
  "shouldReconcileSecretByUpdateFunc L ed secretList nsc controllerNamespace =
     (if DeletionTimestamp nsc \<noteq> None then Some (False, None)
      else secretUpdateLoop L ed secretList nsc controllerNamespace)"

definition IdentifyReconcileFuncForSecret ::
  "lib \<Rightarrow> edition \<Rightarrow> Secret list \<Rightarrow> NFSStorageClass \<Rightarrow> string \<Rightarrow> (string \<times> go_error option) option" where
  "IdentifyReconcileFuncForSecret L ed secretList nsc controllerNamespace =
     (if shouldReconcileByDeleteFunc nsc then Some (DeleteReconcile, None)
      else if shouldReconcileSecretByCreateFunc secretList nsc then Some (CreateReconcile, None)
      else do {
        (should, err) \<leftarrow> shouldReconcileSecretByUpdateFunc L ed secretList nsc controllerNamespace;
        if err \<noteq> None then Some ('''', err)
        else if should then Some (UpdateReconcile, None)
        else Some ('''', None)
      })"

definition shouldReconcileVSClassByCreateFunc :: "VolumeSnapshotClass option \<Rightarrow> NFSStorageClass \<Rightarrow> bool" where
  "shouldReconcileVSClassByCreateFunc oldVSClass nsc =
     (if DeletionTimestamp nsc \<noteq> None then False
      else if oldVSClass \<noteq> None then False
      else True)"

definition shouldReconcileVSClassByUpdateFunc ::
  "lib \<Rightarrow> VolumeSnapshotClass option \<Rightarrow> VolumeSnapshotClass \<Rightarrow> NFSStorageClass \<Rightarrow> bool" where
  "shouldReconcileVSClassByUpdateFunc L oldVSClass newVSClass nsc =
     (if DeletionTimestamp nsc \<noteq> None then False
      else case oldVSClass of
        None \<Rightarrow> False
      | Some old \<Rightarrow> CompareVSClasses L old newVSClass \<noteq> '''')"

definition IdentifyReconcileFuncForVSClass ::
  "lib \<Rightarrow> edition \<Rightarrow> VolumeSnapshotClass list \<Rightarrow> NFSStorageClass \<Rightarrow> string \<Rightarrow>
   (string \<times> VolumeSnapshotClass option \<times> VolumeSnapshotClass option) option" where
  "IdentifyReconcileFuncForVSClass L ed vsClassList nsc controllerNamespace =
    (let oldVSClass = findVSClass vsClassList (Name nsc) in
     if shouldReconcileByDeleteFunc nsc then Some (DeleteReconcile, oldVSClass, None)
     else do {
       newVSClass \<leftarrow> ConfigureVSClass L ed oldVSClass nsc controllerNamespace;
       if shouldReconcileVSClassByCreateFunc oldVSClass nsc then Some (CreateReconcile, None, Some newVSClass)
       else if shouldReconcileVSClassByUpdateFunc L oldVSClass newVSClass nsc
       then Some (UpdateReconcile, oldVSClass, Some newVSClass)
       else Some ('''', oldVSClass, Some newVSClass)
     })"
section \<open>Specification\<close>

text \<open>The mount options of a connection, as one list expression.\<close>

definition connection_options :: "edition \<Rightarrow> NFSStorageClassConnection \<Rightarrow> string list" where
  "connection_options ed c =
     (if NFSVersion c \<noteq> '''' then [''nfsvers='' @ NFSVersion c] else []) @
     (if TLSEnabled ed then
        if Mtls c then [''xprtsec=mtls''] else if Tls c then [''xprtsec=tls''] else []
      else [])"

definition tuning_options :: "NFSStorageClassMountOptions \<Rightarrow> string list" where
  "tuning_options mo =
     (if MountMode mo \<noteq> '''' then [MountMode mo] else []) @
     (if Timeout mo > 0 then [''timeo='' @ Itoa (Timeout mo)] else []) @
     (if Retransmissions mo > 0 then [''retrans='' @ Itoa (Retransmissions mo)] else []) @
     (case ReadOnly mo of None \<Rightarrow> [] | Some ro \<Rightarrow> if ro then [''ro''] else [''rw''])"

definition mount_options :: "edition \<Rightarrow> NFSStorageClassConnection \<Rightarrow> NFSStorageClassSpec \<Rightarrow> string list" where
  "mount_options ed c spec = connection_options ed c @
     (case SpecMountOptions spec of None \<Rightarrow> [] | Some mo \<Rightarrow> tuning_options mo)"

text \<open>Fields whose change needs a new StorageClass, and fields that can be updated in place.\<close>

definition sc_immutable_differ :: "StorageClass \<Rightarrow> StorageClass \<Rightarrow> bool" where
  "sc_immutable_differ sc newSC \<longleftrightarrow>
     ptr_differ (ReclaimPolicy sc) (ReclaimPolicy newSC) \<or>
     ptr_differ (AllowVolumeExpansion sc) (AllowVolumeExpansion newSC) \<or>
     ptr_differ (VolumeBindingMode sc) (VolumeBindingMode newSC) \<or>
     Parameters sc \<noteq> Parameters newSC"

definition sc_mutable_differ :: "StorageClass \<Rightarrow> StorageClass \<Rightarrow> bool" where
  "sc_mutable_differ sc newSC \<longleftrightarrow> MountOptions sc \<noteq> MountOptions newSC \<or>
     Labels sc \<noteq> Labels newSC \<or> Annotations sc \<noteq> Annotations newSC"

definition sc_in_sync :: "StorageClass \<Rightarrow> StorageClass \<Rightarrow> bool" where
  "sc_in_sync sc newSC \<longleftrightarrow> \<not> sc_immutable_differ sc newSC \<and> \<not> sc_mutable_differ sc newSC"

definition vsc_in_sync :: "VolumeSnapshotClass \<Rightarrow> VolumeSnapshotClass \<Rightarrow> bool" where
  "vsc_in_sync vsc newVSC \<longleftrightarrow> DeletionPolicy vsc = DeletionPolicy newVSC \<and>
     VSParameters vsc = VSParameters newVSC \<and> Labels vsc = Labels newVSC \<and>
     Annotations vsc = Annotations newVSC"

definition desired_labels :: "NFSStorageClass \<Rightarrow> string list \<Rightarrow> smap" where
  "desired_labels nsc ps = fmupd NFSStorageClassManagedLabelKey NFSStorageClassManagedLabelValue
     (fmfilter (\<lambda>k. \<not> isIgnoredLabelKey k ps) (smap_of (Labels nsc)))"

definition merged_annotations :: "lib \<Rightarrow> StorageClass option \<Rightarrow> NFSStorageClass \<Rightarrow> smap" where
  "merged_annotations L oldSC nsc =
     (let a = fmupd NFSStorageClassVolumeSnapshotClassAnnotationKey (Name nsc) fmempty in
      case Option.bind oldSC Annotations of None \<Rightarrow> a | Some oa \<Rightarrow> labels_Merge L oa a)"

definition merged_vsc_labels :: "lib \<Rightarrow> VolumeSnapshotClass option \<Rightarrow> smap" where
  "merged_vsc_labels L oldVSC =
     (case Option.bind oldVSC Labels of None \<Rightarrow> secretSelector | Some ol \<Rightarrow> labels_Merge L ol secretSelector)"

section \<open>Labels\<close>

lemma isIgnoredLabelKey_iff:
  "isIgnoredLabelKey k ps \<longleftrightarrow> (\<exists>p \<in> set ps. p \<noteq> [] \<and> prefix p k)"
  by (induction ps) (auto simp: HasPrefix_iff)

interpretation filter_labels: range_loop "filter_label_body ps"
  by unfold_locales (auto simp: filter_label_body_def fmupd_reorder_neq)

lemma fold_filter_labels_lookup:
  "distinct (map fst es) \<Longrightarrow>
   fmlookup (fold (\<lambda>(k, v). filter_label_body ps k v) es out) k =
     (if k \<in> fst ` set es \<and> \<not> isIgnoredLabelKey k ps then map_of es k else fmlookup out k)"
proof (induction es arbitrary: out)
  case (Cons e es)
  obtain k' v' where e: "e = (k', v')" by (cases e)
  with Cons show ?case
    by (auto simp: filter_label_body_def image_iff split: if_splits)
qed simp

lemma fold_filter_labels:
  assumes "enumerates es m"
  shows "fold (\<lambda>(k, v). filter_label_body ps k v) es fmempty = fmfilter (\<lambda>k. \<not> isIgnoredLabelKey k ps) m"
proof (rule fmap_ext)
  fix k
  from assms have "map_of es k = None" if "k \<notin> fst ` set es"
    using that by (simp add: map_of_eq_None_iff)
  with assms show "fmlookup (fold (\<lambda>(k, v). filter_label_body ps k v) es fmempty) k =
      fmlookup (fmfilter (\<lambda>k. \<not> isIgnoredLabelKey k ps) m) k"
    by (auto simp: fold_filter_labels_lookup enumerates_def)
qed

lemma filterLabels_eq:
  "filterLabelsForStorageClass src ps = fmfilter (\<lambda>k. \<not> isIgnoredLabelKey k ps) (smap_of src)"
  unfolding filterLabelsForStorageClass_def
  by (rule fold_filter_labels [OF enumerates_go_range])

section \<open>Desired state\<close>

lemma append_if: "(if b then xs @ ys else xs) = xs @ (if b then ys else [])"
  by simp

lemma append_if2:
  "(if b then if d then xs @ ys else if e then xs @ zs else xs else xs) =
     xs @ (if b then if d then ys else if e then zs else [] else [])"
  by simp

lemma GetSCMountOptions_eq:
  "GetSCMountOptions ed nsc = map_option (\<lambda>c. mount_options ed c (Spec nsc)) (Connection (Spec nsc))"
proof (cases "Connection (Spec nsc)")
  case (Some c)
  have ro: "(if ro then Some (xs @ [''ro'']) else Some (xs @ [''rw''])) = Some (xs @ (if ro then [''ro''] else [''rw'']))"
    for ro and xs :: "string list" by simp
  show ?thesis
    unfolding GetSCMountOptions_def mount_options_def connection_options_def tuning_options_def Let_def Some
      append_if2
    unfolding append_if ro
    by (simp split: option.split split del: if_split)
qed (simp add: GetSCMountOptions_def)

lemma GetSCParams_panic: "GetSCParams nsc ns = None \<longleftrightarrow> Connection (Spec nsc) = None"
  by (cases "Connection (Spec nsc)") (simp_all add: GetSCParams_def Let_def)

lemma GetSCParams_nonempty: "GetSCParams nsc ns = Some p \<Longrightarrow> p \<noteq> fmempty"
  by (auto simp: GetSCParams_def Let_def bind_eq_Some_conv split: if_splits)

lemma configureSecret_panic: "configureSecret ed nsc ns = None \<longleftrightarrow> Connection (Spec nsc) = None"
  by (cases "Connection (Spec nsc)") (auto simp: configureSecret_def GetSCMountOptions_eq Let_def)

lemma desired_labels_cases:
  "desired_labels nsc ps =
     (if filterLabelsForStorageClass (Labels nsc) ps \<noteq> fmempty
      then fmupd NFSStorageClassManagedLabelKey NFSStorageClassManagedLabelValue (filterLabelsForStorageClass (Labels nsc) ps)
      else fmupd NFSStorageClassManagedLabelKey NFSStorageClassManagedLabelValue fmempty)"
  by (simp add: desired_labels_def filterLabels_eq)

lemma ConfigureStorageClass_eq:
  "ConfigureStorageClass L ed old nsc ns ps = do {
     p \<leftarrow> GetSCParams nsc ns;
     mo \<leftarrow> GetSCMountOptions ed nsc;
     Some \<lparr>Name = Name nsc, Namespace = Namespace nsc, Labels = Some (desired_labels nsc ps),
       Annotations = Some (merged_annotations L old nsc), Finalizers = Some [FIN],
       ResourceVersion = '''', DeletionTimestamp = None, ManagedFields = None, OtherMeta = '''',
       SCTypeMeta = \<lparr>Kind = StorageClassKind, APIVersion = StorageClassAPIVersion\<rparr>,
       Provisioner = NFSStorageClassProvisioner, Parameters = Some p,
       ReclaimPolicy = Some (SpecReclaimPolicy (Spec nsc)), MountOptions = Some mo,
       AllowVolumeExpansion = Some True, VolumeBindingMode = Some (SpecVolumeBindingMode (Spec nsc)),
       AllowedTopologies = None\<rparr>
   }"
proof -
  consider "old = None" | o' where "old = Some o'" "Annotations o' = None"
    | o' oa where "old = Some o'" "Annotations o' = Some oa"
    by fastforce
  then show ?thesis
    by cases (simp_all add: ConfigureStorageClass_def Let_def desired_labels_cases merged_annotations_def
      AllowVolumeExpansionDefaultValue_def)
qed

lemma ConfigureStorageClass_fields:
  assumes "ConfigureStorageClass L ed old nsc ns ps = Some sc"
  shows "Name sc = Name nsc" "Namespace sc = Namespace nsc"
    "Finalizers sc = Some [FIN]" "DeletionTimestamp sc = None"
    "Provisioner sc = NFSStorageClassProvisioner"
    "Labels sc = Some (desired_labels nsc ps)"
    "Annotations sc = Some (merged_annotations L old nsc)"
    "Parameters sc = GetSCParams nsc ns"
    "MountOptions sc = GetSCMountOptions ed nsc"
    "ReclaimPolicy sc = Some (SpecReclaimPolicy (Spec nsc))"
    "VolumeBindingMode sc = Some (SpecVolumeBindingMode (Spec nsc))"
    "AllowVolumeExpansion sc = Some True"
  using assms by (auto simp: ConfigureStorageClass_eq bind_eq_Some_conv)

lemma ConfigureVSClass_eq:
  "ConfigureVSClass L ed old nsc ns = do {
     mo \<leftarrow> GetSCMountOptions ed nsc;
     Some \<lparr>Name = Name nsc, Namespace = Namespace nsc, Labels = Some (merged_vsc_labels L old),
       Annotations = Option.bind old Annotations, Finalizers = Some [FIN],
       ResourceVersion = '''', DeletionTimestamp = None, ManagedFields = None, OtherMeta = '''',
       Driver = NFSStorageClassProvisioner, DeletionPolicy = SpecReclaimPolicy (Spec nsc),
       VSParameters = Some (fmupd MountOptionsParamKey (Join mo '','')
         (fmupd MountPermissionsParamKey (ChmodPermissions (Spec nsc))
         (fmupd SnapshotterSecretNameKey (secret_name nsc)
         (fmupd SnapshotterSecretNamespaceKey ns fmempty))))\<rparr>
   }"
proof (cases old)
  case (Some o')
  then show ?thesis
    by (cases "Labels o'"; cases "Annotations o'")
      (simp_all add: ConfigureVSClass_def Let_def merged_vsc_labels_def secretSelector_def)
qed (simp add: ConfigureVSClass_def Let_def merged_vsc_labels_def secretSelector_def)

lemma ConfigureVSClass_fields:
  assumes "ConfigureVSClass L ed old nsc ns = Some v"
  shows "Name v = Name nsc" "Finalizers v = Some [FIN]" "DeletionTimestamp v = None"
    "Driver v = NFSStorageClassProvisioner" "DeletionPolicy v = SpecReclaimPolicy (Spec nsc)"
    "Labels v = Some (merged_vsc_labels L old)" "Annotations v = Option.bind old Annotations"
    "VSParameters v = map_option (\<lambda>mo. fmupd MountOptionsParamKey (Join mo '','')
         (fmupd MountPermissionsParamKey (ChmodPermissions (Spec nsc))
         (fmupd SnapshotterSecretNameKey (secret_name nsc)
         (fmupd SnapshotterSecretNamespaceKey ns fmempty)))) (GetSCMountOptions ed nsc)"
  using assms by (auto simp: ConfigureVSClass_eq bind_eq_Some_conv)

lemma ConfigureStorageClass_panic:
  "ConfigureStorageClass L ed old nsc ns ps = None \<longleftrightarrow> Connection (Spec nsc) = None"
  using GetSCParams_panic [of nsc ns]
  by (cases "Connection (Spec nsc)") (auto simp: ConfigureStorageClass_eq GetSCMountOptions_eq)

lemma ConfigureVSClass_panic:
  "ConfigureVSClass L ed old nsc ns = None \<longleftrightarrow> Connection (Spec nsc) = None"
  by (cases "Connection (Spec nsc)") (auto simp: ConfigureVSClass_eq GetSCMountOptions_eq)

lemma configureSecret_fields:
  assumes "configureSecret ed nsc ns = Some s"
  shows "Name s = secret_name nsc" "Namespace s = ns" "Labels s = Some secretSelector"
    "Finalizers s = Some [FIN]" "DeletionTimestamp s = None" "StringData s \<noteq> None" "Data s = None"
    "fmlookup (smap_of (StringData s)) MountOptionsSecretKey = map_option (\<lambda>mo. Join mo '','') (GetSCMountOptions ed nsc)"
  using assms
  by (auto simp: configureSecret_def Let_def bind_eq_Some_conv secretSelector_def
      MountOptionsSecretKey_def volumeCleanupMethodKey_def split: if_splits)

section \<open>Differences\<close>

lemma Join_eq_Nil_nonempty: "[] \<notin> set xs \<Longrightarrow> Join xs '', '' = [] \<longleftrightarrow> xs = []"
  by (auto simp: Join_eq_Nil_iff)

lemma pair_append_if: "(if b then (xs @ [y], True) else (xs, c)) = (xs @ (if b then [y] else []), b \<or> c)"
  by simp

lemma if_singleton_Nil: "(if b then [y] else []) = [] \<longleftrightarrow> \<not> b" "x \<in> set (if b then [y] else []) \<longleftrightarrow> x = y \<and> b"
  by simp_all

lemmas diff_list_simps = Let_def pair_append_if append_if prod.case append_Nil

context lib_laws
begin

lemma compare_sc_recreate:
  "fst (CompareStorageClasses L sc newSC) \<longleftrightarrow> sc_immutable_differ sc newSC"
  unfolding CompareStorageClasses_def diff_list_simps fst_conv
  by (auto simp: sc_immutable_differ_def lib_simps)

lemma compare_sc_none:
  "snd (CompareStorageClasses L sc newSC) = '''' \<longleftrightarrow> sc_in_sync sc newSC"
  unfolding CompareStorageClasses_def diff_list_simps snd_conv
  by (subst Join_eq_Nil_nonempty)
    (auto simp: if_singleton_Nil sc_in_sync_def sc_immutable_differ_def sc_mutable_differ_def lib_simps
      split del: if_split)

lemma compare_vsc_none: "CompareVSClasses L vsc newVSC = '''' \<longleftrightarrow> vsc_in_sync vsc newVSC"
  unfolding CompareVSClasses_def diff_list_simps
  by (subst Join_eq_Nil_nonempty)
    (auto simp: if_singleton_Nil vsc_in_sync_def lib_simps split del: if_split)

end

section \<open>Configured objects are fixed points\<close>

lemma mount_options_nonempty: "NFSVersion c \<noteq> '''' \<Longrightarrow> mount_options ed c spec \<noteq> []"
  by (simp add: mount_options_def connection_options_def)

lemma wire_sc_configured:
  assumes "ConfigureStorageClass L ed old nsc ns ps = Some sc"
    and "Connection (Spec nsc) = Some c" and "NFSVersion c \<noteq> ''''"
    and "merged_annotations L old nsc \<noteq> fmempty"
  shows "wire_sc sc = sc"
  using assms GetSCParams_nonempty [of nsc ns] mount_options_nonempty [of c ed "Spec nsc"]
  by (auto simp: ConfigureStorageClass_eq bind_eq_Some_conv wire_sc_def wire_meta_def
      GetSCMountOptions_eq desired_labels_def)

lemma same_sc_fields:
  assumes "same_object x (y :: StorageClass)"
  shows "Provisioner y = Provisioner x" "Parameters y = Parameters x" "MountOptions y = MountOptions x"
    "ReclaimPolicy y = ReclaimPolicy x" "AllowVolumeExpansion y = AllowVolumeExpansion x"
    "VolumeBindingMode y = VolumeBindingMode x"
  using assms by (auto elim: same_object_fields)

lemma same_vsc_fields:
  assumes "same_object x (y :: VolumeSnapshotClass)"
  shows "Driver y = Driver x" "DeletionPolicy y = DeletionPolicy x" "VSParameters y = VSParameters x"
  using assms by (auto elim: same_object_fields)

context lib_laws
begin

lemma merged_annotations_eq:
  "merged_annotations L old nsc = smap_of (Option.bind old Annotations) ++\<^sub>f
     fmupd NFSStorageClassVolumeSnapshotClassAnnotationKey (Name nsc) fmempty"
  by (simp add: merged_annotations_def Merge smap_of_def split: option.split)

lemma merged_annotations_nonempty: "merged_annotations L old nsc \<noteq> fmempty"
  unfolding merged_annotations_eq by simp

lemma merged_vsc_labels_eq:
  "merged_vsc_labels L old = smap_of (Option.bind old Labels) ++\<^sub>f secretSelector"
  by (simp add: merged_vsc_labels_def Merge smap_of_def split: option.split)

lemma merge_absorb: "(m ++\<^sub>f n) ++\<^sub>f n = m ++\<^sub>f n" for m n :: smap
  by (rule fmap_ext) simp

lemma sc_fixed_point:
  assumes c: "Connection (Spec nsc) = Some c" "NFSVersion c \<noteq> ''''"
    and conf: "ConfigureStorageClass L ed old nsc ns ps = Some sc"
    and stored: "same_object (wire_sc sc) y"
  shows "\<exists>sc'. ConfigureStorageClass L ed (Some y) nsc ns ps = Some sc' \<and> sc_in_sync y sc'"
proof -
  have y: "same_object sc y"
    using stored wire_sc_configured [OF conf c merged_annotations_nonempty] by simp
  obtain sc' where sc': "ConfigureStorageClass L ed (Some y) nsc ns ps = Some sc'"
    using c ConfigureStorageClass_panic by (metis not_None_eq)
  note f = ConfigureStorageClass_fields [OF conf] and f' = ConfigureStorageClass_fields [OF sc']
  have "merged_annotations L (Some y) nsc = merged_annotations L old nsc"
    using same_object_meta(4) [OF y] f(7) by (simp add: merged_annotations_eq merge_absorb)
  then have "sc_in_sync y sc'"
    using same_sc_fields [OF y] same_object_meta [OF y] f f'
    by (simp add: sc_in_sync_def sc_immutable_differ_def sc_mutable_differ_def ptr_differ_def)
  with sc' show ?thesis by blast
qed

lemma vsc_fixed_point:
  assumes conf: "ConfigureVSClass L ed old nsc ns = Some v"
    and stored: "same_object (wire_vsclass v) y"
  shows "\<exists>v'. ConfigureVSClass L ed (Some y) nsc ns = Some v' \<and> vsc_in_sync y v'"
proof -
  obtain v' where v': "ConfigureVSClass L ed (Some y) nsc ns = Some v'"
    using conf ConfigureVSClass_panic by (metis not_None_eq)
  note f = ConfigureVSClass_fields [OF conf] and f' = ConfigureVSClass_fields [OF v']
  have ne: "merged_vsc_labels L old \<noteq> fmempty" by (simp add: merged_vsc_labels_eq secretSelector_def)
  have lab: "Labels y = Labels v"
    using same_object_meta(3) [OF stored] f(6) ne by (simp add: wire_vsclass_def wire_meta_def)
  have "merged_vsc_labels L (Some y) = merged_vsc_labels L old"
    using lab f(6) by (simp add: merged_vsc_labels_eq merge_absorb)
  moreover have "VSParameters (wire_vsclass v) = VSParameters v"
    using f(8) by (cases "GetSCMountOptions ed nsc") (simp_all add: wire_vsclass_def wire_meta_def)
  moreover have "DeletionPolicy (wire_vsclass v) = DeletionPolicy v"
    by (simp add: wire_vsclass_def wire_meta_def)
  ultimately have "vsc_in_sync y v'"
    using lab f f' same_vsc_fields [OF stored] by (simp add: vsc_in_sync_def)
  with v' show ?thesis by blast
qed

lemma identify_sc_exists:
  assumes "findStorageClass scList (Name nsc) = Some old" and "DeletionTimestamp nsc = None"
    and "ConfigureStorageClass L ed (Some old) nsc ns ps = Some new"
  shows "IdentifyReconcileFuncForStorageClass L ed scList nsc ns ps = Some
    (if sc_in_sync old new then '''' else if sc_immutable_differ old new then RecreateReconcile else UpdateReconcile,
     Some old, Some new)"
  using assms compare_sc_none [of old new] compare_sc_recreate [of old new]
  by (auto simp: IdentifyReconcileFuncForStorageClass_def shouldReconcileByDeleteFunc_def
      shouldReconcileStorageClassByCreateFunc_def shouldReconcileStorageClassByRecreateOrUpdateFunc_def
      reconcile_type_defs Let_def split: prod.splits)

end

lemma identify_sc_absent:
  assumes "findStorageClass scList (Name nsc) = None" and "DeletionTimestamp nsc = None"
  shows "IdentifyReconcileFuncForStorageClass L ed scList nsc ns ps =
    map_option (\<lambda>new. (CreateReconcile, None, Some new)) (ConfigureStorageClass L ed None nsc ns ps)"
  using assms
  by (cases "ConfigureStorageClass L ed None nsc ns ps")
    (simp_all add: IdentifyReconcileFuncForStorageClass_def shouldReconcileByDeleteFunc_def
      shouldReconcileStorageClassByCreateFunc_def Let_def)

lemma identify_sc_deleted:
  "DeletionTimestamp nsc \<noteq> None \<Longrightarrow> IdentifyReconcileFuncForStorageClass L ed scList nsc ns ps =
    Some (DeleteReconcile, findStorageClass scList (Name nsc), None)"
  by (simp add: IdentifyReconcileFuncForStorageClass_def shouldReconcileByDeleteFunc_def)

section \<open>Secrets\<close>

lemma secretUpdateLoop_find:
  "secretUpdateLoop L ed xs nsc ns = (case find (\<lambda>s. Name s = secret_name nsc) xs of
     None \<Rightarrow> Some (True, None)
   | Some s \<Rightarrow> secretUpdateLoop L ed [s] nsc ns)"
  by (induction xs) auto

lemma identify_secret_absent:
  assumes "DeletionTimestamp nsc = None" and "find (\<lambda>s. Name s = secret_name nsc) xs = None"
  shows "IdentifyReconcileFuncForSecret L ed xs nsc ns = Some (CreateReconcile, None)"
  using assms
  by (simp add: IdentifyReconcileFuncForSecret_def shouldReconcileByDeleteFunc_def
      shouldReconcileSecretByCreateFunc_def find_None_iff list_ex_iff)

lemma identify_secret_exists:
  assumes "DeletionTimestamp nsc = None" and s: "find (\<lambda>s. Name s = secret_name nsc) xs = Some s"
  shows "IdentifyReconcileFuncForSecret L ed xs nsc ns = do {
     new \<leftarrow> configureSecret ed nsc ns;
     Some (if StringData s \<noteq> StringData new \<and> \<not> labels_Matches L (Labels s) (Some secretSelector)
       then ('''', Some (ErrorString (''a secret '' @ Quote (Name s) @ '' does not have a label '' @
              NFSStorageClassManagedLabelKey @ ''='' @ NFSStorageClassManagedLabelValue)))
       else if StringData s \<noteq> StringData new \<or> \<not> labels_Matches L (Labels s) (Some secretSelector)
       then (UpdateReconcile, None)
       else ('''', None))
   }"
proof -
  from s have "Name s = secret_name nsc" and "\<not> shouldReconcileSecretByCreateFunc xs nsc"
    by (auto simp: shouldReconcileSecretByCreateFunc_def list_ex_iff dest!: find_SomeD)
  then show ?thesis
    using assms secretUpdateLoop_find [of L ed xs nsc ns]
    by (cases "configureSecret ed nsc ns")
      (auto simp: IdentifyReconcileFuncForSecret_def shouldReconcileByDeleteFunc_def
        shouldReconcileSecretByUpdateFunc_def)
qed

section \<open>Properties\<close>



text \<open>Reconciliation of the StorageClass converges: once the API server has stored the object that
  \<open>ConfigureStorageClass\<close> produced (it may drop empty fields and set its own metadata), the next
  \<open>IdentifyReconcileFuncForStorageClass\<close> finds nothing to do, provided the NFS version is set, as the
  CRD requires.\<close>

lemma configured_sc_is_stable:
  assumes "lib_laws L"
    and "Connection (Spec nsc) = Some c" and "NFSVersion c \<noteq> ''''" and "DeletionTimestamp nsc = None"
    and "ConfigureStorageClass L ed old nsc ns ps = Some sc"
    and "same_object (wire_sc sc) y" and "findStorageClass scList (Name nsc) = Some y"
  shows "\<exists>sc'. IdentifyReconcileFuncForStorageClass L ed scList nsc ns ps = Some ('''', Some y, Some sc')"
proof -
  obtain sc' where "ConfigureStorageClass L ed (Some y) nsc ns ps = Some sc'" "sc_in_sync y sc'"
    using lib_laws.sc_fixed_point [OF assms(1,2,3,5,6)] by blast
  with lib_laws.identify_sc_exists [OF assms(1,7,4)] show ?thesis by simp
qed

lemma sample_configure:
  "\<exists>sc. ConfigureStorageClass L ed old sample_nsc ns ps = Some sc"
  using ConfigureStorageClass_panic [of L ed old sample_nsc ns ps] by (auto simp: sample_defs)

text \<open>Label propagation does not depend on the order in which Go enumerates the map, and keeps
  exactly the labels whose key starts with none of the non-empty ignored prefixes.\<close>

lemma label_filter_any_order:
  assumes "enumerates es (smap_of src)"
  shows "fold (\<lambda>(k, v). filter_label_body ps k v) es fmempty = filterLabelsForStorageClass src ps \<and>
    fmlookup (filterLabelsForStorageClass src ps) k =
      (if \<exists>p \<in> set ps. p \<noteq> '''' \<and> prefix p k then None else fmlookup (smap_of src) k)"
  using fold_filter_labels [OF assms]
  by (auto simp: filterLabels_eq isIgnoredLabelKey_iff)

text \<open>Every configured StorageClass carries the managed-by label of this controller, whatever the
  NFSStorageClass says; every other label is copied from the NFSStorageClass unless it is ignored.\<close>

lemma sc_label_policy:
  assumes "ConfigureStorageClass L ed old nsc ns ps = Some sc"
  shows "fmlookup (smap_of (Labels sc)) k =
    (if k = NFSStorageClassManagedLabelKey then Some NFSStorageClassManagedLabelValue
     else if isIgnoredLabelKey k ps then None
     else fmlookup (smap_of (Labels nsc)) k)"
  using ConfigureStorageClass_fields(6) [OF assms] by (simp add: desired_labels_def)

text \<open>The VolumeSnapshotClass converges in the same way: a stored configured object is left alone.\<close>

lemma configured_vsc_is_stable:
  assumes "lib_laws L" and "DeletionTimestamp nsc = None"
    and "ConfigureVSClass L ed old nsc ns = Some v"
    and "same_object (wire_vsclass v) y" and "findVSClass vsClassList (Name nsc) = Some y"
  shows "\<exists>v'. IdentifyReconcileFuncForVSClass L ed vsClassList nsc ns = Some ('''', Some y, Some v')"
proof -
  obtain v' where "ConfigureVSClass L ed (Some y) nsc ns = Some v'" "vsc_in_sync y v'"
    using lib_laws.vsc_fixed_point [OF assms(1,3,4)] by blast
  with assms show ?thesis
    by (simp add: IdentifyReconcileFuncForVSClass_def shouldReconcileByDeleteFunc_def Let_def
        shouldReconcileVSClassByCreateFunc_def shouldReconcileVSClassByUpdateFunc_def
        lib_laws.compare_vsc_none)
qed

lemma sample_configure_vsc: "\<exists>v. ConfigureVSClass L ed old sample_nsc ns = Some v"
  using ConfigureVSClass_panic [of L ed old sample_nsc ns] by (auto simp: sample_defs)

text \<open>C40: The Secret does not converge: the API server never returns \<open>stringData\<close>, so for a Secret read
  back from it \<open>IdentifyReconcileFuncForSecret\<close> always asks for an update, or fails when the Secret
  carries a label other than the managed one.\<close>

theorem secret_never_settles:
  assumes "lib_laws L" and "DeletionTimestamp nsc = None" and "Connection (Spec nsc) \<noteq> None"
    and "find (\<lambda>s. Name s = secret_name nsc) secretList = Some s" and "StringData s = None"
  shows "\<exists>e. IdentifyReconcileFuncForSecret L ed secretList nsc ns = Some
    (if smap_of (Labels s) \<subseteq>\<^sub>f secretSelector then (UpdateReconcile, None) else ('''', Some e))"
proof -
  obtain new where new: "configureSecret ed nsc ns = Some new"
    using assms(3) configureSecret_panic by (metis not_None_eq)
  show ?thesis
    using identify_secret_exists [OF assms(2,4), of L ed ns] configureSecret_fields(6) [OF new] new assms(5)
      lib_laws.Matches [OF assms(1)]
    by auto
qed

theorem secret_never_settles_witness:
  "\<exists>e. IdentifyReconcileFuncForSecret std_lib EE
     [sample_secret ''nfs-mount-options-for-nfs'' (Some secretSelector)] sample_nsc ''d8-csi-nfs'' =
     Some (if secretSelector \<subseteq>\<^sub>f secretSelector then (UpdateReconcile, None) else ('''', Some e))"
  using secret_never_settles [OF std.lib_laws_axioms, of sample_nsc
    "[sample_secret ''nfs-mount-options-for-nfs'' (Some secretSelector)]"
    "sample_secret ''nfs-mount-options-for-nfs'' (Some secretSelector)" EE "''d8-csi-nfs''"]
  by (simp add: sample_defs SecretForMountOptionsPrefix_def)

text \<open>The label check on an existing Secret is turned around (the selector is built from the Secret's
  labels): a Secret without any label passes it, and a Secret that has the managed label and one more
  label is rejected with the message that it does not have the managed label.\<close>

lemma secret_label_check_inverted:
  assumes "lib_laws L" and "DeletionTimestamp nsc = None" and "Connection (Spec nsc) \<noteq> None"
    and "find (\<lambda>s. Name s = secret_name nsc) secretList = Some s" and "StringData s = None"
  shows "(Labels s = None \<longrightarrow>
      IdentifyReconcileFuncForSecret L ed secretList nsc ns = Some (UpdateReconcile, None)) \<and>
    (k \<noteq> NFSStorageClassManagedLabelKey \<and> Labels s = Some (fmupd k v secretSelector) \<longrightarrow>
      IdentifyReconcileFuncForSecret L ed secretList nsc ns = Some ('''', Some (ErrorString
        (''a secret '' @ Quote (Name s) @ '' does not have a label '' @
         NFSStorageClassManagedLabelKey @ ''='' @ NFSStorageClassManagedLabelValue))))"
proof -
  obtain new where new: "configureSecret ed nsc ns = Some new"
    using assms(3) configureSecret_panic by (metis not_None_eq)
  have extra: "\<not> fmupd k v secretSelector \<subseteq>\<^sub>f secretSelector" if "k \<noteq> NFSStorageClassManagedLabelKey"
    using that by (auto simp: secretSelector_def fmsubset_alt_def fmpred_iff)
  have none: "fmempty \<subseteq>\<^sub>f secretSelector" by (simp add: fmsubset_alt_def)
  show ?thesis
    using identify_secret_exists [OF assms(2,4), of L ed ns] configureSecret_fields(6) [OF new] new assms(5)
      lib_laws.Matches [OF assms(1)] extra none
    by auto
qed

end
