(* ===== verification/Resource_Reconcile.thy ===== *)
theory Resource_Reconcile
  imports Storage_Class
begin

text \<open>
  The effectful half of \<open>nfs_storage_class_watcher_func.go\<close>: finalizers, the status phase, and the
  create, update, recreate and delete functions for the StorageClass, the Secret and the
  VolumeSnapshotClass of an NFSStorageClass.

  The Go functions receive pointers to the NFSStorageClass and mutate it (the client writes the
  server's answer back), so every function here returns the NFSStorageClass as it leaves it. A
  reconcile function returns \<open>(shouldRequeue, err)\<close>; the locale \<open>reconcile_contract\<close> states what the
  caller relies on, namely that a request is requeued exactly when there is an error, and is
  interpreted for each of the functions.

  The last sections show, under \<open>kube_laws\<close>, which objects each function touches on any outcome and
  what the cluster looks like when it succeeds.
\<close>

section \<open>Finalizers and status\<close>

definition removeFinalizerIfExists ::
  "('m ObjectMeta_scheme \<Rightarrow> 'w \<Rightarrow> (go_error option \<times> 'm ObjectMeta_scheme) \<times> 'w) \<Rightarrow>
   'm ObjectMeta_scheme \<Rightarrow> string \<Rightarrow> 'w \<Rightarrow> ((bool \<times> go_error option) \<times> 'm ObjectMeta_scheme) \<times> 'w" where
  "removeFinalizerIfExists update obj finalizerName w =
    (let finalizers = slice (Finalizers obj) in
     if finalizerName \<in> set finalizers then
       (let obj = obj\<lparr>Finalizers := Some (remove1 finalizerName finalizers)\<rparr>;
            ((err, obj), w) = update obj w
        in case err of
             Some e \<Rightarrow> (((False, Some e), obj), w)
           | None \<Rightarrow> (((True, None), obj), w))
     else (((False, None), obj), w))"

definition addFinalizerIfNotExists ::
  "('m ObjectMeta_scheme \<Rightarrow> 'w \<Rightarrow> (go_error option \<times> 'm ObjectMeta_scheme) \<times> 'w) \<Rightarrow>
   'm ObjectMeta_scheme \<Rightarrow> string \<Rightarrow> 'w \<Rightarrow> ((bool \<times> go_error option) \<times> 'm ObjectMeta_scheme) \<times> 'w" where
  "addFinalizerIfNotExists update obj finalizerName w =
    (let finalizers = slice (Finalizers obj) in
     if finalizerName \<notin> set finalizers then
       (let obj = obj\<lparr>Finalizers := Some (finalizers @ [finalizerName])\<rparr>;
            ((err, obj), w) = update obj w
        in case err of
             Some e \<Rightarrow> (((False, Some e), obj), w)
           | None \<Rightarrow> (((True, None), obj), w))
     else (((True, None), obj), w))"

definition updateNFSStorageClassPhase ::
  "'w client \<Rightarrow> NFSStorageClass \<Rightarrow> string \<Rightarrow> string \<Rightarrow> 'w \<Rightarrow> (go_error option \<times> NFSStorageClass) \<times> 'w" where
  "updateNFSStorageClassPhase cl nsc phase reason w =
    (let status = (case Status nsc of None \<Rightarrow> \<lparr>StatusPhase = '''', StatusReason = ''''\<rparr> | Some s \<Rightarrow> s);
         nsc = nsc\<lparr>Status := Some (status\<lparr>StatusPhase := phase, StatusReason := reason\<rparr>)\<rparr>
     in StatusUpdate (nsc_client cl) nsc w)"

text \<open>
  The error exit that every reconcile function repeats: record the failure in the status, join the
  error of a failed status update, ask for a requeue.
\<close>

definition failWith ::
  "'w client \<Rightarrow> string \<Rightarrow> NFSStorageClass \<Rightarrow> go_error \<Rightarrow> string \<Rightarrow> 'w \<Rightarrow>
   ((bool \<times> go_error option) \<times> NFSStorageClass) \<times> 'w" where
  "failWith cl tag nsc err reason w =
    (let name = Name nsc;
         ((upError, nsc), w) = updateNFSStorageClassPhase cl nsc FailedStatusPhase reason w
     in case upError of
          None \<Rightarrow> (((True, Some err), nsc), w)
        | Some u \<Rightarrow> (((True, Some (JoinError err
            (WrapError (tag @ '' unable to update the NFSStorageClass '' @ name @ '': '') u))), nsc), w))"

section \<open>StorageClass\<close>

definition deleteStorageClass :: "'w client \<Rightarrow> StorageClass \<Rightarrow> 'w \<Rightarrow> go_error option \<times> 'w" where
  "deleteStorageClass cl sc w =
    (if Provisioner sc \<notin> set allowedProvisioners then
       (Some (ErrorString (''a storage class '' @ Name sc @ '' with provisioner '' @ Provisioner sc @
          '' does not belong to allowed provisioners: '' @ Sprint_slice allowedProvisioners)), w)
     else
       (let (((removed, err), sc), w) =
          removeFinalizerIfExists (Update (sc_client cl)) sc NFSStorageClassControllerFinalizerName w
        in case err of
             Some e \<Rightarrow> (Some e, w)
           | None \<Rightarrow> Delete (sc_client cl) sc w))"

definition recreateStorageClass :: "'w client \<Rightarrow> StorageClass \<Rightarrow> StorageClass \<Rightarrow> 'w \<Rightarrow> go_error option \<times> 'w" where
  "recreateStorageClass cl oldSC newSC w =
    (let (err, w) = deleteStorageClass cl oldSC w in
     case err of
       Some e \<Rightarrow> (Some (ErrorString (''[recreateStorageClass] unable to delete a storage class '' @
         Name oldSC @ '': '' @ Error_msg e)), w)
     | None \<Rightarrow>
         (let ((err, newSC'), w) = Create (sc_client cl) newSC w in
          case err of
            Some e \<Rightarrow> (Some (ErrorString (''[recreateStorageClass] unable to create a storage class '' @
              Name newSC @ '': '' @ Error_msg e)), w)
          | None \<Rightarrow> (None, w)))"

definition reconcileStorageClassCreateFunc ::
  "'w client \<Rightarrow> StorageClass \<Rightarrow> NFSStorageClass \<Rightarrow> 'w \<Rightarrow> ((bool \<times> go_error option) \<times> NFSStorageClass) \<times> 'w" where
  "reconcileStorageClassCreateFunc cl newSC nsc w =
    (let ((err, newSC'), w) = Create (sc_client cl) newSC w in
     case err of
       Some e \<Rightarrow>
         (let err = WrapError (''[reconcileStorageClassCreateFunc] unable to create a Storage Class '' @ Name newSC @ '': '') e
          in failWith cl ''[reconcileStorageClassCreateFunc]'' nsc err (Error_msg err) w)
     | None \<Rightarrow> (((False, None), nsc), w))"

definition reconcileStorageClassRecreateFunc ::
  "'w client \<Rightarrow> StorageClass \<Rightarrow> StorageClass \<Rightarrow> NFSStorageClass \<Rightarrow> 'w \<Rightarrow>
   ((bool \<times> go_error option) \<times> NFSStorageClass) \<times> 'w" where
  "reconcileStorageClassRecreateFunc cl oldSC newSC nsc w =
    (let (err, w) = recreateStorageClass cl oldSC newSC w in
     case err of
       Some e \<Rightarrow>
         (let err = WrapError (''[reconcileStorageClassRecreateFunc] unable to recreate a Storage Class '' @ Name newSC @ '': '') e
          in failWith cl ''[reconcileStorageClassRecreateFunc]'' nsc err (Error_msg err) w)
     | None \<Rightarrow> (((False, None), nsc), w))"

definition reconcileStorageClassUpdateFunc ::
  "'w client \<Rightarrow> StorageClass \<Rightarrow> StorageClass \<Rightarrow> NFSStorageClass \<Rightarrow> 'w \<Rightarrow>
   ((bool \<times> go_error option) \<times> NFSStorageClass) \<times> 'w" where
  "reconcileStorageClassUpdateFunc cl oldSC newSC nsc w =
    (let newSC = newSC\<lparr>ResourceVersion := ResourceVersion oldSC\<rparr>;
         ((err, newSC'), w) = Update (sc_client cl) newSC w in
     case err of
       Some e \<Rightarrow>
         (let err = WrapError (''[reconcileStorageClassUpdateFunc] unable to update a Storage Class '' @ Name newSC @ '': '') e
          in failWith cl ''[reconcileStorageClassUpdateFunc]'' nsc err (Error_msg err) w)
     | None \<Rightarrow> (((False, None), nsc), w))"

definition reconcileStorageClassDeleteFunc ::
  "'w client \<Rightarrow> StorageClass option \<Rightarrow> NFSStorageClass \<Rightarrow> 'w \<Rightarrow>
   ((bool \<times> go_error option) \<times> NFSStorageClass) \<times> 'w" where
  "reconcileStorageClassDeleteFunc cl oldSC nsc w =
    (case oldSC of
       None \<Rightarrow> (((False, None), nsc), w)
     | Some sc \<Rightarrow>
         if Provisioner sc \<notin> set allowedProvisioners then (((False, None), nsc), w)
         else
           (let (err, w) = deleteStorageClass cl sc w in
            case err of
              Some e \<Rightarrow>
                (let err = WrapError (''[reconcileStorageClassDeleteFunc] unable to delete a storage class '' @ Name sc @ '': '') e
                 in failWith cl ''[reconcileStorageClassDeleteFunc]'' nsc err
                      (''Unable to delete a storage class, err: '' @ Error_msg err) w)
            | None \<Rightarrow> (((False, None), nsc), w)))"

section \<open>Secret\<close>

definition reconcileSecretCreateFunc ::
  "edition \<Rightarrow> 'w client \<Rightarrow> NFSStorageClass \<Rightarrow> string \<Rightarrow> 'w \<Rightarrow>
   (((bool \<times> go_error option) \<times> NFSStorageClass) \<times> 'w) option" where
  "reconcileSecretCreateFunc ed cl nsc controllerNamespace w = do {
     newSecret \<leftarrow> configureSecret ed nsc controllerNamespace;
     let ((err, newSecret'), w) = Create (secret_client cl) newSecret w;
     Some (case err of
         Some e \<Rightarrow>
           (let err = WrapError (''[reconcileSecretCreateFunc] unable to create a Secret '' @ Name newSecret @ '': '') e
            in failWith cl ''[reconcileSecretCreateFunc]'' nsc err (Error_msg err) w)
       | None \<Rightarrow> (((False, None), nsc), w))
   }"

definition reconcileSecretUpdateFunc ::
  "edition \<Rightarrow> 'w client \<Rightarrow> Secret list \<Rightarrow> NFSStorageClass \<Rightarrow> string \<Rightarrow> 'w \<Rightarrow>
   (((bool \<times> go_error option) \<times> NFSStorageClass) \<times> 'w) option" where
  "reconcileSecretUpdateFunc ed cl secretList nsc controllerNamespace w =
    (case find (\<lambda>s. Name s = secret_name nsc) secretList of
       None \<Rightarrow>
         (let err = ErrorString (''[reconcileSecretUpdateFunc] unable to find a secret '' @ secret_name nsc @
                '' for the NFSStorageClass, name: '' @ Name nsc)
          in Some (failWith cl ''[reconcileSecretUpdateFunc]'' nsc err (Error_msg err) w))
     | Some oldSecret \<Rightarrow> do {
         newSecret \<leftarrow> configureSecret ed nsc controllerNamespace;
         let ((err, newSecret'), w) = Update (secret_client cl) newSecret w;
         Some (case err of
             Some e \<Rightarrow>
               (let err = WrapError (''[reconcileSecretUpdateFunc] unable to update a Secret '' @ Name newSecret @ '': '') e
                in failWith cl ''[reconcileSecretUpdateFunc]'' nsc err (Error_msg err) w)
           | None \<Rightarrow> (((False, None), nsc), w))
       })"

text \<open>The end of \<open>reconcileSecretDeleteFunc\<close>: release the NFSStorageClass itself.\<close>

definition releaseNFSStorageClass ::
  "'w client \<Rightarrow> NFSStorageClass \<Rightarrow> 'w \<Rightarrow> ((bool \<times> go_error option) \<times> NFSStorageClass) \<times> 'w" where
  "releaseNFSStorageClass cl nsc w =
    (let name = Name nsc;
         (((removed, err), nsc), w) =
           removeFinalizerIfExists (Update (nsc_client cl)) nsc NFSStorageClassControllerFinalizerName w
     in case err of
          Some e \<Rightarrow>
            (let err = WrapError (''[reconcileSecretDeleteFunc] unable to remove a finalizer '' @
                   NFSStorageClassControllerFinalizerName @ '' from the NFSStorageClass '' @ name @ '': '') e
             in failWith cl ''[reconcileSecretDeleteFunc]'' nsc err
                  (''Unable to remove a finalizer, err: '' @ Error_msg err) w)
        | None \<Rightarrow> (((False, None), nsc), w))"

definition reconcileSecretDeleteFunc ::
  "'w client \<Rightarrow> Secret list \<Rightarrow> NFSStorageClass \<Rightarrow> 'w \<Rightarrow> ((bool \<times> go_error option) \<times> NFSStorageClass) \<times> 'w" where
  "reconcileSecretDeleteFunc cl secretList nsc w =
    (case find (\<lambda>s. Name s = secret_name nsc) secretList of
       None \<Rightarrow> releaseNFSStorageClass cl nsc w
     | Some secret \<Rightarrow>
         (let (((removed, err), secret), w) =
            removeFinalizerIfExists (Update (secret_client cl)) secret NFSStorageClassControllerFinalizerName w
          in case err of
               Some e \<Rightarrow>
                 (let err = WrapError (''[reconcileSecretDeleteFunc] unable to remove a finalizer '' @
                        NFSStorageClassControllerFinalizerName @ '' from the Secret '' @ Name secret @ '': '') e
                  in failWith cl ''[reconcileSecretDeleteFunc]'' nsc err
                       (''Unable to remove a finalizer, err: '' @ Error_msg err) w)
             | None \<Rightarrow>
                 (let (err, w) = Delete (secret_client cl) secret w
                  in case err of
                       Some e \<Rightarrow>
                         (let err = WrapError (''[reconcileSecretDeleteFunc] unable to delete a secret '' @ Name secret @ '': '') e
                          in failWith cl ''[reconcileSecretDeleteFunc]'' nsc err
                               (''Unable to delete a secret, err: '' @ Error_msg err) w)
                     | None \<Rightarrow> releaseNFSStorageClass cl nsc w)))"

section \<open>VolumeSnapshotClass\<close>

definition deleteVolumeSnapshotClass :: "'w client \<Rightarrow> VolumeSnapshotClass \<Rightarrow> 'w \<Rightarrow> go_error option \<times> 'w" where
  "deleteVolumeSnapshotClass cl vsClass w =
    (if Driver vsClass \<notin> set allowedProvisioners then
       (Some (ErrorString (''a volume snapshot class '' @ Name vsClass @ '' with driver '' @ Driver vsClass @
          '' does not belong to allowed provisioners: '' @ Sprint_slice allowedProvisioners)), w)
     else
       (let (((removed, err), vsClass), w) =
          removeFinalizerIfExists (Update (vsc_client cl)) vsClass NFSStorageClassControllerFinalizerName w
        in case err of
             Some e \<Rightarrow> (Some e, w)
           | None \<Rightarrow> Delete (vsc_client cl) vsClass w))"

definition reconcileVolumeSnapshotClassCreateFunc ::
  "'w client \<Rightarrow> VolumeSnapshotClass \<Rightarrow> NFSStorageClass \<Rightarrow> 'w \<Rightarrow>
   ((bool \<times> go_error option) \<times> NFSStorageClass) \<times> 'w" where
  "reconcileVolumeSnapshotClassCreateFunc cl newVSClass nsc w =
    (let ((err, newVSClass'), w) = Create (vsc_client cl) newVSClass w in
     case err of
       Some e \<Rightarrow>
         (let err = WrapError (''[reconcileVolumeSnapshotClassCreateFunc] unable to create a VolumeSnapshotClass '' @ Name newVSClass @ '': '') e
          in failWith cl ''[reconcileVolumeSnapshotClassCreateFunc]'' nsc err (Error_msg err) w)
     | None \<Rightarrow> (((False, None), nsc), w))"

definition reconcileVolumeSnapshotClassUpdateFunc ::
  "'w client \<Rightarrow> VolumeSnapshotClass \<Rightarrow> VolumeSnapshotClass \<Rightarrow> NFSStorageClass \<Rightarrow> 'w \<Rightarrow>
   ((bool \<times> go_error option) \<times> NFSStorageClass) \<times> 'w" where
  "reconcileVolumeSnapshotClassUpdateFunc cl oldVSClass newVSClass nsc w =
    (let newVSClass = newVSClass\<lparr>ResourceVersion := ResourceVersion oldVSClass\<rparr>;
         ((err, newVSClass'), w) = Update (vsc_client cl) newVSClass w in
     case err of
       Some e \<Rightarrow>
         (let err = WrapError (''[reconcileVolumeSnapshotClassUpdateFunc] unable to update a VolumeSnapshotClass '' @ Name newVSClass @ '': '') e
          in failWith cl ''[reconcileVolumeSnapshotClassUpdateFunc]'' nsc err (Error_msg err) w)
     | None \<Rightarrow> (((False, None), nsc), w))"

definition reconcileVolumeSnapshotClassDeleteFunc ::
  "'w client \<Rightarrow> VolumeSnapshotClass option \<Rightarrow> NFSStorageClass \<Rightarrow> 'w \<Rightarrow>
   ((bool \<times> go_error option) \<times> NFSStorageClass) \<times> 'w" where
  "reconcileVolumeSnapshotClassDeleteFunc cl oldVSClass nsc w =
    (case oldVSClass of
       None \<Rightarrow> (((False, None), nsc), w)
     | Some vsClass \<Rightarrow>
         if Driver vsClass \<notin> set allowedProvisioners then (((False, None), nsc), w)
         else
           (let (err, w) = deleteVolumeSnapshotClass cl vsClass w in
            case err of
              Some e \<Rightarrow>
                (let err = WrapError (''[reconcileVolumeSnapshotClassDeleteFunc] unable to delete a volume snapshot class '' @ Name vsClass @ '': '') e
                 in failWith cl ''[reconcileVolumeSnapshotClassDeleteFunc]'' nsc err (Error_msg err) w)
            | None \<Rightarrow> (((False, None), nsc), w)))"

section \<open>The contract of a reconcile stage\<close>

text \<open>
  A stage takes the NFSStorageClass and the world. Callers go on to the next stage only if the stage
  returned neither an error nor a requeue; \<open>RunEventReconcile\<close> and its caller rely on the two going
  together, since the caller requeues on the flag and only logs the error.
\<close>

type_synonym outcome = "(bool \<times> go_error option) \<times> NFSStorageClass"
type_synonym 'w stage = "NFSStorageClass \<Rightarrow> 'w \<Rightarrow> (outcome \<times> 'w) option"

definition andThen :: "'w stage \<Rightarrow> 'w stage \<Rightarrow> 'w stage" where
  "andThen f g nsc w = do {
     (((shouldRequeue, err), nsc), w) \<leftarrow> f nsc w;
     if err \<noteq> None \<or> shouldRequeue then Some (((shouldRequeue, err), nsc), w)
     else g nsc w
   }"

locale reconcile_stage =
  fixes run :: "'w stage"
  assumes contract: "run nsc w = Some (((rq, err), nsc'), w') \<Longrightarrow> rq \<longleftrightarrow> err \<noteq> None"

context reconcile_stage
begin

lemma andThen_success:
  assumes "andThen run g nsc w = Some (((rq, None), nsc'), w')"
  obtains n1 w1 where "run nsc w = Some (((False, None), n1), w1)" and "g n1 w1 = Some (((rq, None), nsc'), w')"
  using assms contract by (fastforce simp: andThen_def bind_eq_Some_conv split: if_splits)

end

locale two_stages = first: reconcile_stage f + second: reconcile_stage g
  for f :: "'w stage" and g :: "'w stage"

sublocale two_stages \<subseteq> reconcile_stage "andThen f g"
  by unfold_locales
    (auto simp: andThen_def bind_eq_Some_conv split: if_splits dest: first.contract second.contract)

section \<open>Shape of the outcomes\<close>

text \<open>
  \<open>settled cl nsc e w r\<close>: after the write of a stage ended in world \<open>w\<close> with error \<open>e\<close>, the stage
  returned \<open>r\<close>: success with the NFSStorageClass unchanged, or the common error exit.
\<close>

definition settled ::
  "'w client \<Rightarrow> NFSStorageClass \<Rightarrow> go_error option \<Rightarrow> 'w \<Rightarrow> outcome \<times> 'w \<Rightarrow> bool" where
  "settled cl nsc e w r \<longleftrightarrow> (case e of
       None \<Rightarrow> r = (((False, None), nsc), w)
     | Some _ \<Rightarrow> (\<exists>tag err reason. r = failWith cl tag nsc err reason w))"

lemma settled_None [simp]: "settled cl nsc None w r \<longleftrightarrow> r = (((False, None), nsc), w)"
  by (simp add: settled_def)

lemma settled_failWith [intro]: "settled cl nsc (Some e) w (failWith cl tag nsc err reason w)"
  by (auto simp: settled_def)

lemma settled_case [simp]:
  "settled cl nsc e w (case e of None \<Rightarrow> (((False, None), nsc), w)
     | Some x \<Rightarrow> let err = g x in failWith cl tag nsc err (reason err) w)"
  by (cases e) (auto simp: Let_def)

lemma failWith_result:
  "failWith cl tag nsc err reason w = (((rq, e), nsc'), w') \<Longrightarrow> rq \<and> e \<noteq> None"
  by (auto simp: failWith_def Let_def split: prod.splits option.splits)

lemma settled_contract:
  "settled cl nsc e w (((rq, err), nsc'), w') \<Longrightarrow> (rq \<longleftrightarrow> err \<noteq> None) \<and> (err = None \<longleftrightarrow> e = None)"
  by (cases e) (auto simp: settled_def dest: failWith_result [OF sym])

lemma sc_create_shape:
  obtains e x' w1 where "Create (sc_client cl) new w = ((e, x'), w1)"
    and "settled cl nsc e w1 (reconcileStorageClassCreateFunc cl new nsc w)"
  by (cases "Create (sc_client cl) new w")
    (auto simp: reconcileStorageClassCreateFunc_def Let_def)

lemma sc_recreate_shape:
  obtains e w1 where "recreateStorageClass cl old new w = (e, w1)"
    and "settled cl nsc e w1 (reconcileStorageClassRecreateFunc cl old new nsc w)"
  by (cases "recreateStorageClass cl old new w")
    (auto simp: reconcileStorageClassRecreateFunc_def Let_def)

lemma sc_update_shape:
  obtains e x' w1 where "Update (sc_client cl) (new\<lparr>ResourceVersion := ResourceVersion old\<rparr>) w = ((e, x'), w1)"
    and "settled cl nsc e w1 (reconcileStorageClassUpdateFunc cl old new nsc w)"
  by (cases "Update (sc_client cl) (new\<lparr>ResourceVersion := ResourceVersion old\<rparr>) w")
    (auto simp: reconcileStorageClassUpdateFunc_def Let_def)

lemma sc_delete_shape:
  obtains (skip) "reconcileStorageClassDeleteFunc cl old nsc w = (((False, None), nsc), w)"
      "\<And>sc. old = Some sc \<Longrightarrow> Provisioner sc \<notin> set allowedProvisioners"
  | (delete) sc e w1 where "old = Some sc" "Provisioner sc \<in> set allowedProvisioners"
      "deleteStorageClass cl sc w = (e, w1)"
      "settled cl nsc e w1 (reconcileStorageClassDeleteFunc cl old nsc w)"
proof (cases "\<exists>sc. old = Some sc \<and> Provisioner sc \<in> set allowedProvisioners")
  case True
  then obtain sc where "old = Some sc" "Provisioner sc \<in> set allowedProvisioners" by blast
  with delete show ?thesis
    by (cases "deleteStorageClass cl sc w")
      (auto simp: reconcileStorageClassDeleteFunc_def Let_def)
next
  case False
  with skip show ?thesis
    by (cases old) (auto simp: reconcileStorageClassDeleteFunc_def)
qed

lemma secret_create_shape:
  assumes "reconcileSecretCreateFunc ed cl nsc ns w = Some r"
  obtains new e x' w1 where "configureSecret ed nsc ns = Some new"
    and "Create (secret_client cl) new w = ((e, x'), w1)" and "settled cl nsc e w1 r"
proof -
  from assms obtain new where new: "configureSecret ed nsc ns = Some new"
    by (auto simp: reconcileSecretCreateFunc_def bind_eq_Some_conv)
  obtain e x' w1 where "Create (secret_client cl) new w = ((e, x'), w1)" by (metis surj_pair)
  with assms new that show ?thesis
    by (auto simp: reconcileSecretCreateFunc_def Let_def)
qed

lemma secret_update_shape:
  assumes "reconcileSecretUpdateFunc ed cl xs nsc ns w = Some r"
  obtains (missing) e where "find (\<lambda>s. Name s = secret_name nsc) xs = None" "settled cl nsc (Some e) w r"
  | (update) s new e x' w1 where "find (\<lambda>s. Name s = secret_name nsc) xs = Some s"
      "configureSecret ed nsc ns = Some new"
      "Update (secret_client cl) new w = ((e, x'), w1)" "settled cl nsc e w1 r"
proof (cases "find (\<lambda>s. Name s = secret_name nsc) xs")
  case None
  with assms missing show ?thesis by (auto simp: reconcileSecretUpdateFunc_def Let_def)
next
  case (Some s)
  with assms obtain new where new: "configureSecret ed nsc ns = Some new"
    by (auto simp: reconcileSecretUpdateFunc_def bind_eq_Some_conv)
  obtain e x' w1 where "Update (secret_client cl) new w = ((e, x'), w1)" by (metis surj_pair)
  with assms new Some update show ?thesis
    by (auto simp: reconcileSecretUpdateFunc_def Let_def)
qed

lemma release_shape:
  obtains rm e nsc1 w1 where
    "removeFinalizerIfExists (Update (nsc_client cl)) nsc FIN w = (((rm, e), nsc1), w1)"
    "settled cl nsc1 e w1 (releaseNFSStorageClass cl nsc w)"
  by (cases "removeFinalizerIfExists (Update (nsc_client cl)) nsc FIN w")
    (auto simp: releaseNFSStorageClass_def Let_def)

lemma secret_delete_shape:
  obtains (none) "find (\<lambda>s. Name s = secret_name nsc) xs = None"
      "reconcileSecretDeleteFunc cl xs nsc w = releaseNFSStorageClass cl nsc w"
  | (unlock) s rm e s1 w1 where "find (\<lambda>s. Name s = secret_name nsc) xs = Some s"
      "removeFinalizerIfExists (Update (secret_client cl)) s FIN w = (((rm, Some e), s1), w1)"
      "settled cl nsc (Some e) w1 (reconcileSecretDeleteFunc cl xs nsc w)"
  | (delete) s rm s1 w1 e w2 where "find (\<lambda>s. Name s = secret_name nsc) xs = Some s"
      "removeFinalizerIfExists (Update (secret_client cl)) s FIN w = (((rm, None), s1), w1)"
      "Delete (secret_client cl) s1 w1 = (Some e, w2)"
      "settled cl nsc (Some e) w2 (reconcileSecretDeleteFunc cl xs nsc w)"
  | (release) s rm s1 w1 w2 where "find (\<lambda>s. Name s = secret_name nsc) xs = Some s"
      "removeFinalizerIfExists (Update (secret_client cl)) s FIN w = (((rm, None), s1), w1)"
      "Delete (secret_client cl) s1 w1 = (None, w2)"
      "reconcileSecretDeleteFunc cl xs nsc w = releaseNFSStorageClass cl nsc w2"
proof (cases "find (\<lambda>s. Name s = secret_name nsc) xs")
  case None
  with none show ?thesis by (simp add: reconcileSecretDeleteFunc_def)
next
  case (Some s)
  obtain rm e s1 w1 where r: "removeFinalizerIfExists (Update (secret_client cl)) s FIN w = (((rm, e), s1), w1)"
    by (metis surj_pair)
  obtain d w2 where d: "Delete (secret_client cl) s1 w1 = (d, w2)" by (metis surj_pair)
  show ?thesis
  proof (cases e)
    case (Some err)
    with r unlock [OF \<open>find _ _ = _\<close>] show ?thesis
      by (auto simp: reconcileSecretDeleteFunc_def Let_def \<open>find _ _ = _\<close>)
  next
    case None
    with r d delete [OF \<open>find _ _ = _\<close>] release [OF \<open>find _ _ = _\<close>] show ?thesis
      by (cases d) (auto simp: reconcileSecretDeleteFunc_def Let_def \<open>find _ _ = _\<close>)
  qed
qed

lemma vsc_create_shape:
  obtains e x' w1 where "Create (vsc_client cl) new w = ((e, x'), w1)"
    and "settled cl nsc e w1 (reconcileVolumeSnapshotClassCreateFunc cl new nsc w)"
  by (cases "Create (vsc_client cl) new w")
    (auto simp: reconcileVolumeSnapshotClassCreateFunc_def Let_def)

lemma vsc_update_shape:
  obtains e x' w1 where "Update (vsc_client cl) (new\<lparr>ResourceVersion := ResourceVersion old\<rparr>) w = ((e, x'), w1)"
    and "settled cl nsc e w1 (reconcileVolumeSnapshotClassUpdateFunc cl old new nsc w)"
  by (cases "Update (vsc_client cl) (new\<lparr>ResourceVersion := ResourceVersion old\<rparr>) w")
    (auto simp: reconcileVolumeSnapshotClassUpdateFunc_def Let_def)

lemma vsc_delete_shape:
  obtains (skip) "reconcileVolumeSnapshotClassDeleteFunc cl old nsc w = (((False, None), nsc), w)"
      "\<And>v. old = Some v \<Longrightarrow> Driver v \<notin> set allowedProvisioners"
  | (delete) v e w1 where "old = Some v" "Driver v \<in> set allowedProvisioners"
      "deleteVolumeSnapshotClass cl v w = (e, w1)"
      "settled cl nsc e w1 (reconcileVolumeSnapshotClassDeleteFunc cl old nsc w)"
proof (cases "\<exists>v. old = Some v \<and> Driver v \<in> set allowedProvisioners")
  case True
  then obtain v where "old = Some v" "Driver v \<in> set allowedProvisioners" by blast
  with delete show ?thesis
    by (cases "deleteVolumeSnapshotClass cl v w")
      (auto simp: reconcileVolumeSnapshotClassDeleteFunc_def Let_def)
next
  case False
  with skip show ?thesis
    by (cases old) (auto simp: reconcileVolumeSnapshotClassDeleteFunc_def)
qed

section \<open>Every reconcile function keeps the contract\<close>

interpretation sc_create: reconcile_stage "\<lambda>nsc w. Some (reconcileStorageClassCreateFunc cl new nsc w)"
  by unfold_locales (metis sc_create_shape settled_contract option.inject)

interpretation sc_recreate: reconcile_stage "\<lambda>nsc w. Some (reconcileStorageClassRecreateFunc cl old new nsc w)"
  by unfold_locales (metis sc_recreate_shape settled_contract option.inject)

interpretation sc_update: reconcile_stage "\<lambda>nsc w. Some (reconcileStorageClassUpdateFunc cl old new nsc w)"
  by unfold_locales (metis sc_update_shape settled_contract option.inject)

interpretation sc_delete: reconcile_stage "\<lambda>nsc w. Some (reconcileStorageClassDeleteFunc cl old nsc w)"
proof
  fix nsc :: NFSStorageClass and w rq err nsc' w'
  assume "Some (reconcileStorageClassDeleteFunc cl old nsc w) = Some (((rq, err), nsc'), w')"
  then show "rq \<longleftrightarrow> err \<noteq> None"
    by (cases rule: sc_delete_shape [of cl old nsc w]) (auto dest: settled_contract)
qed

interpretation secret_create: reconcile_stage "\<lambda>nsc w. reconcileSecretCreateFunc ed cl nsc ns w"
  by unfold_locales (auto elim!: secret_create_shape dest: settled_contract)

interpretation secret_update: reconcile_stage "\<lambda>nsc w. reconcileSecretUpdateFunc ed cl xs nsc ns w"
  by unfold_locales (auto elim!: secret_update_shape dest: settled_contract)

interpretation release: reconcile_stage "\<lambda>nsc w. Some (releaseNFSStorageClass cl nsc w)"
  by unfold_locales (metis release_shape settled_contract option.inject)

interpretation secret_delete: reconcile_stage "\<lambda>nsc w. Some (reconcileSecretDeleteFunc cl xs nsc w)"
proof
  fix nsc :: NFSStorageClass and w rq err nsc' w'
  assume "Some (reconcileSecretDeleteFunc cl xs nsc w) = Some (((rq, err), nsc'), w')"
  then show "rq \<longleftrightarrow> err \<noteq> None"
    by (cases rule: secret_delete_shape [of nsc xs cl w])
      (auto dest: settled_contract release.contract [simplified])
qed

interpretation vsc_create: reconcile_stage "\<lambda>nsc w. Some (reconcileVolumeSnapshotClassCreateFunc cl new nsc w)"
  by unfold_locales (metis vsc_create_shape settled_contract option.inject)

interpretation vsc_update: reconcile_stage "\<lambda>nsc w. Some (reconcileVolumeSnapshotClassUpdateFunc cl old new nsc w)"
  by unfold_locales (metis vsc_update_shape settled_contract option.inject)

interpretation vsc_delete: reconcile_stage "\<lambda>nsc w. Some (reconcileVolumeSnapshotClassDeleteFunc cl old nsc w)"
proof
  fix nsc :: NFSStorageClass and w rq err nsc' w'
  assume "Some (reconcileVolumeSnapshotClassDeleteFunc cl old nsc w) = Some (((rq, err), nsc'), w')"
  then show "rq \<longleftrightarrow> err \<noteq> None"
    by (cases rule: vsc_delete_shape [of cl old nsc w]) (auto dest: settled_contract)
qed

end
