(* ===== verification/Reconcile_Effects.thy ===== *)
theory Reconcile_Effects
  imports Resource_Reconcile
begin

text \<open>
  What the reconcile functions of theory \<open>Resource_Reconcile\<close> do to the cluster, under \<open>kube_laws\<close>.

  \<^item> \<open>touches\<close> is the footprint of an NFSStorageClass: itself, the StorageClass and the
    VolumeSnapshotClass of the same name, and one Secret. Every function stays inside it, whether it
    succeeds or fails.
  \<^item> \<open>dismissed\<close> is the result of a successful deletion: the object is gone, or it is terminating and
    held only by the finalizers of others.
  \<^item> For the functions that succeed, the lemmas \<open>*_ok\<close> give the stored object.
\<close>

section \<open>Footprint\<close>

definition touches :: "string \<Rightarrow> key \<Rightarrow> cluster \<Rightarrow> cluster \<Rightarrow> bool" where
  "touches n k c c' \<longleftrightarrow> (\<exists>a b s v. c' = c\<lparr>
     nscs := (nscs c)(('''', n) := a), scs := (scs c)(('''', n) := b),
     secrets := (secrets c)(k := s), vscs := (vscs c)(('''', n) := v)\<rparr>)"

lemma touches_refl [simp]: "touches n k c c"
  unfolding touches_def
  by (rule exI [of _ "nscs c ('''', n)"], rule exI [of _ "scs c ('''', n)"],
      rule exI [of _ "secrets c k"], rule exI [of _ "vscs c ('''', n)"]) simp

lemma touches_trans: "touches n k c c' \<Longrightarrow> touches n k c' c'' \<Longrightarrow> touches n k c c''"
  unfolding touches_def by fastforce

lemma touches_upd:
  "touches n k c (nscs_update (\<lambda>s. s(('''', n) := a)) c)"
  "touches n k c (scs_update (\<lambda>s. s(('''', n) := b)) c)"
  "touches n k c (secrets_update (\<lambda>s. s(k := x)) c)"
  "touches n k c (vscs_update (\<lambda>s. s(('''', n) := v)) c)"
proof -
  show "touches n k c (nscs_update (\<lambda>s. s(('''', n) := a)) c)" unfolding touches_def
    by (rule exI [of _ a], rule exI [of _ "scs c ('''', n)"],
      rule exI [of _ "secrets c k"], rule exI [of _ "vscs c ('''', n)"]) simp
  show "touches n k c (scs_update (\<lambda>s. s(('''', n) := b)) c)" unfolding touches_def
    by (rule exI [of _ "nscs c ('''', n)"], rule exI [of _ b],
      rule exI [of _ "secrets c k"], rule exI [of _ "vscs c ('''', n)"]) simp
  show "touches n k c (secrets_update (\<lambda>s. s(k := x)) c)" unfolding touches_def
    by (rule exI [of _ "nscs c ('''', n)"], rule exI [of _ "scs c ('''', n)"],
      rule exI [of _ x], rule exI [of _ "vscs c ('''', n)"]) simp
  show "touches n k c (vscs_update (\<lambda>s. s(('''', n) := v)) c)" unfolding touches_def
    by (rule exI [of _ "nscs c ('''', n)"], rule exI [of _ "scs c ('''', n)"],
      rule exI [of _ "secrets c k"], rule exI [of _ v]) simp
qed

section \<open>One kind\<close>

definition dismissed :: "string list \<Rightarrow> 'm ObjectMeta_scheme option \<Rightarrow> bool" where
  "dismissed fs v \<longleftrightarrow> (if fs = [] then v = None
     else (\<exists>y. v = Some y \<and> fins y = fs \<and> DeletionTimestamp y \<noteq> None))"

text \<open>\<open>writes upd k c c'\<close>: at most the object at \<open>k\<close> of one kind was written.\<close>

definition writes :: "(('a store \<Rightarrow> 'a store) \<Rightarrow> cluster \<Rightarrow> cluster) \<Rightarrow> key \<Rightarrow> cluster \<Rightarrow> cluster \<Rightarrow> bool" where
  "writes upd k c c' \<longleftrightarrow> c' = c \<or> (\<exists>v. c' = upd (\<lambda>s. s(k := v)) c)"

lemma writes_refl [simp]: "writes upd k c c"
  by (simp add: writes_def)

lemma writes_upd [intro]: "writes upd k c (upd (\<lambda>s. s(k := v)) c)"
  by (auto simp: writes_def)

lemma slice_Some [simp]: "slice (Some xs) = xs"
  by (simp add: slice_def)

lemma fins_update [simp]: "fins (x\<lparr>Finalizers := Some fs\<rparr>) = fs"
  by (simp add: fins_def)

lemma remove_finalizer_cases:
  assumes "removeFinalizerIfExists update x f w = (((rm, e), x1), w1)"
  obtains (absent) "f \<notin> set (fins x)" "e = None" "x1 = x" "w1 = w"
  | (present) "f \<in> set (fins x)" "update (x\<lparr>Finalizers := Some (remove1 f (fins x))\<rparr>) w = ((e, x1), w1)"
proof (cases "f \<in> set (fins x)")
  case True
  obtain e' y w' where u: "update (x\<lparr>Finalizers := Some (remove1 f (fins x))\<rparr>) w = ((e', y), w')"
    by (cases "update (x\<lparr>Finalizers := Some (remove1 f (fins x))\<rparr>) w") auto
  with True assms have "e' = e \<and> y = x1 \<and> w' = w1"
    by (cases e') (simp_all add: removeFinalizerIfExists_def fins_def)
  with True u present show ?thesis by simp
next
  case False
  with assms have "e = None \<and> x1 = x \<and> w1 = w" by (simp add: removeFinalizerIfExists_def fins_def)
  with False absent show ?thesis by blast
qed

lemma add_finalizer_cases:
  assumes "addFinalizerIfNotExists update x f w = (((added, e), x1), w1)"
  obtains (present) "f \<in> set (fins x)" "e = None" "x1 = x" "w1 = w"
  | (absent) "f \<notin> set (fins x)" "update (x\<lparr>Finalizers := Some (fins x @ [f])\<rparr>) w = ((e, x1), w1)"
proof (cases "f \<in> set (fins x)")
  case False
  obtain e' y w' where u: "update (x\<lparr>Finalizers := Some (fins x @ [f])\<rparr>) w = ((e', y), w')"
    by (cases "update (x\<lparr>Finalizers := Some (fins x @ [f])\<rparr>) w") auto
  with False assms have "e' = e \<and> y = x1 \<and> w' = w1"
    by (cases e') (simp_all add: addFinalizerIfNotExists_def fins_def)
  with False u absent show ?thesis by simp
next
  case True
  with assms have "e = None \<and> x1 = x \<and> w1 = w" by (simp add: addFinalizerIfNotExists_def fins_def)
  with True present show ?thesis by blast
qed

context kind_laws
begin

lemma writes_trans: "writes upd k c c1 \<Longrightarrow> writes upd k c1 c2 \<Longrightarrow> writes upd k c c2"
  by (auto simp: writes_def upd_upd)

lemma remove_finalizer_frame:
  assumes "removeFinalizerIfExists (Update api) x f w = (((rm, e), x1), w1)"
  shows "writes upd (key x) (view w) (view w1) \<and> key x1 = key x"
  using assms
proof (cases rule: remove_finalizer_cases)
  case present
  from update_frame [OF present(2)] update_key [OF present(2)] show ?thesis
    by (auto simp: writes_def key_fins)
qed simp

lemma remove_and_delete_frame:
  assumes "removeFinalizerIfExists (Update api) x f w = (((rm, e), x1), w1)"
    and "Delete api x1 w1 = (d, w2)"
  shows "writes upd (key x) (view w) (view w2)"
proof -
  have "writes upd (key x) (view w1) (view w2)"
    using remove_finalizer_frame [OF assms(1)] delete_frame [OF assms(2)] by (auto simp: writes_def)
  with remove_finalizer_frame [OF assms(1)] show ?thesis using writes_trans by blast
qed

lemma update_finalizers:
  assumes "Update api (x\<lparr>Finalizers := Some fs\<rparr>) w = ((None, x1), w1)"
    and "sel (view w) (key x) = Some x"
  shows "same_object (wire (x\<lparr>Finalizers := Some fs\<rparr>)) x1 \<and> fins x1 = fs \<and>
    DeletionTimestamp x1 = DeletionTimestamp x \<and>
    view w1 = upd (\<lambda>s. s(key x := (if DeletionTimestamp x \<noteq> None \<and> fs = [] then None else Some x1))) (view w)"
proof -
  from update_ok [OF assms(1)] assms(2) have
    same: "same_object (wire (x\<lparr>Finalizers := Some fs\<rparr>)) x1" and
    rest: "DeletionTimestamp x1 = DeletionTimestamp x"
      "view w1 = upd (\<lambda>s. s(key x := (if DeletionTimestamp x \<noteq> None \<and> fins x1 = [] then None else Some x1))) (view w)"
    by (auto simp: key_fins)
  from same_object_meta(6) [OF same] have "fins x1 = fs" by (simp add: wire_fins)
  with same rest show ?thesis by simp
qed

lemma remove_and_delete:
  assumes stored: "sel (view w) (key x) = Some x"
    and rem: "removeFinalizerIfExists (Update api) x f w = (((rm, None), x1), w1)"
    and del: "Delete api x1 w1 = (None, w2)"
  shows "\<exists>v. view w2 = upd (\<lambda>s. s(key x := v)) (view w) \<and> dismissed (remove1 f (fins x)) v"
proof -
  have "key x1 = key x" using remove_finalizer_frame [OF rem] by blast
  with del obtain old where old: "sel (view w1) (key x) = Some old"
    and v: "if fins old = [] then view w2 = upd (\<lambda>s. s(key x := None)) (view w1)
         else \<exists>y. same_object old y \<and> DeletionTimestamp y \<noteq> None \<and>
                  view w2 = upd (\<lambda>s. s(key x := Some y)) (view w1)"
    by (metis delete_ok)
  have "writes upd (key x) (view w) (view w1) \<and> fins old = remove1 f (fins x)"
    using rem
  proof (cases rule: remove_finalizer_cases)
    case absent
    with stored old show ?thesis by (simp add: remove1_idem)
  next
    case present
    from update_finalizers [OF present(2) stored] old have "fins old = remove1 f (fins x)"
      by (auto simp: sel_upd split: if_splits)
    with remove_finalizer_frame [OF rem] show ?thesis by blast
  qed
  with v show ?thesis
    by (auto simp: dismissed_def writes_def upd_upd same_object_meta split: if_splits)
qed

end

section \<open>Footprints of the reconcile functions\<close>

text \<open>
  \<open>footprint view nsc k w nsc' w'\<close>: going from \<open>w\<close> to \<open>w'\<close> touched only what belongs to \<open>nsc\<close>, and
  \<open>nsc'\<close> still names the same object.
\<close>

definition footprint ::
  "('w \<Rightarrow> cluster) \<Rightarrow> NFSStorageClass \<Rightarrow> key \<Rightarrow> 'w \<Rightarrow> NFSStorageClass \<Rightarrow> 'w \<Rightarrow> bool" where
  "footprint view nsc k w nsc' w' \<longleftrightarrow> touches (Name nsc) k (view w) (view w') \<and> Name nsc' = Name nsc"

lemma footprint_refl [simp]: "footprint view nsc k w nsc w"
  by (simp add: footprint_def)

lemma footprint_trans:
  "footprint view nsc k w nsc1 w1 \<Longrightarrow> footprint view nsc1 k w1 nsc2 w2 \<Longrightarrow> footprint view nsc k w nsc2 w2"
  by (auto simp: footprint_def intro: touches_trans)

lemma writes_touches:
  "writes nscs_update ('''', n) c c' \<Longrightarrow> touches n k c c'"
  "writes scs_update ('''', n) c c' \<Longrightarrow> touches n k c c'"
  "writes secrets_update k c c' \<Longrightarrow> touches n k c c'"
  "writes vscs_update ('''', n) c c' \<Longrightarrow> touches n k c c'"
  by (auto simp: writes_def touches_upd)

lemma find_name: "find (\<lambda>x. Name x = n) xs = Some x \<Longrightarrow> Name x = n \<and> x \<in> set xs"
  by (auto dest: find_SomeD)

context kube_laws
begin

lemma status_footprint:
  assumes "updateNFSStorageClassPhase cl nsc ph reason w = ((e, nsc'), w')"
  shows "footprint view nsc k w nsc' w'"
proof -
  let ?s = "(case Status nsc of None \<Rightarrow> \<lparr>StatusPhase = '''', StatusReason = ''''\<rparr> | Some s \<Rightarrow> s)"
  have su: "StatusUpdate (nsc_client cl)
      (nsc\<lparr>Status := Some (?s\<lparr>StatusPhase := ph, StatusReason := reason\<rparr>)\<rparr>) w = ((e, nsc'), w')"
    using assms by (simp add: updateNFSStorageClassPhase_def Let_def)
  from status_frame [OF su] status_key [OF su] show ?thesis
    by (auto simp: footprint_def ckey_def touches_upd)
qed

lemma failWith_footprint:
  assumes "failWith cl tag nsc err reason w = ((r, nsc'), w')"
  shows "footprint view nsc k w nsc' w'"
  using assms
  by (auto simp: failWith_def Let_def split: prod.splits option.splits intro: status_footprint)

lemma settled_footprint:
  assumes "settled cl nsc e w1 ((r, nsc'), w')" and "touches (Name nsc) k (view w) (view w1)"
  shows "footprint view nsc k w nsc' w'"
proof (cases e)
  case None
  with assms show ?thesis by (simp add: footprint_def)
next
  case (Some err)
  with assms(1) obtain tag err' reason where "failWith cl tag nsc err' reason w1 = ((r, nsc'), w')"
    by (auto simp: settled_def)
  from failWith_footprint [OF this, of k] assms(2) show ?thesis
    by (auto simp: footprint_def intro: touches_trans)
qed

lemma deleteStorageClass_frame:
  assumes "deleteStorageClass cl sc w = (e, w')"
  shows "writes scs_update (ckey sc) (view w) (view w')"
  using assms
  by (auto simp: deleteStorageClass_def Let_def split: if_splits prod.splits option.splits
      dest: sc.remove_finalizer_frame intro: sc.remove_and_delete_frame)

lemma deleteVolumeSnapshotClass_frame:
  assumes "deleteVolumeSnapshotClass cl v w = (e, w')"
  shows "writes vscs_update (ckey v) (view w) (view w')"
  using assms
  by (auto simp: deleteVolumeSnapshotClass_def Let_def split: if_splits prod.splits option.splits
      dest: vsc.remove_finalizer_frame intro: vsc.remove_and_delete_frame)

lemma recreateStorageClass_frame:
  assumes "recreateStorageClass cl old new w = (e, w')" and "Name old = Name new"
  shows "writes scs_update (ckey new) (view w) (view w')"
proof -
  obtain d w1 where del: "deleteStorageClass cl old w = (d, w1)" by fastforce
  obtain c x' w2 where cr: "Create (sc_client cl) new w1 = ((c, x'), w2)" by (metis surj_pair)
  have 1: "writes scs_update (ckey new) (view w) (view w1)"
    using deleteStorageClass_frame [OF del] assms(2) by (simp add: ckey_def)
  have 2: "writes scs_update (ckey new) (view w1) (view w2)"
    using sc.create_frame [OF cr] by (auto simp: writes_def)
  have "w' = w1 \<or> w' = w2"
    using assms(1) del cr by (auto simp: recreateStorageClass_def Let_def split: option.splits)
  with 1 2 sc.writes_trans show ?thesis by blast
qed

lemma sc_create_footprint:
  assumes "reconcileStorageClassCreateFunc cl new nsc w = ((r, nsc'), w')" and "Name new = Name nsc"
  shows "footprint view nsc k w nsc' w'"
proof -
  obtain e x' w1 where c: "Create (sc_client cl) new w = ((e, x'), w1)"
    and s: "settled cl nsc e w1 ((r, nsc'), w')"
    using sc_create_shape [of cl new w nsc] assms(1) by metis
  from sc.create_frame [OF c] assms(2) have "touches (Name nsc) k (view w) (view w1)"
    by (auto simp: ckey_def touches_upd)
  with s show ?thesis by (rule settled_footprint)
qed

lemma sc_recreate_footprint:
  assumes "reconcileStorageClassRecreateFunc cl old new nsc w = ((r, nsc'), w')"
    and "Name new = Name nsc" and "Name old = Name nsc"
  shows "footprint view nsc k w nsc' w'"
proof -
  obtain e w1 where c: "recreateStorageClass cl old new w = (e, w1)"
    and s: "settled cl nsc e w1 ((r, nsc'), w')"
    using sc_recreate_shape [of cl old new w nsc] assms(1) by metis
  from recreateStorageClass_frame [OF c] assms(2,3) have "touches (Name nsc) k (view w) (view w1)"
    by (simp add: ckey_def writes_touches)
  with s show ?thesis by (rule settled_footprint)
qed

lemma sc_update_footprint:
  assumes "reconcileStorageClassUpdateFunc cl old new nsc w = ((r, nsc'), w')" and "Name new = Name nsc"
  shows "footprint view nsc k w nsc' w'"
proof -
  obtain e x' w1 where c: "Update (sc_client cl) (new\<lparr>ResourceVersion := ResourceVersion old\<rparr>) w = ((e, x'), w1)"
    and s: "settled cl nsc e w1 ((r, nsc'), w')"
    using sc_update_shape [of cl old new w nsc] assms(1) by metis
  from sc.update_frame [OF c] assms(2) have "touches (Name nsc) k (view w) (view w1)"
    by (auto simp: ckey_def touches_upd)
  with s show ?thesis by (rule settled_footprint)
qed

lemma sc_delete_footprint:
  assumes "reconcileStorageClassDeleteFunc cl old nsc w = ((r, nsc'), w')"
    and "\<And>sc. old = Some sc \<Longrightarrow> Name sc = Name nsc"
  shows "footprint view nsc k w nsc' w'"
proof (cases rule: sc_delete_shape [of cl old nsc w])
  case skip
  with assms(1) show ?thesis by simp
next
  case (delete sc e w1)
  from deleteStorageClass_frame [OF delete(3)] assms(2) [OF delete(1)] have "touches (Name nsc) k (view w) (view w1)"
    by (simp add: ckey_def writes_touches)
  with delete(4) assms(1) show ?thesis by (metis settled_footprint)
qed

lemma secret_create_footprint:
  assumes "reconcileSecretCreateFunc ed cl nsc ns w = Some ((r, nsc'), w')"
  shows "footprint view nsc (ns, secret_name nsc) w nsc' w'"
  using assms
proof (rule secret_create_shape)
  fix new e x' w1
  assume new: "configureSecret ed nsc ns = Some new"
    and c: "Create (secret_client cl) new w = ((e, x'), w1)" and s: "settled cl nsc e w1 ((r, nsc'), w')"
  from secret.create_frame [OF c] configureSecret_fields(1,2) [OF new]
  have "touches (Name nsc) (ns, secret_name nsc) (view w) (view w1)"
    by (auto simp: nkey_def touches_upd)
  with s show ?thesis by (rule settled_footprint)
qed

lemma secret_update_footprint:
  assumes "reconcileSecretUpdateFunc ed cl xs nsc ns w = Some ((r, nsc'), w')"
  shows "footprint view nsc (ns, secret_name nsc) w nsc' w'"
  using assms
proof (cases rule: secret_update_shape)
  case (missing e)
  then show ?thesis by (blast intro: settled_footprint touches_refl)
next
  case (update s new e x' w1)
  from secret.update_frame [OF update(3)] configureSecret_fields(1,2) [OF update(2)]
  have "touches (Name nsc) (ns, secret_name nsc) (view w) (view w1)"
    by (auto simp: nkey_def touches_upd)
  with update(4) show ?thesis by (rule settled_footprint)
qed

lemma release_footprint:
  assumes "releaseNFSStorageClass cl nsc w = ((r, nsc'), w')"
  shows "footprint view nsc k w nsc' w'"
proof -
  obtain rm e nsc1 w1 where
    c: "removeFinalizerIfExists (Update (nsc_client cl)) nsc FIN w = (((rm, e), nsc1), w1)"
    and s: "settled cl nsc1 e w1 ((r, nsc'), w')"
    using release_shape [of cl nsc w] assms by metis
  from nsc.remove_finalizer_frame [OF c] have 1: "footprint view nsc k w nsc1 w1"
    by (simp add: footprint_def ckey_def writes_touches)
  moreover have "footprint view nsc1 k w1 nsc' w'" using s by (rule settled_footprint) simp
  ultimately show ?thesis by (rule footprint_trans)
qed

lemma secret_delete_footprint:
  assumes "reconcileSecretDeleteFunc cl xs nsc w = ((r, nsc'), w')"
    and ns: "\<And>s. s \<in> set xs \<Longrightarrow> Namespace s = ns"
  shows "footprint view nsc (ns, secret_name nsc) w nsc' w'"
proof -
  have key: "nkey s = (ns, secret_name nsc)" if "find (\<lambda>s. Name s = secret_name nsc) xs = Some s" for s
    using find_name [OF that] ns by (simp add: nkey_def)
  show ?thesis
  proof (cases rule: secret_delete_shape [of nsc xs cl w])
    case none
    with assms(1) show ?thesis by (simp add: release_footprint)
  next
    case (unlock s rm e s1 w1)
    with assms(1) secret.remove_finalizer_frame [OF unlock(2)] key [OF unlock(1)] show ?thesis
      by (auto intro: settled_footprint writes_touches)
  next
    case (delete s rm s1 w1 e w2)
    with assms(1) secret.remove_and_delete_frame [OF delete(2,3)] key [OF delete(1)] show ?thesis
      by (auto intro: settled_footprint writes_touches)
  next
    case (release s rm s1 w1 w2)
    from secret.remove_and_delete_frame [OF release(2,3)] key [OF release(1)]
    have "footprint view nsc (ns, secret_name nsc) w nsc w2" by (simp add: footprint_def writes_touches)
    with release(4) assms(1) show ?thesis by (metis release_footprint footprint_trans)
  qed
qed

lemma vsc_create_footprint:
  assumes "reconcileVolumeSnapshotClassCreateFunc cl new nsc w = ((r, nsc'), w')" and "Name new = Name nsc"
  shows "footprint view nsc k w nsc' w'"
proof -
  obtain e x' w1 where c: "Create (vsc_client cl) new w = ((e, x'), w1)"
    and s: "settled cl nsc e w1 ((r, nsc'), w')"
    using vsc_create_shape [of cl new w nsc] assms(1) by metis
  from vsc.create_frame [OF c] assms(2) have "touches (Name nsc) k (view w) (view w1)"
    by (auto simp: ckey_def touches_upd)
  with s show ?thesis by (rule settled_footprint)
qed

lemma vsc_update_footprint:
  assumes "reconcileVolumeSnapshotClassUpdateFunc cl old new nsc w = ((r, nsc'), w')" and "Name new = Name nsc"
  shows "footprint view nsc k w nsc' w'"
proof -
  obtain e x' w1 where c: "Update (vsc_client cl) (new\<lparr>ResourceVersion := ResourceVersion old\<rparr>) w = ((e, x'), w1)"
    and s: "settled cl nsc e w1 ((r, nsc'), w')"
    using vsc_update_shape [of cl old new w nsc] assms(1) by metis
  from vsc.update_frame [OF c] assms(2) have "touches (Name nsc) k (view w) (view w1)"
    by (auto simp: ckey_def touches_upd)
  with s show ?thesis by (rule settled_footprint)
qed

lemma vsc_delete_footprint:
  assumes "reconcileVolumeSnapshotClassDeleteFunc cl old nsc w = ((r, nsc'), w')"
    and "\<And>v. old = Some v \<Longrightarrow> Name v = Name nsc"
  shows "footprint view nsc k w nsc' w'"
proof (cases rule: vsc_delete_shape [of cl old nsc w])
  case skip
  with assms(1) show ?thesis by simp
next
  case (delete v e w1)
  from deleteVolumeSnapshotClass_frame [OF delete(3)] assms(2) [OF delete(1)] have "touches (Name nsc) k (view w) (view w1)"
    by (simp add: ckey_def writes_touches)
  with delete(4) assms(1) show ?thesis by (metis settled_footprint)
qed

end

section \<open>Effects of success\<close>

text \<open>
  \<open>puts wire upd k c c' new\<close>: the object \<open>new\<close> was stored at \<open>k\<close> as the server encodes it.
\<close>

definition puts ::
  "('m ObjectMeta_scheme \<Rightarrow> 'm ObjectMeta_scheme) \<Rightarrow>
   (('m ObjectMeta_scheme store \<Rightarrow> 'm ObjectMeta_scheme store) \<Rightarrow> cluster \<Rightarrow> cluster) \<Rightarrow> key \<Rightarrow>
   'm ObjectMeta_scheme \<Rightarrow> cluster \<Rightarrow> cluster \<Rightarrow> bool" where
  "puts wire upd k new c c' \<longleftrightarrow> (\<exists>y. same_object (wire new) y \<and> c' = upd (\<lambda>s. s(k := Some y)) c)"

definition discards ::
  "(('m ObjectMeta_scheme store \<Rightarrow> 'm ObjectMeta_scheme store) \<Rightarrow> cluster \<Rightarrow> cluster) \<Rightarrow> key \<Rightarrow>
   string list \<Rightarrow> cluster \<Rightarrow> cluster \<Rightarrow> bool" where
  "discards upd k fs c c' \<longleftrightarrow> (\<exists>v. dismissed fs v \<and> c' = upd (\<lambda>s. s(k := v)) c)"

lemma same_object_rv: "same_object (x\<lparr>ResourceVersion := rv\<rparr>) y \<Longrightarrow> same_object x y"
  by (auto simp: same_object_def)

lemma wire_rv:
  "wire_sc (x\<lparr>ResourceVersion := rv\<rparr>) = (wire_sc x)\<lparr>ResourceVersion := rv\<rparr>"
  "wire_vsclass (v\<lparr>ResourceVersion := rv\<rparr>) = (wire_vsclass v)\<lparr>ResourceVersion := rv\<rparr>"
  by (simp_all add: wire_sc_def wire_vsclass_def wire_meta_def)

context kind_laws
begin

lemma create_puts:
  "Create api x w = ((None, x'), w') \<Longrightarrow> puts wire upd (key x) x (view w) (view w')"
  using create_ok unfolding puts_def by blast

lemma update_puts:
  assumes "Update api x w = ((None, x'), w')" and "fins x \<noteq> []"
  shows "puts wire upd (key x) x (view w) (view w')"
proof -
  from update_ok [OF assms(1)] obtain old where "sel (view w) (key x) = Some old" and
    x': "same_object (wire x) x'" and v: "view w' = upd (\<lambda>s. s(key x := (if DeletionTimestamp old \<noteq> None \<and> fins x' = [] then None else Some x'))) (view w)"
    by blast
  have "fins x' \<noteq> []" using same_object_meta(6) [OF x'] assms(2) by (simp add: wire_fins)
  with x' v show ?thesis by (auto simp: puts_def)
qed

end

context kube_laws
begin

lemma sc_create_ok:
  assumes "reconcileStorageClassCreateFunc cl new nsc w = (((rq, None), nsc'), w')"
  shows "nsc' = nsc \<and> puts wire_sc scs_update (ckey new) new (view w) (view w')"
proof -
  obtain e x' w1 where c: "Create (sc_client cl) new w = ((e, x'), w1)"
    and s: "settled cl nsc e w1 (((rq, None), nsc'), w')"
    using sc_create_shape [of cl new w nsc] assms by metis
  with settled_contract [OF s] sc.create_puts [of new w x' w1] show ?thesis by simp
qed

lemma sc_update_ok:
  assumes "reconcileStorageClassUpdateFunc cl old new nsc w = (((rq, None), nsc'), w')" and "fins new \<noteq> []"
  shows "nsc' = nsc \<and> puts wire_sc scs_update (ckey new) new (view w) (view w')"
proof -
  let ?new = "new\<lparr>ResourceVersion := ResourceVersion old\<rparr>"
  obtain e x' w1 where c: "Update (sc_client cl) ?new w = ((e, x'), w1)"
    and s: "settled cl nsc e w1 (((rq, None), nsc'), w')"
    using sc_update_shape [of cl old new w nsc] assms by metis
  have "fins ?new \<noteq> []" "ckey ?new = ckey new" using assms(2) by (simp_all add: fins_def ckey_def)
  with settled_contract [OF s] sc.update_puts [of ?new w x' w1] c s show ?thesis
    by (auto simp: puts_def wire_rv dest: same_object_rv)
qed

lemma deleteStorageClass_ok:
  assumes "deleteStorageClass cl sc w = (None, w')" and "scs (view w) (ckey sc) = Some sc"
  shows "Provisioner sc \<in> set allowedProvisioners \<and>
    discards scs_update (ckey sc) (remove1 FIN (fins sc)) (view w) (view w')"
proof -
  obtain rm e sc1 w1 where r: "removeFinalizerIfExists (Update (sc_client cl)) sc FIN w = (((rm, e), sc1), w1)"
    by (metis surj_pair)
  with assms(1) have "Provisioner sc \<in> set allowedProvisioners" "e = None" "Delete (sc_client cl) sc1 w1 = (None, w')"
    by (auto simp: deleteStorageClass_def split: if_splits option.splits)
  with sc.remove_and_delete [OF assms(2) r [unfolded \<open>e = None\<close>]] show ?thesis
    by (auto simp: discards_def)
qed

lemma sc_recreate_ok:
  assumes "reconcileStorageClassRecreateFunc cl old new nsc w = (((rq, None), nsc'), w')"
    and "Name old = Name new" and "scs (view w) (ckey old) = Some old"
  shows "nsc' = nsc \<and> puts wire_sc scs_update (ckey new) new (view w) (view w')"
proof -
  obtain e w1 where c: "recreateStorageClass cl old new w = (e, w1)"
    and s: "settled cl nsc e w1 (((rq, None), nsc'), w')"
    using sc_recreate_shape [of cl old new w nsc] assms(1) by metis
  with settled_contract [OF s] have c: "recreateStorageClass cl old new w = (None, w')" and n: "nsc' = nsc"
    by auto
  from c obtain w2 x' where d: "deleteStorageClass cl old w = (None, w2)"
    and cr: "Create (sc_client cl) new w2 = ((None, x'), w')"
    by (auto simp: recreateStorageClass_def Let_def split: prod.splits option.splits)
  have k: "ckey new = ckey old" using assms(2) by simp
  from deleteStorageClass_ok [OF d assms(3)] sc.create_puts [OF cr] n show ?thesis
    by (auto simp: discards_def puts_def k)
qed

lemma sc_delete_ok:
  assumes "reconcileStorageClassDeleteFunc cl old nsc w = (((rq, None), nsc'), w')"
    and "\<And>sc. old = Some sc \<Longrightarrow> scs (view w) (ckey sc) = Some sc"
  shows "nsc' = nsc \<and> (case old of
      Some sc \<Rightarrow> if Provisioner sc \<in> set allowedProvisioners
        then discards scs_update (ckey sc) (remove1 FIN (fins sc)) (view w) (view w')
        else view w' = view w
    | None \<Rightarrow> view w' = view w)"
proof (cases rule: sc_delete_shape [of cl old nsc w])
  case skip
  with assms(1) show ?thesis by (auto split: option.split)
next
  case (delete sc e w1)
  with assms(1) have s: "settled cl nsc e w1 (((rq, None), nsc'), w')" by simp
  from settled_contract [OF s] s have "e = None" "nsc' = nsc" "w1 = w'" by auto
  with delete deleteStorageClass_ok [of sc w w'] assms(2) [of sc] show ?thesis by simp
qed

lemma secret_create_ok:
  assumes "reconcileSecretCreateFunc ed cl nsc ns w = Some (((rq, None), nsc'), w')"
  obtains new where "configureSecret ed nsc ns = Some new" and "nsc' = nsc"
    and "puts wire_secret secrets_update (ns, secret_name nsc) new (view w) (view w')"
  using assms
proof (rule secret_create_shape)
  fix new e x' w1
  assume new: "configureSecret ed nsc ns = Some new"
    and c: "Create (secret_client cl) new w = ((e, x'), w1)"
    and s: "settled cl nsc e w1 (((rq, None), nsc'), w')"
  from settled_contract [OF s] s c have "nsc' = nsc" "Create (secret_client cl) new w = ((None, x'), w')"
    by auto
  with new secret.create_puts [of new w x' w'] configureSecret_fields(1,2) [OF new] that show thesis
    by (simp add: nkey_def)
qed

lemma secret_update_ok:
  assumes "reconcileSecretUpdateFunc ed cl xs nsc ns w = Some (((rq, None), nsc'), w')"
  obtains new where "configureSecret ed nsc ns = Some new" and "nsc' = nsc"
    and "puts wire_secret secrets_update (ns, secret_name nsc) new (view w) (view w')"
  using assms
proof (cases rule: secret_update_shape)
  case (missing e)
  with settled_contract [OF missing(2)] show ?thesis by simp
next
  case (update s new e x' w1)
  note s = update(4)
  from settled_contract [OF s] s update(3)
  have "nsc' = nsc" "Update (secret_client cl) new w = ((None, x'), w')" by auto
  with update(2) secret.update_puts [of new w x' w'] configureSecret_fields(1,2,4) [OF update(2)] that
  show thesis by (simp add: nkey_def fins_def)
qed

lemma release_ok:
  assumes "releaseNFSStorageClass cl nsc w = (((rq, None), nsc'), w')"
    and "nscs (view w) (ckey nsc) = Some nsc" and "FIN \<in> set (fins nsc)"
  shows "DeletionTimestamp nsc' = DeletionTimestamp nsc \<and> Name nsc' = Name nsc \<and>
    fins nsc' = remove1 FIN (fins nsc) \<and>
    view w' = nscs_update (\<lambda>s. s(ckey nsc :=
      (if DeletionTimestamp nsc \<noteq> None \<and> remove1 FIN (fins nsc) = [] then None else Some nsc'))) (view w)"
proof -
  obtain rm e nsc1 w1 where
    c: "removeFinalizerIfExists (Update (nsc_client cl)) nsc FIN w = (((rm, e), nsc1), w1)"
    and s: "settled cl nsc1 e w1 (((rq, None), nsc'), w')"
    using release_shape [of cl nsc w] assms(1) by metis
  from settled_contract [OF s] s have e: "e = None" "nsc' = nsc1" "w' = w1" by auto
  have "Name nsc' = Name nsc" using nsc.remove_finalizer_frame [OF c] e by simp
  moreover from c assms(3) have "Update (nsc_client cl) (nsc\<lparr>Finalizers := Some (remove1 FIN (fins nsc))\<rparr>) w =
      ((None, nsc'), w')"
    by (cases rule: remove_finalizer_cases) (simp_all add: e)
  ultimately show ?thesis using nsc.update_finalizers [OF _ assms(2)] by blast
qed

lemma secret_delete_ok:
  assumes "reconcileSecretDeleteFunc cl xs nsc w = (((rq, None), nsc'), w')"
    and "\<And>s. s \<in> set xs \<Longrightarrow> secrets (view w) (nkey s) = Some s"
  obtains w1 where "releaseNFSStorageClass cl nsc w1 = (((rq, None), nsc'), w')"
    and "case find (\<lambda>s. Name s = secret_name nsc) xs of
        None \<Rightarrow> view w1 = view w
      | Some s \<Rightarrow> discards secrets_update (nkey s) (remove1 FIN (fins s)) (view w) (view w1)"
proof (cases rule: secret_delete_shape [of nsc xs cl w])
  case none
  with assms(1) that show ?thesis by simp
next
  case (unlock s rm e s1 w1)
  with assms(1) settled_contract [of cl nsc "Some e" w1 rq None nsc' w'] show ?thesis by simp
next
  case (delete s rm s1 w1 e w2)
  with assms(1) settled_contract [of cl nsc "Some e" w2 rq None nsc' w'] show ?thesis by simp
next
  case (release s rm s1 w1 w2)
  from find_name [OF release(1)] assms(2) have "secrets (view w) (nkey s) = Some s" by blast
  from secret.remove_and_delete [OF this release(2,3)]
  have "discards secrets_update (nkey s) (remove1 FIN (fins s)) (view w) (view w2)"
    by (auto simp: discards_def)
  with release that assms(1) show ?thesis by simp
qed

lemma vsc_create_ok:
  assumes "reconcileVolumeSnapshotClassCreateFunc cl new nsc w = (((rq, None), nsc'), w')"
  shows "nsc' = nsc \<and> puts wire_vsclass vscs_update (ckey new) new (view w) (view w')"
proof -
  obtain e x' w1 where c: "Create (vsc_client cl) new w = ((e, x'), w1)"
    and s: "settled cl nsc e w1 (((rq, None), nsc'), w')"
    using vsc_create_shape [of cl new w nsc] assms by metis
  with settled_contract [OF s] vsc.create_puts [of new w x' w1] show ?thesis by simp
qed

lemma vsc_update_ok:
  assumes "reconcileVolumeSnapshotClassUpdateFunc cl old new nsc w = (((rq, None), nsc'), w')" and "fins new \<noteq> []"
  shows "nsc' = nsc \<and> puts wire_vsclass vscs_update (ckey new) new (view w) (view w')"
proof -
  let ?new = "new\<lparr>ResourceVersion := ResourceVersion old\<rparr>"
  obtain e x' w1 where c: "Update (vsc_client cl) ?new w = ((e, x'), w1)"
    and s: "settled cl nsc e w1 (((rq, None), nsc'), w')"
    using vsc_update_shape [of cl old new w nsc] assms by metis
  have "fins ?new \<noteq> []" "ckey ?new = ckey new" using assms(2) by (simp_all add: fins_def ckey_def)
  with settled_contract [OF s] vsc.update_puts [of ?new w x' w1] c s show ?thesis
    by (auto simp: puts_def wire_rv dest: same_object_rv)
qed

lemma vsc_delete_ok:
  assumes "reconcileVolumeSnapshotClassDeleteFunc cl old nsc w = (((rq, None), nsc'), w')"
    and "\<And>v. old = Some v \<Longrightarrow> vscs (view w) (ckey v) = Some v"
  shows "nsc' = nsc \<and> (case old of
      Some v \<Rightarrow> if Driver v \<in> set allowedProvisioners
        then discards vscs_update (ckey v) (remove1 FIN (fins v)) (view w) (view w')
        else view w' = view w
    | None \<Rightarrow> view w' = view w)"
proof (cases rule: vsc_delete_shape [of cl old nsc w])
  case skip
  with assms(1) show ?thesis by (auto split: option.split)
next
  case (delete v e w1)
  with assms(1) have s: "settled cl nsc e w1 (((rq, None), nsc'), w')" by simp
  from settled_contract [OF s] s have "e = None" "nsc' = nsc" "w1 = w'" by auto
  moreover obtain rm r v1 w2 where
    r: "removeFinalizerIfExists (Update (vsc_client cl)) v FIN w = (((rm, r), v1), w2)"
    by (metis surj_pair)
  ultimately have "r = None" "Delete (vsc_client cl) v1 w2 = (None, w')"
    using delete(2,3) by (auto simp: deleteVolumeSnapshotClass_def split: option.splits)
  with vsc.remove_and_delete [OF assms(2) [OF delete(1)] r [unfolded \<open>r = None\<close>]] delete \<open>nsc' = nsc\<close>
  show ?thesis by (auto simp: discards_def)
qed

end

end
