(* ===== verification/Config.thy ===== *)
theory Config
  imports Prelude
begin

text \<open>
  The controller's configuration, \<open>images/controller/pkg/config/config.go\<close>. The environment and the
  file system are parameters: \<open>getenv\<close> is \<open>os.Getenv\<close>, \<open>readFile\<close> is \<open>os.ReadFile\<close>. Intervals are
  \<open>time.Duration\<close> values, that is, nanoseconds; the code stores the bare number of seconds and
  multiplies by \<open>time.Second\<close> where it uses them.
\<close>

section \<open>Constants and options\<close>

definition LogLevelEnvName :: string where "LogLevelEnvName = ''LOG_LEVEL''"
definition ControllerNamespaceEnv :: string where "ControllerNamespaceEnv = ''CONTROLLER_NAMESPACE''"
definition HardcodedControllerNS :: string where "HardcodedControllerNS = ''d8-csi-nfs''"
definition DefaultHealthProbeBindAddressEnvName :: string where
  "DefaultHealthProbeBindAddressEnvName = ''HEALTH_PROBE_BIND_ADDRESS''"
definition DefaultHealthProbeBindAddress :: string where "DefaultHealthProbeBindAddress = '':8081''"
definition DefaultRequeueStorageClassInterval :: int where "DefaultRequeueStorageClassInterval = 10"
definition DefaultRequeueModuleConfigInterval :: int where "DefaultRequeueModuleConfigInterval = 10"
definition DefaultRequeueNodeSelectorInterval :: int where "DefaultRequeueNodeSelectorInterval = 10"
definition CsiNfsModuleName' :: string where "CsiNfsModuleName' = ''csi-nfs''"
definition ConfigSecretName' :: string where "ConfigSecretName' = ''d8-csi-nfs-controller-config''"
definition StorageClassLabelIgnoredPrefixesEnvName :: string where
  "StorageClassLabelIgnoredPrefixesEnvName = ''STORAGE_CLASS_LABEL_IGNORED_PREFIXES''"
definition DebugLevel :: string where "DebugLevel = ''3''"
definition Second :: int where "Second = 1000000000"
definition namespaceFile :: string where
  "namespaceFile = ''/var/run/secrets/kubernetes.io/serviceaccount/namespace''"

record Options =
  Loglevel :: string
  RequeueStorageClassInterval :: int
  RequeueModuleConfigInterval :: int
  RequeueNodeSelectorInterval :: int
  ConfigSecretName :: string
  HealthProbeBindAddress :: string
  ControllerNamespace :: string
  CsiNfsModuleName :: string
  StorageClassLabelIgnoredPrefixes :: "string list"

section \<open>Operations\<close>

text \<open>The loop over the parts: trim, skip the empty ones, keep the order.\<close>

fun trimmed_nonempty :: "string list \<Rightarrow> string list" where
  "trimmed_nonempty [] = []"
| "trimmed_nonempty (p # ps) =
     (let p = TrimSpace p in if p = '''' then trimmed_nonempty ps else p # trimmed_nonempty ps)"

definition parseStorageClassLabelIgnoredPrefixes :: "string \<Rightarrow> string list" where
  "parseStorageClassLabelIgnoredPrefixes raw =
     (if raw = '''' then [] else trimmed_nonempty (Split raw (CHR '','')))"

definition NewConfig :: "(string \<Rightarrow> string) \<Rightarrow> (string \<Rightarrow> go_error + string) \<Rightarrow> Options" where
  "NewConfig getenv readFile =
    (let loglevel = getenv LogLevelEnvName;
         probe = getenv DefaultHealthProbeBindAddressEnvName;
         ns = getenv ControllerNamespaceEnv
     in \<lparr>
       Loglevel = (if loglevel = '''' then DebugLevel else loglevel),
       RequeueStorageClassInterval = DefaultRequeueStorageClassInterval,
       RequeueModuleConfigInterval = DefaultRequeueModuleConfigInterval,
       RequeueNodeSelectorInterval = DefaultRequeueNodeSelectorInterval,
       ConfigSecretName = ConfigSecretName',
       HealthProbeBindAddress = (if probe = '''' then DefaultHealthProbeBindAddress else probe),
       ControllerNamespace =
         (if ns = ''''
          then (case readFile namespaceFile of Inl err \<Rightarrow> HardcodedControllerNS | Inr namespace \<Rightarrow> namespace)
          else ns),
       CsiNfsModuleName = CsiNfsModuleName',
       StorageClassLabelIgnoredPrefixes =
         parseStorageClassLabelIgnoredPrefixes (getenv StorageClassLabelIgnoredPrefixesEnvName)\<rparr>)"

section \<open>Facts\<close>

lemma trimmed_nonempty_eq: "trimmed_nonempty ps = filter (\<lambda>p. p \<noteq> '''') (map TrimSpace ps)"
  by (induction ps) (auto simp: Let_def)

lemma dropWhile_nonspace: "s \<noteq> [] \<Longrightarrow> \<not> is_space (hd s) \<Longrightarrow> dropWhile is_space s = s"
  by (cases s) auto

lemma TrimSpace_id:
  assumes "\<forall>c \<in> set s. \<not> is_space c"
  shows "TrimSpace s = s"
proof (cases "s = []")
  case False
  with assms have "\<not> is_space (hd s)" "\<not> is_space (hd (rev s))"
    by (auto simp: hd_rev)
  with False show ?thesis
    by (simp add: TrimSpace_def dropWhile_nonspace)
qed (simp add: TrimSpace_def)

lemma set_TrimSpace: "set (TrimSpace s) \<subseteq> set s"
  unfolding TrimSpace_def by (metis set_rev set_dropWhileD subsetI)

lemma parse_elements:
  assumes "p \<in> set (parseStorageClassLabelIgnoredPrefixes raw)"
  shows "p \<noteq> ''''" and "CHR '','' \<notin> set p"
proof -
  from assms have p: "p \<in> set (filter (\<lambda>p. p \<noteq> '''') (map TrimSpace (Split raw (CHR '',''))))"
    by (auto simp: parseStorageClassLabelIgnoredPrefixes_def trimmed_nonempty_eq split: if_splits)
  then show "p \<noteq> ''''" by simp
  from p obtain q where q: "q \<in> set (Split raw (CHR '',''))" "p = TrimSpace q" by auto
  with Split_parts [of raw "CHR '',''"] set_TrimSpace [of q] show "CHR '','' \<notin> set p" by blast
qed

section \<open>Properties\<close>

text \<open>Round trip of the ignored prefixes: a list of non-empty prefixes without commas and white space,
  joined with commas the way the Helm template writes it, is parsed back to the same list.\<close>

lemma parse_join_prefixes:
  assumes "\<forall>p \<in> set ps. p \<noteq> '''' \<and> CHR '','' \<notin> set p \<and> (\<forall>c \<in> set p. \<not> is_space c)"
  shows "parseStorageClassLabelIgnoredPrefixes (Join ps '','') = ps"
proof (cases "ps = []")
  case True
  then show ?thesis by (simp add: parseStorageClassLabelIgnoredPrefixes_def)
next
  case False
  with assms have "Join ps '','' \<noteq> ''''" by (auto simp: Join_eq_Nil_iff)
  moreover have "Split (Join ps '','') (CHR '','') = ps"
    using False assms by (intro Split_Join) auto
  moreover have "map TrimSpace ps = ps"
    using assms by (intro map_idI) (simp add: TrimSpace_id)
  ultimately show ?thesis
    using assms by (simp add: parseStorageClassLabelIgnoredPrefixes_def trimmed_nonempty_eq filter_id_conv)
qed

end
