(* ===== verification/Event_Reconcile.thy ===== *)
theory Event_Reconcile
  imports Reconcile_Effects Config
begin

text \<open>
  \<open>nfs_storage_class_watcher.go\<close>: \<open>RunEventReconcile\<close>, the reconciler closure of
  \<open>RunNFSStorageClassWatcherController\<close> and its event handlers.

  \<open>RunEventReconcile\<close> is one Go function of five parts separated by \<open>if err != nil || shouldRequeue\<close>;
  each part is a stage here and \<open>andThen\<close> is the test between them. A handler returns the request
  it adds to the work queue, if any.
\<close>

section \<open>RunEventReconcile\<close>

definition finalizerStage :: "'w client \<Rightarrow> 'w stage" where
  "finalizerStage cl nsc w =
    (let name = Name nsc;
         (((added, err), nsc), w) =
           addFinalizerIfNotExists (Update (nsc_client cl)) nsc NFSStorageClassControllerFinalizerName w
     in case err of
          Some e \<Rightarrow> Some (((True, Some (WrapError (''[reconcileStorageClassCreateFunc] unable to add a finalizer '' @
              NFSStorageClassControllerFinalizerName @ '' to the NFSStorageClass '' @ name @ '': '') e)), nsc), w)
        | None \<Rightarrow> Some (((False, None), nsc), w))"

definition scStage ::
  "lib \<Rightarrow> edition \<Rightarrow> 'w client \<Rightarrow> StorageClass list \<Rightarrow> string \<Rightarrow> string list \<Rightarrow> 'w stage" where
  "scStage L ed cl scList controllerNamespace ignoredLabelPrefixes nsc w = do {
     (reconcileType, oldSC, newSC) \<leftarrow>
       IdentifyReconcileFuncForStorageClass L ed scList nsc controllerNamespace ignoredLabelPrefixes;
     if reconcileType = CreateReconcile then do {
       newSC \<leftarrow> newSC;
       Some (reconcileStorageClassCreateFunc cl newSC nsc w)
     }
     else if reconcileType = RecreateReconcile then do {
       oldSC \<leftarrow> oldSC;
       newSC \<leftarrow> newSC;
       Some (reconcileStorageClassRecreateFunc cl oldSC newSC nsc w)
     }
     else if reconcileType = UpdateReconcile then do {
       oldSC \<leftarrow> oldSC;
       newSC \<leftarrow> newSC;
       Some (reconcileStorageClassUpdateFunc cl oldSC newSC nsc w)
     }
     else if reconcileType = DeleteReconcile then Some (reconcileStorageClassDeleteFunc cl oldSC nsc w)
     else Some (((False, None), nsc), w)
   }"

definition secretStage :: "lib \<Rightarrow> edition \<Rightarrow> 'w client \<Rightarrow> string \<Rightarrow> 'w stage" where
  "secretStage L ed cl controllerNamespace nsc w =
    (case List (secret_client cl) [InNamespace controllerNamespace] w of
       (Inl e, w) \<Rightarrow>
         (let err = WrapError ''[runEventReconcile] unable to list Secrets: '' e
          in Some (failWith cl ''[reconcileStorageClassCreateFunc]'' nsc err (Error_msg err) w))
     | (Inr secretList, w) \<Rightarrow> do {
         (reconcileType, err) \<leftarrow> IdentifyReconcileFuncForSecret L ed secretList nsc controllerNamespace;
         (case err of
            Some e \<Rightarrow> Some (((True, Some e), nsc), w)
          | None \<Rightarrow>
              if reconcileType = CreateReconcile
              then reconcileSecretCreateFunc ed cl nsc controllerNamespace w
              else if reconcileType = UpdateReconcile
              then reconcileSecretUpdateFunc ed cl secretList nsc controllerNamespace w
              else if reconcileType = DeleteReconcile
              then Some (reconcileSecretDeleteFunc cl secretList nsc w)
              else Some (((False, None), nsc), w))
       })"

definition vscStage :: "lib \<Rightarrow> edition \<Rightarrow> 'w client \<Rightarrow> string \<Rightarrow> 'w stage" where
  "vscStage L ed cl controllerNamespace nsc w =
    (case List (vsc_client cl) [] w of
       (Inl e, w) \<Rightarrow>
         (let err = WrapError ''[runEventReconcile] unable to list VolumeSnapshotClasses: '' e
          in Some (failWith cl ''[reconcileStorageClassCreateFunc]'' nsc err (Error_msg err) w))
     | (Inr vsClassList, w) \<Rightarrow> do {
         (reconcileType, oldVSClass, newVSClass) \<leftarrow>
           IdentifyReconcileFuncForVSClass L ed vsClassList nsc controllerNamespace;
         if reconcileType = CreateReconcile then do {
           newVSClass \<leftarrow> newVSClass;
           Some (reconcileVolumeSnapshotClassCreateFunc cl newVSClass nsc w)
         }
         else if reconcileType = UpdateReconcile then do {
           oldVSClass \<leftarrow> oldVSClass;
           newVSClass \<leftarrow> newVSClass;
           Some (reconcileVolumeSnapshotClassUpdateFunc cl oldVSClass newVSClass nsc w)
         }
         else if reconcileType = DeleteReconcile
         then Some (reconcileVolumeSnapshotClassDeleteFunc cl oldVSClass nsc w)
         else Some (((False, None), nsc), w)
       })"

definition statusStage :: "'w client \<Rightarrow> 'w stage" where
  "statusStage cl nsc w =
    (if DeletionTimestamp nsc = None then
       (let name = Name nsc;
            ((err, nsc), w) = updateNFSStorageClassPhase cl nsc CreatedStatusPhase '''' w
        in case err of
             Some e \<Rightarrow> Some (((True, Some (WrapError
               (''[runEventReconcile] unable to update the NFSStorageClass '' @ name @ '': '') e)), nsc), w)
           | None \<Rightarrow> Some (((False, None), nsc), w))
     else Some (((False, None), nsc), w))"

definition RunEventReconcile ::
  "lib \<Rightarrow> edition \<Rightarrow> 'w client \<Rightarrow> StorageClass list \<Rightarrow> string \<Rightarrow> string list \<Rightarrow> 'w stage" where
  "RunEventReconcile L ed cl scList controllerNamespace ignoredLabelPrefixes =
     andThen (finalizerStage cl)
    (andThen (scStage L ed cl scList controllerNamespace ignoredLabelPrefixes)
    (andThen (secretStage L ed cl controllerNamespace)
    (andThen (vscStage L ed cl controllerNamespace)
             (statusStage cl))))"

section \<open>The reconciler\<close>

record Result =
  RequeueAfter :: int

definition emptyResult :: Result where
  "emptyResult = \<lparr>RequeueAfter = 0\<rparr>"

text \<open>The validation of an NFSStorageClass that is not being deleted; an error ends the request.\<close>

definition validateRequest ::
  "edition \<Rightarrow> 'w client \<Rightarrow> string \<Rightarrow> NFSStorageClass \<Rightarrow> 'w \<Rightarrow> ((go_error option \<times> NFSStorageClass) \<times> 'w) option" where
  "validateRequest ed cl moduleName nsc w =
    (if DeletionTimestamp nsc = None then
       (case Get (mc_client cl) '''' moduleName w of
          (Inl e, w) \<Rightarrow> Some ((Some e, nsc), w)
        | (Inr nfsModuleConfig, w) \<Rightarrow> do {
            verdict \<leftarrow> ValidateNFSStorageClass ed nfsModuleConfig nsc;
            (case verdict of
               None \<Rightarrow> Some ((None, nsc), w)
             | Some err \<Rightarrow>
                 (let name = Name nsc;
                      ((upError, nsc), w) = updateNFSStorageClassPhase cl nsc FailedStatusPhase (Error_msg err) w
                  in case upError of
                       None \<Rightarrow> Some ((Some err, nsc), w)
                     | Some u \<Rightarrow> Some ((Some (JoinError err (WrapError
                         (''[NFSStorageClassReconciler] invalid NFSStorageClass '' @ name @ '': '') u)), nsc), w)))
          })
     else Some ((None, nsc), w))"

definition reconcileRequest ::
  "lib \<Rightarrow> edition \<Rightarrow> 'w client \<Rightarrow> Options \<Rightarrow> NFSStorageClass \<Rightarrow> 'w \<Rightarrow> ((Result \<times> go_error option) \<times> 'w) option" where
  "reconcileRequest L ed cl cfg nsc w =
    (if Name nsc = '''' then Some ((emptyResult, None), w)
     else do {
       ((err, nsc), w) \<leftarrow> validateRequest ed cl (CsiNfsModuleName cfg) nsc w;
       (case err of
          Some e \<Rightarrow> Some ((emptyResult, Some e), w)
        | None \<Rightarrow>
            (case List (sc_client cl) [] w of
               (Inl e, w) \<Rightarrow> Some ((emptyResult, Some e), w)
             | (Inr scList, w) \<Rightarrow> do {
                 (((shouldRequeue, err), nsc), w) \<leftarrow>
                   RunEventReconcile L ed cl scList (ControllerNamespace cfg) (StorageClassLabelIgnoredPrefixes cfg) nsc w;
                 if shouldRequeue
                 then Some ((\<lparr>RequeueAfter = RequeueStorageClassInterval cfg * Second\<rparr>, None), w)
                 else Some ((emptyResult, None), w)
               }))
     })"

definition Reconcile ::
  "lib \<Rightarrow> edition \<Rightarrow> 'w client \<Rightarrow> Options \<Rightarrow> string \<times> string \<Rightarrow> 'w \<Rightarrow> ((Result \<times> go_error option) \<times> 'w) option" where
  "Reconcile L ed cl cfg request w =
    (case Get (nsc_client cl) (fst request) (snd request) w of
       (Inl e, w) \<Rightarrow>
         if \<not> IsNotFound L e then Some ((emptyResult, Some e), w)
         else reconcileRequest L ed cl cfg zero_nsc w
     | (Inr nsc, w) \<Rightarrow> reconcileRequest L ed cl cfg nsc w)"

section \<open>Event handlers\<close>

definition CreateFunc :: "NFSStorageClass \<Rightarrow> (string \<times> string) option" where
  "CreateFunc obj = Some (Namespace obj, Name obj)"

definition UpdateFunc :: "NFSStorageClass \<Rightarrow> NFSStorageClass \<Rightarrow> (string \<times> string) option" where
  "UpdateFunc objectOld objectNew =
    (if Spec objectOld = Spec objectNew \<and> Labels objectOld = Labels objectNew \<and>
        DeletionTimestamp objectNew = None
     then None
     else Some (Namespace objectNew, Name objectNew))"

section \<open>Errors and requeues\<close>

interpretation finalizer_stage: reconcile_stage "finalizerStage cl"
  by unfold_locales (auto simp: finalizerStage_def Let_def split: prod.splits option.splits)

interpretation status_stage: reconcile_stage "statusStage cl"
  by unfold_locales (auto simp: statusStage_def Let_def split: if_splits prod.splits option.splits)

lemma sc_stage_cases:
  assumes "scStage L ed cl scList ns ps nsc w = Some r"
  obtains (create) old new where
      "IdentifyReconcileFuncForStorageClass L ed scList nsc ns ps = Some (CreateReconcile, old, Some new)"
      "r = reconcileStorageClassCreateFunc cl new nsc w"
  | (recreate) old new where
      "IdentifyReconcileFuncForStorageClass L ed scList nsc ns ps = Some (RecreateReconcile, Some old, Some new)"
      "r = reconcileStorageClassRecreateFunc cl old new nsc w"
  | (update) old new where
      "IdentifyReconcileFuncForStorageClass L ed scList nsc ns ps = Some (UpdateReconcile, Some old, Some new)"
      "r = reconcileStorageClassUpdateFunc cl old new nsc w"
  | (delete) old new where
      "IdentifyReconcileFuncForStorageClass L ed scList nsc ns ps = Some (DeleteReconcile, old, new)"
      "r = reconcileStorageClassDeleteFunc cl old nsc w"
  | (keep) ty old new where
      "IdentifyReconcileFuncForStorageClass L ed scList nsc ns ps = Some (ty, old, new)"
      "ty \<notin> {CreateReconcile, RecreateReconcile, UpdateReconcile, DeleteReconcile}"
      "r = (((False, None), nsc), w)"
proof -
  from assms obtain ty old new where
    id: "IdentifyReconcileFuncForStorageClass L ed scList nsc ns ps = Some (ty, old, new)"
    by (auto simp: scStage_def bind_eq_Some_conv)
  consider "ty = CreateReconcile" | "ty = RecreateReconcile" | "ty = UpdateReconcile"
    | "ty = DeleteReconcile" | "ty \<notin> {CreateReconcile, RecreateReconcile, UpdateReconcile, DeleteReconcile}"
    by blast
  then show thesis
  proof cases
    case 1
    with id assms create show ?thesis by (auto simp: scStage_def bind_eq_Some_conv)
  next
    case 2
    with id assms recreate show ?thesis
      by (auto simp: scStage_def bind_eq_Some_conv reconcile_type_defs)
  next
    case 3
    with id assms update show ?thesis
      by (auto simp: scStage_def bind_eq_Some_conv reconcile_type_defs)
  next
    case 4
    with id assms delete show ?thesis by (auto simp: scStage_def reconcile_type_defs)
  next
    case 5
    with id assms keep show ?thesis by (auto simp: scStage_def)
  qed
qed

interpretation sc_stage: reconcile_stage "scStage L ed cl scList ns ps"
proof
  fix nsc w rq err nsc' w'
  assume "scStage L ed cl scList ns ps nsc w = Some (((rq, err), nsc'), w')"
  then show "rq \<longleftrightarrow> err \<noteq> None"
    by (cases rule: sc_stage_cases)
      (metis sc_create.contract, metis sc_recreate.contract, metis sc_update.contract,
        metis sc_delete.contract, simp)
qed

lemma secret_stage_cases:
  assumes "secretStage L ed cl ns nsc w = Some r"
  obtains (list_fails) e w1 tag err reason where "List (secret_client cl) [InNamespace ns] w = (Inl e, w1)"
      "r = failWith cl tag nsc err reason w1"
  | (identify_fails) xs w1 ty e where "List (secret_client cl) [InNamespace ns] w = (Inr xs, w1)"
      "IdentifyReconcileFuncForSecret L ed xs nsc ns = Some (ty, Some e)"
      "r = (((True, Some e), nsc), w1)"
  | (create) xs w1 where "List (secret_client cl) [InNamespace ns] w = (Inr xs, w1)"
      "IdentifyReconcileFuncForSecret L ed xs nsc ns = Some (CreateReconcile, None)"
      "reconcileSecretCreateFunc ed cl nsc ns w1 = Some r"
  | (update) xs w1 where "List (secret_client cl) [InNamespace ns] w = (Inr xs, w1)"
      "IdentifyReconcileFuncForSecret L ed xs nsc ns = Some (UpdateReconcile, None)"
      "reconcileSecretUpdateFunc ed cl xs nsc ns w1 = Some r"
  | (delete) xs w1 where "List (secret_client cl) [InNamespace ns] w = (Inr xs, w1)"
      "IdentifyReconcileFuncForSecret L ed xs nsc ns = Some (DeleteReconcile, None)"
      "r = reconcileSecretDeleteFunc cl xs nsc w1"
  | (keep) xs w1 ty where "List (secret_client cl) [InNamespace ns] w = (Inr xs, w1)"
      "IdentifyReconcileFuncForSecret L ed xs nsc ns = Some (ty, None)"
      "ty \<notin> {CreateReconcile, UpdateReconcile, DeleteReconcile}" "r = (((False, None), nsc), w1)"
proof -
  obtain l w1 where l: "List (secret_client cl) [InNamespace ns] w = (l, w1)" by fastforce
  show thesis
  proof (cases l)
    case (Inl e)
    with l assms list_fails show ?thesis by (auto simp: secretStage_def Let_def)
  next
    case (Inr xs)
    with l assms obtain ty err where id: "IdentifyReconcileFuncForSecret L ed xs nsc ns = Some (ty, err)"
      by (auto simp: secretStage_def bind_eq_Some_conv)
    note facts = l [unfolded Inr] id
    show ?thesis
    proof (cases err)
      case None
      consider "ty = CreateReconcile" | "ty = UpdateReconcile" | "ty = DeleteReconcile"
        | "ty \<notin> {CreateReconcile, UpdateReconcile, DeleteReconcile}"
        by blast
      then show ?thesis
      proof cases
        case 1
        with facts None assms create show ?thesis by (simp add: secretStage_def)
      next
        case 2
        with facts None assms update show ?thesis by (simp add: secretStage_def reconcile_type_defs)
      next
        case 3
        with facts None assms delete show ?thesis by (simp add: secretStage_def reconcile_type_defs)
      next
        case 4
        with facts None assms keep show ?thesis by (simp add: secretStage_def)
      qed
    next
      case (Some e)
      with facts assms identify_fails show ?thesis by (auto simp: secretStage_def)
    qed
  qed
qed

interpretation secret_stage: reconcile_stage "secretStage L ed cl ns"
proof
  fix nsc w rq err nsc' w'
  assume "secretStage L ed cl ns nsc w = Some (((rq, err), nsc'), w')"
  then show "rq \<longleftrightarrow> err \<noteq> None"
    by (cases rule: secret_stage_cases)
      (metis failWith_result, simp, metis secret_create.contract, metis secret_update.contract,
        metis secret_delete.contract, simp)
qed

lemma vsc_stage_cases:
  assumes "vscStage L ed cl ns nsc w = Some r"
  obtains (list_fails) e w1 tag err reason where "List (vsc_client cl) [] w = (Inl e, w1)"
      "r = failWith cl tag nsc err reason w1"
  | (create) xs w1 old new where "List (vsc_client cl) [] w = (Inr xs, w1)"
      "IdentifyReconcileFuncForVSClass L ed xs nsc ns = Some (CreateReconcile, old, Some new)"
      "r = reconcileVolumeSnapshotClassCreateFunc cl new nsc w1"
  | (update) xs w1 old new where "List (vsc_client cl) [] w = (Inr xs, w1)"
      "IdentifyReconcileFuncForVSClass L ed xs nsc ns = Some (UpdateReconcile, Some old, Some new)"
      "r = reconcileVolumeSnapshotClassUpdateFunc cl old new nsc w1"
  | (delete) xs w1 old new where "List (vsc_client cl) [] w = (Inr xs, w1)"
      "IdentifyReconcileFuncForVSClass L ed xs nsc ns = Some (DeleteReconcile, old, new)"
      "r = reconcileVolumeSnapshotClassDeleteFunc cl old nsc w1"
  | (keep) xs w1 ty old new where "List (vsc_client cl) [] w = (Inr xs, w1)"
      "IdentifyReconcileFuncForVSClass L ed xs nsc ns = Some (ty, old, new)"
      "ty \<notin> {CreateReconcile, UpdateReconcile, DeleteReconcile}" "r = (((False, None), nsc), w1)"
proof -
  obtain l w1 where l: "List (vsc_client cl) [] w = (l, w1)" by fastforce
  show thesis
  proof (cases l)
    case (Inl e)
    with l assms list_fails show ?thesis by (auto simp: vscStage_def Let_def)
  next
    case (Inr xs)
    with l assms obtain ty old new where
      id: "IdentifyReconcileFuncForVSClass L ed xs nsc ns = Some (ty, old, new)"
      by (auto simp: vscStage_def bind_eq_Some_conv)
    note facts = l [unfolded Inr] id
    consider "ty = CreateReconcile" | "ty = UpdateReconcile" | "ty = DeleteReconcile"
      | "ty \<notin> {CreateReconcile, UpdateReconcile, DeleteReconcile}"
      by blast
    then show ?thesis
    proof cases
      case 1
      with facts assms create show ?thesis by (auto simp: vscStage_def bind_eq_Some_conv)
    next
      case 2
      with facts assms update show ?thesis by (auto simp: vscStage_def bind_eq_Some_conv reconcile_type_defs)
    next
      case 3
      with facts assms delete show ?thesis by (auto simp: vscStage_def reconcile_type_defs)
    next
      case 4
      with facts assms keep show ?thesis by (auto simp: vscStage_def)
    qed
  qed
qed

interpretation vsc_stage: reconcile_stage "vscStage L ed cl ns"
proof
  fix nsc w rq err nsc' w'
  assume "vscStage L ed cl ns nsc w = Some (((rq, err), nsc'), w')"
  then show "rq \<longleftrightarrow> err \<noteq> None"
    by (cases rule: vsc_stage_cases)
      (metis failWith_result, metis vsc_create.contract, metis vsc_update.contract,
        metis vsc_delete.contract, simp)
qed

interpretation vsc_status: two_stages "vscStage L ed cl ns" "statusStage cl"
  by unfold_locales

interpretation secret_vsc: two_stages "secretStage L ed cl ns" "andThen (vscStage L ed cl ns) (statusStage cl)"
  by unfold_locales

interpretation sc_secret: two_stages "scStage L ed cl scList ns ps"
  "andThen (secretStage L ed cl ns) (andThen (vscStage L ed cl ns) (statusStage cl))"
  by unfold_locales

interpretation event: two_stages "finalizerStage cl"
  "andThen (scStage L ed cl scList ns ps)
    (andThen (secretStage L ed cl ns) (andThen (vscStage L ed cl ns) (statusStage cl)))"
  by unfold_locales

interpretation run: reconcile_stage "RunEventReconcile L ed cl scList ns ps"
  unfolding RunEventReconcile_def by unfold_locales

end
