(* ===== verification/Event_Effects.thy ===== *)
theory Event_Effects
  imports Event_Reconcile Memory_API
begin

text \<open>
  What a run of \<open>RunEventReconcile\<close> and of the reconciler does to the cluster, under \<open>kube_laws\<close> and
  \<open>lib_laws\<close>: its footprint on any outcome, the state it reaches when it succeeds, for an
  NFSStorageClass that lives and for one that is being deleted, and when it can panic.
\<close>

section \<open>Specification\<close>

text \<open>The objects that belong to an NFSStorageClass, when they are as they should be.\<close>

definition sc_realises :: "edition \<Rightarrow> NFSStorageClass \<Rightarrow> string \<Rightarrow> string list \<Rightarrow> StorageClass \<Rightarrow> bool" where
  "sc_realises ed nsc ns ps sc \<longleftrightarrow> Name sc = Name nsc \<and>
     Parameters sc = GetSCParams nsc ns \<and> MountOptions sc = GetSCMountOptions ed nsc \<and>
     Labels sc = Some (desired_labels nsc ps) \<and>
     fmlookup (smap_of (Annotations sc)) NFSStorageClassVolumeSnapshotClassAnnotationKey = Some (Name nsc) \<and>
     ReclaimPolicy sc \<in> {None, Some (SpecReclaimPolicy (Spec nsc))} \<and>
     VolumeBindingMode sc \<in> {None, Some (SpecVolumeBindingMode (Spec nsc))} \<and>
     AllowVolumeExpansion sc \<in> {None, Some True}"

definition secret_realises :: "edition \<Rightarrow> NFSStorageClass \<Rightarrow> string \<Rightarrow> Secret \<Rightarrow> bool" where
  "secret_realises ed nsc ns s \<longleftrightarrow> Name s = secret_name nsc \<and> Namespace s = ns \<and>
     Labels s = Some secretSelector \<and>
     Data s = Option.bind (configureSecret ed nsc ns) StringData"

definition vsc_realises :: "edition \<Rightarrow> NFSStorageClass \<Rightarrow> string \<Rightarrow> VolumeSnapshotClass \<Rightarrow> bool" where
  "vsc_realises ed nsc ns v \<longleftrightarrow> Name v = Name nsc \<and> DeletionPolicy v = SpecReclaimPolicy (Spec nsc) \<and>
     VSParameters v = Option.bind (ConfigureVSClass std_lib ed None nsc ns) VSParameters \<and>
     secretSelector \<subseteq>\<^sub>f smap_of (Labels v)"

definition nsc_settled :: "NFSStorageClass \<Rightarrow> NFSStorageClass \<Rightarrow> bool" where
  "nsc_settled nsc n \<longleftrightarrow> Name n = Name nsc \<and> Namespace n = Namespace nsc \<and> Spec n = Spec nsc \<and> Labels n = Labels nsc \<and>
     DeletionTimestamp n = None \<and> FIN \<in> set (fins n) \<and>
     Status n = Some \<lparr>StatusPhase = CreatedStatusPhase, StatusReason = ''''\<rparr>"

text \<open>
  \<open>cleaned own old new\<close>: what deletion makes of a stored object: nothing stays nothing, an object that is
  not owned stays as it was, an owned one is dismissed, keeping only the finalizers of others.
\<close>

definition cleaned ::
  "('m ObjectMeta_scheme \<Rightarrow> bool) \<Rightarrow> 'm ObjectMeta_scheme option \<Rightarrow> 'm ObjectMeta_scheme option \<Rightarrow> bool" where
  "cleaned own old new \<longleftrightarrow> (case old of
       None \<Rightarrow> new = None
     | Some x \<Rightarrow> if own x then dismissed (remove1 FIN (fins x)) new else new = Some x)"

definition own_sc :: "StorageClass \<Rightarrow> bool" where
  "own_sc sc \<longleftrightarrow> Provisioner sc = NFSStorageClassProvisioner"

definition own_vsc :: "VolumeSnapshotClass \<Rightarrow> bool" where
  "own_vsc v \<longleftrightarrow> Driver v = NFSStorageClassProvisioner"

text \<open>\<open>alike\<close>: the fields of an NFSStorageClass that a reconciliation reads.\<close>

definition alike :: "NFSStorageClass \<Rightarrow> NFSStorageClass \<Rightarrow> bool" where
  "alike m n \<longleftrightarrow> Name n = Name m \<and> Namespace n = Namespace m \<and> Spec n = Spec m \<and>
     Labels n = Labels m \<and> DeletionTimestamp n = DeletionTimestamp m"

lemma alike_refl [simp]: "alike n n"
  by (simp add: alike_def)

lemma alike_configure:
  assumes "Name n = Name m" "Namespace n = Namespace m" "Spec n = Spec m" "Labels n = Labels m"
  shows "ConfigureStorageClass L ed old n ns ps = ConfigureStorageClass L ed old m ns ps"
    and "configureSecret ed n ns = configureSecret ed m ns"
    and "ConfigureVSClass L ed oldv n ns = ConfigureVSClass L ed oldv m ns"
    and "GetSCParams n ns = GetSCParams m ns" and "GetSCMountOptions ed n = GetSCMountOptions ed m"
    and "desired_labels n ps = desired_labels m ps"
  unfolding ConfigureStorageClass_eq ConfigureVSClass_eq configureSecret_def GetSCParams_def
    GetSCMountOptions_eq desired_labels_def merged_annotations_def assms
  by (rule refl)+

lemma settled_alike: "nsc_settled nsc n \<Longrightarrow> DeletionTimestamp nsc = None \<Longrightarrow> alike nsc n"
  by (simp add: nsc_settled_def alike_def)

lemma settled_trans: "nsc_settled nsc n1 \<Longrightarrow> nsc_settled n1 n2 \<Longrightarrow> nsc_settled nsc n2"
  by (simp add: nsc_settled_def)

lemma alike_realises:
  assumes "alike m n"
  shows "sc_realises ed n ns ps = sc_realises ed m ns ps"
    and "secret_realises ed n ns = secret_realises ed m ns"
    and "vsc_realises ed n ns = vsc_realises ed m ns"
  using assms alike_configure [of n m]
  by (simp_all add: alike_def fun_eq_iff sc_realises_def secret_realises_def vsc_realises_def)

context lib_laws
begin

lemma in_sync_realises:
  assumes conf: "ConfigureStorageClass L ed (Some y) nsc ns ps = Some new" and "sc_in_sync y new"
    and "Name y = Name nsc"
  shows "sc_realises ed nsc ns ps y"
proof -
  note f = ConfigureStorageClass_fields [OF conf]
  have "smap_of (Annotations y) = merged_annotations L (Some y) nsc"
    using assms(2) f(7) by (simp add: sc_in_sync_def sc_mutable_differ_def)
  moreover have "fmlookup (merged_annotations L (Some y) nsc) NFSStorageClassVolumeSnapshotClassAnnotationKey = Some (Name nsc)"
    by (simp add: merged_annotations_eq)
  ultimately have "fmlookup (smap_of (Annotations y)) NFSStorageClassVolumeSnapshotClassAnnotationKey = Some (Name nsc)"
    by simp
  with assms(2,3) f show ?thesis
    by (auto simp: sc_realises_def sc_in_sync_def sc_mutable_differ_def sc_immutable_differ_def
        ptr_differ_def split: option.splits)
qed

lemma vsc_in_sync_realises:
  assumes conf: "ConfigureVSClass L ed (Some y) nsc ns = Some new" and "vsc_in_sync y new"
    and "Name y = Name nsc"
  shows "vsc_realises ed nsc ns y"
proof -
  note f = ConfigureVSClass_fields [OF conf]
  have "smap_of (Labels y) = merged_vsc_labels L (Some y)" using assms(2) f(6) by (simp add: vsc_in_sync_def)
  moreover have "secretSelector \<subseteq>\<^sub>f merged_vsc_labels L (Some y)"
    by (simp add: merged_vsc_labels_eq fmsubset.rep_eq map_le_def fmlookup_dom'_iff fmlookup_dom_iff)
  ultimately have "secretSelector \<subseteq>\<^sub>f smap_of (Labels y)" by simp
  with assms(2,3) f conf show ?thesis
    by (auto simp: vsc_realises_def vsc_in_sync_def ConfigureVSClass_eq bind_eq_Some_conv)
qed

end

section \<open>Footprint\<close>

lemma identify_sc_names:
  assumes "IdentifyReconcileFuncForStorageClass L ed scList nsc ns ps = Some (ty, old, new)"
  shows "\<And>sc. old = Some sc \<Longrightarrow> Name sc = Name nsc" and "\<And>sc. new = Some sc \<Longrightarrow> Name sc = Name nsc"
proof -
  have old: "old = None \<or> old = findStorageClass scList (Name nsc)"
    using assms by (auto simp: IdentifyReconcileFuncForStorageClass_def Let_def bind_eq_Some_conv split: if_splits)
  have new: "new = None \<or> new = ConfigureStorageClass L ed (findStorageClass scList (Name nsc)) nsc ns ps"
    using assms by (auto simp: IdentifyReconcileFuncForStorageClass_def Let_def bind_eq_Some_conv split: if_splits)
  show "Name sc = Name nsc" if "old = Some sc" for sc
    using old that by (auto simp: findStorageClass_def dest: find_name [OF sym])
  show "Name sc = Name nsc" if "new = Some sc" for sc
    using new that ConfigureStorageClass_fields(1) by (metis option.distinct(1))
qed

lemma identify_vsc_names:
  assumes "IdentifyReconcileFuncForVSClass L ed xs nsc ns = Some (ty, old, new)"
  shows "\<And>v. old = Some v \<Longrightarrow> Name v = Name nsc" and "\<And>v. new = Some v \<Longrightarrow> Name v = Name nsc"
proof -
  have old: "old = None \<or> old = findVSClass xs (Name nsc)"
    using assms by (auto simp: IdentifyReconcileFuncForVSClass_def Let_def bind_eq_Some_conv split: if_splits)
  have new: "new = None \<or> new = ConfigureVSClass L ed (findVSClass xs (Name nsc)) nsc ns"
    using assms by (auto simp: IdentifyReconcileFuncForVSClass_def Let_def bind_eq_Some_conv split: if_splits)
  show "Name v = Name nsc" if "old = Some v" for v
    using old that by (auto simp: findVSClass_def dest: find_name [OF sym])
  show "Name v = Name nsc" if "new = Some v" for v
    using new that ConfigureVSClass_fields(1) by (metis option.distinct(1))
qed

text \<open>
  The environment of the reconciler: a client and a library that keep their laws and agree on what
  a missing object is.
\<close>

locale reconciler = kube_laws cl view + lib_laws L
  for cl :: "'w client" and view :: "'w \<Rightarrow> cluster" and L :: lib +
  assumes get_missing:
    "Get (nsc_client cl) ns n w = (Inl e, w') \<Longrightarrow> IsNotFound L e \<Longrightarrow> nscs (view w) (ns, n) = None"

interpretation memory: reconciler mem_client mem_view std_lib
proof (intro reconciler.intro reconciler_axioms.intro)
  fix ns n w e w'
  assume "Get (nsc_client mem_client) ns n w = (Inl e, w')" "IsNotFound std_lib e"
  then show "nscs (mem_view w) (ns, n) = None"
    by (auto simp: mem_client_def mem_kind_def mem_get_def mem_view_def std_lib_def
        split: if_splits option.splits)
qed unfold_locales

context reconciler
begin

lemma finalizer_stage_cases:
  assumes "finalizerStage cl nsc w = Some (((rq, err), nsc'), w')"
  obtains added e where "addFinalizerIfNotExists (Update (nsc_client cl)) nsc FIN w = (((added, e), nsc'), w')"
    "err = None \<longleftrightarrow> e = None"
  using assms by (auto simp: finalizerStage_def Let_def split: prod.splits option.splits)

lemma finalizer_stage_footprint:
  assumes "finalizerStage cl nsc w = Some (((rq, err), nsc'), w')"
  shows "footprint view nsc k w nsc' w'"
  using assms
proof (rule finalizer_stage_cases)
  fix added e
  assume a: "addFinalizerIfNotExists (Update (nsc_client cl)) nsc FIN w = (((added, e), nsc'), w')"
  then show ?thesis
  proof (cases rule: add_finalizer_cases)
    case present
    then show ?thesis by simp
  next
    case absent
    from nsc.update_frame [OF absent(2)] nsc.update_key [OF absent(2)] show ?thesis
      by (auto simp: footprint_def ckey_def touches_upd)
  qed
qed

lemma sc_stage_footprint:
  assumes "scStage L ed cl scList ns ps nsc w = Some ((r, nsc'), w')"
  shows "footprint view nsc k w nsc' w'"
  using assms
proof (cases rule: sc_stage_cases)
  case create
  with identify_sc_names [OF create(1)] show ?thesis by (simp add: sc_create_footprint [OF sym])
next
  case recreate
  with identify_sc_names [OF recreate(1)] show ?thesis by (simp add: sc_recreate_footprint [OF sym])
next
  case update
  with identify_sc_names [OF update(1)] show ?thesis by (simp add: sc_update_footprint [OF sym])
next
  case delete
  with identify_sc_names [OF delete(1)] show ?thesis by (simp add: sc_delete_footprint [OF sym])
next
  case keep
  then show ?thesis by simp
qed

lemma footprint_view: "view w1 = view w \<Longrightarrow> footprint view nsc k w1 nsc' w' \<Longrightarrow> footprint view nsc k w nsc' w'"
  by (simp add: footprint_def)

lemma secret_list_namespace:
  assumes "List (secret_client cl) [InNamespace ns] w = (Inr xs, w1)" and "ns \<noteq> ''''" and "s \<in> set xs"
  shows "Namespace s = ns \<and> secrets (view w) (nkey s) = Some s"
  using assms secret.list_mem [OF assms(1), of s] by simp

lemma secret_stage_footprint:
  assumes "secretStage L ed cl ns nsc w = Some ((r, nsc'), w')" and "ns \<noteq> ''''"
  shows "footprint view nsc (ns, secret_name nsc) w nsc' w'"
  using assms(1)
proof (cases rule: secret_stage_cases)
  case list_fails
  then show ?thesis
    using footprint_view [OF secret.list_view [OF list_fails(1)]] failWith_footprint by metis
next
  case identify_fails
  then show ?thesis using footprint_view [OF secret.list_view [OF identify_fails(1)]] by simp
next
  case create
  then show ?thesis
    using footprint_view [OF secret.list_view [OF create(1)]] secret_create_footprint by blast
next
  case update
  then show ?thesis
    using footprint_view [OF secret.list_view [OF update(1)]] secret_update_footprint by blast
next
  case (delete xs w1)
  have "footprint view nsc (ns, secret_name nsc) w1 nsc' w'"
    using secret_delete_footprint [OF delete(3) [symmetric]] secret_list_namespace [OF delete(1) assms(2)] by blast
  then show ?thesis by (rule footprint_view [OF secret.list_view [OF delete(1)]])
next
  case keep
  then show ?thesis using footprint_view [OF secret.list_view [OF keep(1)]] by simp
qed

lemma vsc_stage_footprint:
  assumes "vscStage L ed cl ns nsc w = Some ((r, nsc'), w')"
  shows "footprint view nsc k w nsc' w'"
  using assms
proof (cases rule: vsc_stage_cases)
  case list_fails
  then show ?thesis
    using footprint_view [OF vsc.list_view [OF list_fails(1)]] failWith_footprint by metis
next
  case (create xs w1 old new)
  then have "footprint view nsc k w1 nsc' w'"
    using identify_vsc_names [OF create(2)] by (simp add: vsc_create_footprint [OF sym])
  then show ?thesis by (rule footprint_view [OF vsc.list_view [OF create(1)]])
next
  case (update xs w1 old new)
  then have "footprint view nsc k w1 nsc' w'"
    using identify_vsc_names [OF update(2)] by (simp add: vsc_update_footprint [OF sym])
  then show ?thesis by (rule footprint_view [OF vsc.list_view [OF update(1)]])
next
  case (delete xs w1 old new)
  then have "footprint view nsc k w1 nsc' w'"
    using identify_vsc_names [OF delete(2)] by (simp add: vsc_delete_footprint [OF sym])
  then show ?thesis by (rule footprint_view [OF vsc.list_view [OF delete(1)]])
next
  case keep
  then show ?thesis using footprint_view [OF vsc.list_view [OF keep(1)]] by simp
qed

lemma status_stage_footprint:
  assumes "statusStage cl nsc w = Some ((r, nsc'), w')"
  shows "footprint view nsc k w nsc' w'"
  using assms
  by (auto simp: statusStage_def Let_def split: if_splits prod.splits option.splits intro: status_footprint)

lemma andThen_footprint:
  assumes "andThen f g nsc w = Some ((r, nsc'), w')"
    and f: "\<And>r n' w'. f nsc w = Some ((r, n'), w') \<Longrightarrow> footprint view nsc (ns, secret_name nsc) w n' w'"
    and g: "\<And>n w r n' w'. g n w = Some ((r, n'), w') \<Longrightarrow> footprint view n (ns, secret_name n) w n' w'"
  shows "footprint view nsc (ns, secret_name nsc) w nsc' w'"
proof -
  from assms(1) obtain r1 n1 w1 where 1: "f nsc w = Some ((r1, n1), w1)"
    and 2: "(r = r1 \<and> nsc' = n1 \<and> w' = w1) \<or> g n1 w1 = Some ((r, nsc'), w')"
    by (fastforce simp: andThen_def bind_eq_Some_conv split: if_splits)
  from f [OF 1] have n: "secret_name n1 = secret_name nsc" by (simp add: footprint_def)
  from 2 show ?thesis
  proof
    assume "g n1 w1 = Some ((r, nsc'), w')"
    from g [OF this] f [OF 1] show ?thesis unfolding n by (blast intro: footprint_trans)
  qed (use f [OF 1] in simp)
qed

lemma run_footprint:
  assumes run: "RunEventReconcile L ed cl scList ns ps nsc w = Some ((r, nsc'), w')" and ns: "ns \<noteq> ''''"
  shows "footprint view nsc (ns, secret_name nsc) w nsc' w'"
proof -
  let ?vsc = "andThen (vscStage L ed cl ns) (statusStage cl)"
  let ?secret = "andThen (secretStage L ed cl ns) ?vsc"
  let ?sc = "andThen (scStage L ed cl scList ns ps) ?secret"
  have vsc: "?vsc n w = Some ((r, n'), w') \<Longrightarrow> footprint view n (ns, secret_name n) w n' w'" for n w r n' w'
    by (erule andThen_footprint) (erule vsc_stage_footprint, erule status_stage_footprint)
  have secret: "?secret n w = Some ((r, n'), w') \<Longrightarrow> footprint view n (ns, secret_name n) w n' w'" for n w r n' w'
    by (erule andThen_footprint) (erule secret_stage_footprint [OF _ ns], erule vsc)
  have sc: "?sc n w = Some ((r, n'), w') \<Longrightarrow> footprint view n (ns, secret_name n) w n' w'" for n w r n' w'
    by (erule andThen_footprint) (erule sc_stage_footprint, erule secret)
  have fin: "finalizerStage cl n w = Some ((r, n'), w') \<Longrightarrow> footprint view n k w n' w'" for n w r n' w' k
    using finalizer_stage_footprint by (metis prod.collapse)
  from run [unfolded RunEventReconcile_def] show ?thesis
    by (rule andThen_footprint) (erule fin, erule sc)
qed

end

section \<open>Success\<close>

lemma run_success:
  assumes "RunEventReconcile L ed cl scList ns ps nsc w = Some (((rq, None), nsc'), w')"
  obtains n1 w1 n2 w2 n3 w3 n4 w4 where
    "finalizerStage cl nsc w = Some (((False, None), n1), w1)"
    "scStage L ed cl scList ns ps n1 w1 = Some (((False, None), n2), w2)"
    "secretStage L ed cl ns n2 w2 = Some (((False, None), n3), w3)"
    "vscStage L ed cl ns n3 w3 = Some (((False, None), n4), w4)"
    "statusStage cl n4 w4 = Some (((rq, None), nsc'), w')"
  using assms unfolding RunEventReconcile_def
  by (elim finalizer_stage.andThen_success sc_stage.andThen_success secret_stage.andThen_success
      vsc_stage.andThen_success) (rule that)

context reconciler
begin

lemma finalizer_stage_ok:
  assumes "finalizerStage cl nsc w = Some (((rq, None), n1), w1)" and "nscs (view w) (ckey nsc) = Some nsc"
  shows "alike nsc n1 \<and> fins n1 = (if FIN \<in> set (fins nsc) then fins nsc else fins nsc @ [FIN]) \<and>
    view w1 = nscs_update (\<lambda>s. s(ckey nsc := Some n1)) (view w)"
  using assms(1)
proof (rule finalizer_stage_cases)
  fix added e
  assume a: "addFinalizerIfNotExists (Update (nsc_client cl)) nsc FIN w = (((added, e), n1), w1)"
    and e: "None = None \<longleftrightarrow> e = (None :: go_error option)"
  from a show ?thesis
  proof (cases rule: add_finalizer_cases)
    case present
    with assms(2) show ?thesis by (auto simp: fun_upd_idem)
  next
    case absent
    let ?x = "nsc\<lparr>Finalizers := Some (fins nsc @ [FIN])\<rparr>"
    from nsc.update_finalizers [OF absent(2) [unfolded e [simplified]] assms(2)]
    have same: "same_object (wire_meta ?x) n1" and rest: "fins n1 = fins nsc @ [FIN]"
      "DeletionTimestamp n1 = DeletionTimestamp nsc"
      "view w1 = nscs_update (\<lambda>s. s(ckey nsc := Some n1)) (view w)"
      by simp_all
    have "wire_meta ?x = (wire_meta nsc)\<lparr>Finalizers := Some (fins nsc @ [FIN])\<rparr>"
      by (simp add: wire_meta_def)
    then have "same_object ?x n1" using same nsc.stored_wire [OF assms(2)] by simp
    then have "Name n1 = Name nsc \<and> Namespace n1 = Namespace nsc \<and> Labels n1 = Labels nsc \<and> Spec n1 = Spec nsc"
      by (auto elim!: same_object_fields)
    with absent rest show ?thesis by (simp add: alike_def)
  qed
qed

lemma sc_stage_ok:
  assumes ok: "scStage L ed cl scList ns ps nsc w = Some (((rq, None), nsc'), w')"
    and live: "DeletionTimestamp nsc = None"
    and c: "Connection (Spec nsc) = Some c" "NFSVersion c \<noteq> ''''"
    and list: "findStorageClass scList (Name nsc) = scs (view w) (ckey nsc)"
  shows "nsc' = nsc \<and> (\<exists>sc. sc_realises ed nsc ns ps sc \<and>
    view w' = scs_update (\<lambda>s. s(ckey nsc := Some sc)) (view w))"
proof -
  have put: ?thesis if "nsc' = nsc" "ConfigureStorageClass L ed old nsc ns ps = Some new"
    "puts wire_sc scs_update (ckey new) new (view w) (view w')" for old new
  proof -
    note f = ConfigureStorageClass_fields [OF that(2)]
    from that(3) obtain y where y: "same_object (wire_sc new) y"
      and w': "view w' = scs_update (\<lambda>s. s(ckey new := Some y)) (view w)"
      by (auto simp: puts_def)
    have "Name y = Name nsc" using same_object_meta(1) [OF y] f(1) by (simp add: wire_sc_def)
    with sc_fixed_point [OF c that(2) y] in_sync_realises have "sc_realises ed nsc ns ps y" by blast
    with that(1) w' f(1) show ?thesis by (auto simp: ckey_def)
  qed
  show ?thesis
  proof (cases "scs (view w) (ckey nsc)")
    case None
    obtain new where new: "ConfigureStorageClass L ed None nsc ns ps = Some new"
      using c ConfigureStorageClass_panic [of L ed None nsc ns ps] by auto
    have "IdentifyReconcileFuncForStorageClass L ed scList nsc ns ps = Some (CreateReconcile, None, Some new)"
      using identify_sc_absent [of scList nsc L ed ns ps] list None live new by simp
    with ok have "reconcileStorageClassCreateFunc cl new nsc w = (((rq, None), nsc'), w')"
      by (simp add: scStage_def)
    from sc_create_ok [OF this] put [OF _ new] show ?thesis by blast
  next
    case (Some old)
    obtain new where new: "ConfigureStorageClass L ed (Some old) nsc ns ps = Some new"
      using c ConfigureStorageClass_panic [of L ed "Some old" nsc ns ps] by auto
    note f = ConfigureStorageClass_fields [OF new]
    have old: "Name old = Name nsc" "ckey old = ckey nsc" using sc.keyed [OF Some] by (simp_all add: ckey_def)
    have id: "IdentifyReconcileFuncForStorageClass L ed scList nsc ns ps = Some
      (if sc_in_sync old new then '''' else if sc_immutable_differ old new then RecreateReconcile else UpdateReconcile,
       Some old, Some new)"
      using identify_sc_exists [OF _ live new] list Some by simp
    consider "sc_in_sync old new" | "\<not> sc_in_sync old new" "sc_immutable_differ old new"
      | "\<not> sc_in_sync old new" "\<not> sc_immutable_differ old new" by blast
    then show ?thesis
    proof cases
      case 1
      with ok id have "nsc' = nsc" "w' = w" by (auto simp: scStage_def reconcile_type_defs)
      with in_sync_realises [OF new 1 old(1)] Some show ?thesis by (auto simp: fun_upd_idem)
    next
      case 2
      with ok id have "reconcileStorageClassRecreateFunc cl old new nsc w = (((rq, None), nsc'), w')"
        by (simp add: scStage_def reconcile_type_defs)
      from sc_recreate_ok [OF this] put [OF _ new] f(1) old Some show ?thesis by simp
    next
      case 3
      with ok id have "reconcileStorageClassUpdateFunc cl old new nsc w = (((rq, None), nsc'), w')"
        by (simp add: scStage_def reconcile_type_defs)
      from sc_update_ok [OF this] put [OF _ new] f(3) show ?thesis by (simp add: fins_def)
    qed
  qed
qed

lemma secret_find:
  assumes "List (secret_client cl) [InNamespace ns] w = (Inr xs, w1)" and "ns \<noteq> ''''"
  shows "find (\<lambda>s. Name s = n) xs = secrets (view w) (ns, n)"
proof (cases "find (\<lambda>s. Name s = n) xs")
  case None
  have "secrets (view w) (ns, n) = None"
  proof (rule ccontr)
    assume "secrets (view w) (ns, n) \<noteq> None"
    then obtain s where s: "secrets (view w) (ns, n) = Some s" by blast
    from secret.keyed [OF s] have "nkey s = (ns, n)" .
    with s secret.list_mem [OF assms(1), of s] have "s \<in> set xs" "Name s = n" by (simp_all add: nkey_def)
    with None show False by (simp add: find_None_iff)
  qed
  with None show ?thesis by simp
next
  case (Some s)
  with find_name [OF Some] secret_list_namespace [OF assms, of s] show ?thesis by (auto simp: nkey_def)
qed

lemma wire_secret_fields:
  assumes "configureSecret ed nsc ns = Some new" and "same_object (wire_secret new) s"
  shows "secret_realises ed nsc ns s"
proof -
  note f = configureSecret_fields [OF assms(1)]
  obtain d where d: "StringData new = Some d" using f(6) by blast
  have "d \<noteq> fmempty"
    using assms(1) d by (auto simp: configureSecret_def Let_def bind_eq_Some_conv split: if_splits)
  then have w: "Data (wire_secret new) = Some d" "Name (wire_secret new) = Name new"
    "Namespace (wire_secret new) = Namespace new" "Labels (wire_secret new) = Labels new"
    using d f(3,7) by (simp_all add: wire_secret_def wire_meta_def smap_of_def secretSelector_def)
  have "Data s = Data (wire_secret new)" using assms(2) by (auto elim!: same_object_fields)
  with same_object_meta [OF assms(2)] w f d assms(1) show ?thesis
    by (simp add: secret_realises_def)
qed

lemma secret_stage_ok:
  assumes ok: "secretStage L ed cl ns nsc w = Some (((rq, None), nsc'), w')"
    and live: "DeletionTimestamp nsc = None" and ns: "ns \<noteq> ''''"
  shows "nsc' = nsc \<and> (\<exists>s. secret_realises ed nsc ns s \<and>
    view w' = secrets_update (\<lambda>m. m((ns, secret_name nsc) := Some s)) (view w))"
  using ok
proof (cases rule: secret_stage_cases)
  case list_fails
  then show ?thesis using failWith_result by metis
next
  case identify_fails
  then show ?thesis by simp
next
  case (create xs w1)
  from create(3) secret.list_view [OF create(1)] show ?thesis
    by (elim secret_create_ok) (auto simp: puts_def intro: wire_secret_fields)
next
  case (update xs w1)
  from update(3) secret.list_view [OF update(1)] show ?thesis
    by (elim secret_update_ok) (auto simp: puts_def intro: wire_secret_fields)
next
  case (delete xs w1)
  then show ?thesis using live
    by (auto simp: IdentifyReconcileFuncForSecret_def shouldReconcileByDeleteFunc_def
        reconcile_type_defs bind_eq_Some_conv split: if_splits prod.splits)
next
  case (keep xs w1 ty)
  show ?thesis
  proof (cases "find (\<lambda>s. Name s = secret_name nsc) xs")
    case None
    with keep identify_secret_absent [OF live None] show ?thesis by simp
  next
    case (Some s)
    from secret_list_namespace [OF keep(1) ns] find_name [OF Some]
    have "wire_secret s = s" using secret.stored_wire by blast
    then have "StringData s = None" by (metis Secret.select_convs(3) Secret.surjective Secret.update_convs(3) wire_secret_def)
    obtain new where new: "configureSecret ed nsc ns = Some new"
      using keep(2) identify_secret_exists [OF live Some, of L ed ns] by (auto simp: bind_eq_Some_conv)
    have "StringData s \<noteq> StringData new"
      using configureSecret_fields(6) [OF new] \<open>StringData s = None\<close> by auto
    with keep new identify_secret_exists [OF live Some, of L ed ns] show ?thesis
      by (auto split: if_splits)
  qed
qed

lemma vsc_stage_ok:
  assumes ok: "vscStage L ed cl ns nsc w = Some (((rq, None), nsc'), w')"
    and live: "DeletionTimestamp nsc = None" and c: "Connection (Spec nsc) \<noteq> None"
  shows "nsc' = nsc \<and> (\<exists>v. vsc_realises ed nsc ns v \<and>
    view w' = vscs_update (\<lambda>s. s(ckey nsc := Some v)) (view w))"
proof -
  have put: ?thesis if "nsc' = nsc" "ConfigureVSClass L ed old nsc ns = Some new"
    "puts wire_vsclass vscs_update (ckey new) new (view w) (view w')" for old new
  proof -
    note f = ConfigureVSClass_fields [OF that(2)]
    from that(3) obtain y where y: "same_object (wire_vsclass new) y"
      and w': "view w' = vscs_update (\<lambda>s. s(ckey new := Some y)) (view w)"
      by (auto simp: puts_def)
    have "Name y = Name nsc" using same_object_meta(1) [OF y] f(1) by (simp add: wire_vsclass_def)
    with vsc_fixed_point [OF that(2) y] vsc_in_sync_realises have "vsc_realises ed nsc ns y" by blast
    with that(1) w' f(1) show ?thesis by (auto simp: ckey_def)
  qed
  have conf: "IdentifyReconcileFuncForVSClass L ed xs nsc ns = Some (ty, old, new) \<Longrightarrow>
      \<exists>n. new = Some n \<and> ConfigureVSClass L ed (findVSClass xs (Name nsc)) nsc ns = Some n" for xs ty old new
    using live by (auto simp: IdentifyReconcileFuncForVSClass_def shouldReconcileByDeleteFunc_def
        Let_def bind_eq_Some_conv split: if_splits)
  show ?thesis
    using ok
  proof (cases rule: vsc_stage_cases)
    case list_fails
    then show ?thesis using failWith_result by metis
  next
    case (create xs w1 old new)
    with conf [OF create(2)] vsc_create_ok [OF create(3) [symmetric]] vsc.list_view [OF create(1)] put
    show ?thesis by simp
  next
    case (update xs w1 old new)
    from conf [OF update(2)] have new: "ConfigureVSClass L ed (findVSClass xs (Name nsc)) nsc ns = Some new" by simp
    have "fins new \<noteq> []" using ConfigureVSClass_fields(2) [OF new] by (simp add: fins_def)
    with vsc_update_ok [OF update(3) [symmetric]] vsc.list_view [OF update(1)] put [OF _ new]
    show ?thesis by simp
  next
    case (delete xs w1 old new)
    then show ?thesis using live
      by (auto simp: IdentifyReconcileFuncForVSClass_def shouldReconcileByDeleteFunc_def Let_def
          reconcile_type_defs bind_eq_Some_conv split: if_splits)
  next
    case (keep xs w1 ty old new)
    have find: "findVSClass xs (Name nsc) = vscs (view w) (ckey nsc)"
      using vsc.list_find [OF keep(1), of "ckey nsc"] by (simp add: findVSClass_def ckey_def)
    obtain n where n: "ConfigureVSClass L ed (findVSClass xs (Name nsc)) nsc ns = Some n"
      using conf [OF keep(2)] by blast
    have "\<exists>v. findVSClass xs (Name nsc) = Some v \<and> vsc_in_sync v n"
      using keep(2,3) live n compare_vsc_none
      by (auto simp: IdentifyReconcileFuncForVSClass_def shouldReconcileByDeleteFunc_def Let_def
          shouldReconcileVSClassByCreateFunc_def shouldReconcileVSClassByUpdateFunc_def
          split: if_splits option.splits)
    then obtain v where v: "findVSClass xs (Name nsc) = Some v" "vsc_in_sync v n" by blast
    then have "Name v = Name nsc" using find_name by (auto simp: findVSClass_def)
    with v n vsc_in_sync_realises have "vsc_realises ed nsc ns v" by metis
    with keep(4) v find vsc.list_view [OF keep(1)] show ?thesis by (auto simp: fun_upd_idem)
  qed
qed

lemma status_stage_ok:
  assumes ok: "statusStage cl nsc w = Some (((rq, None), nsc'), w')"
    and live: "DeletionTimestamp nsc = None" and stored: "nscs (view w) (ckey nsc) = Some nsc"
    and fin: "FIN \<in> set (fins nsc)"
  shows "nsc_settled nsc nsc' \<and> view w' = nscs_update (\<lambda>s. s(ckey nsc := Some nsc')) (view w)"
proof -
  from ok live have u: "updateNFSStorageClassPhase cl nsc CreatedStatusPhase '''' w = ((None, nsc'), w')"
    by (auto simp: statusStage_def Let_def split: prod.splits option.splits)
  let ?st = "Some \<lparr>StatusPhase = CreatedStatusPhase, StatusReason = ''''\<rparr>"
  have "updateNFSStorageClassPhase cl nsc CreatedStatusPhase '''' w =
      StatusUpdate (nsc_client cl) (nsc\<lparr>Status := ?st\<rparr>) w"
    by (cases "case Status nsc of None \<Rightarrow> \<lparr>StatusPhase = '''', StatusReason = ''''\<rparr> | Some s \<Rightarrow> s")
      (simp add: updateNFSStorageClassPhase_def Let_def)
  with u have "StatusUpdate (nsc_client cl) (nsc\<lparr>Status := ?st\<rparr>) w = ((None, nsc'), w')" by simp
  from status_ok [OF this] stored have same: "same_object (nsc\<lparr>Status := ?st\<rparr>) nsc'"
    and rest: "DeletionTimestamp nsc' = DeletionTimestamp nsc"
      "view w' = nscs_update (\<lambda>s. s(ckey nsc := Some nsc')) (view w)"
    by (auto simp: ckey_def)
  have "Spec nsc' = Spec nsc" "Status nsc' = ?st" using same by (auto elim!: same_object_fields)
  moreover have "fins nsc' = fins nsc" using same_object_meta(6) [OF same] by (simp add: fins_def)
  ultimately show ?thesis using rest live fin same_object_meta [OF same] by (simp add: nsc_settled_def)
qed

lemma run_live:
  assumes run: "RunEventReconcile L ed cl scList ns ps nsc w = Some (((rq, None), nsc'), w')"
    and live: "DeletionTimestamp nsc = None" and stored: "nscs (view w) (ckey nsc) = Some nsc"
    and c: "Connection (Spec nsc) = Some c" "NFSVersion c \<noteq> ''''" and ns: "ns \<noteq> ''''"
    and list: "findStorageClass scList (Name nsc) = scs (view w) (ckey nsc)"
  shows "\<exists>n sc s v. nsc_settled nsc n \<and> sc_realises ed nsc ns ps sc \<and> secret_realises ed nsc ns s \<and>
    vsc_realises ed nsc ns v \<and>
    view w' = (view w)\<lparr>
      nscs := (nscs (view w))(ckey nsc \<mapsto> n), scs := (scs (view w))(ckey nsc \<mapsto> sc),
      secrets := (secrets (view w))((ns, secret_name nsc) \<mapsto> s), vscs := (vscs (view w))(ckey nsc \<mapsto> v)\<rparr>"
  using run
proof (rule run_success)
  fix n1 w1 n2 w2 n3 w3 n4 w4
  assume s1: "finalizerStage cl nsc w = Some (((False, None), n1), w1)"
    and s2: "scStage L ed cl scList ns ps n1 w1 = Some (((False, None), n2), w2)"
    and s3: "secretStage L ed cl ns n2 w2 = Some (((False, None), n3), w3)"
    and s4: "vscStage L ed cl ns n3 w3 = Some (((False, None), n4), w4)"
    and s5: "statusStage cl n4 w4 = Some (((rq, None), nsc'), w')"
  from finalizer_stage_ok [OF s1 stored] have a: "alike nsc n1" and f: "FIN \<in> set (fins n1)"
    and v1: "view w1 = nscs_update (\<lambda>s. s(ckey nsc := Some n1)) (view w)" by auto
  have k: "ckey n1 = ckey nsc" "secret_name n1 = secret_name nsc" "DeletionTimestamp n1 = None"
    "Spec n1 = Spec nsc" "Name n1 = Name nsc" "Namespace n1 = Namespace nsc" "Labels n1 = Labels nsc"
    using a live by (simp_all add: alike_def ckey_def)
  from sc_stage_ok [OF s2 k(3)] c list obtain sc where n2: "n2 = n1" and
    sc: "sc_realises ed nsc ns ps sc" "view w2 = scs_update (\<lambda>s. s(ckey nsc := Some sc)) (view w1)"
    by (auto simp: k v1 alike_realises(1) [OF a])
  from secret_stage_ok [OF s3 _ ns] n2 obtain s where n3: "n3 = n1" and
    s: "secret_realises ed nsc ns s"
      "view w3 = secrets_update (\<lambda>m. m((ns, secret_name nsc) := Some s)) (view w2)"
    by (auto simp: k alike_realises(2) [OF a])
  from vsc_stage_ok [OF s4] n3 c obtain v where n4: "n4 = n1" and
    v: "vsc_realises ed nsc ns v" "view w4 = vscs_update (\<lambda>s. s(ckey nsc := Some v)) (view w3)"
    by (auto simp: k alike_realises(3) [OF a])
  have "nscs (view w4) (ckey n1) = Some n1" by (simp add: k v(2) s(2) sc(2) v1)
  from status_stage_ok [OF s5 [unfolded n4] k(3) this f] have n: "nsc_settled nsc nsc'"
    and v5: "view w' = nscs_update (\<lambda>s. s(ckey nsc := Some nsc')) (view w4)"
    by (auto simp: nsc_settled_def k)
  from n sc(1) s(1) v(1) show ?thesis
    by (intro exI conjI) (assumption | simp add: v5 v(2) s(2) sc(2) v1)+
qed

end

section \<open>Deletion\<close>

lemma allowed_own:
  "Provisioner sc \<in> set allowedProvisioners \<longleftrightarrow> own_sc sc" "Driver v \<in> set allowedProvisioners \<longleftrightarrow> own_vsc v"
  by (simp_all add: own_sc_def own_vsc_def allowedProvisioners_def)

lemma identify_vsc_deleted:
  "DeletionTimestamp nsc \<noteq> None \<Longrightarrow> IdentifyReconcileFuncForVSClass L ed xs nsc ns =
    Some (DeleteReconcile, findVSClass xs (Name nsc), None)"
  by (simp add: IdentifyReconcileFuncForVSClass_def shouldReconcileByDeleteFunc_def)

lemma identify_secret_deleted:
  "DeletionTimestamp nsc \<noteq> None \<Longrightarrow> IdentifyReconcileFuncForSecret L ed xs nsc ns = Some (DeleteReconcile, None)"
  by (simp add: IdentifyReconcileFuncForSecret_def shouldReconcileByDeleteFunc_def)

context reconciler
begin

lemma sc_stage_deleting:
  assumes ok: "scStage L ed cl scList ns ps nsc w = Some (((rq, None), nsc'), w')"
    and del: "DeletionTimestamp nsc \<noteq> None"
    and list: "findStorageClass scList (Name nsc) = scs (view w) (ckey nsc)"
  shows "nsc' = nsc \<and> (\<exists>b. cleaned own_sc (scs (view w) (ckey nsc)) b \<and>
    view w' = scs_update (\<lambda>s. s(ckey nsc := b)) (view w))"
proof -
  from ok have d: "reconcileStorageClassDeleteFunc cl (scs (view w) (ckey nsc)) nsc w = (((rq, None), nsc'), w')"
    by (simp add: scStage_def identify_sc_deleted [OF del] list reconcile_type_defs)
  have st: "scs (view w) (ckey nsc) = Some sc \<Longrightarrow> ckey sc = ckey nsc \<and> scs (view w) (ckey sc) = Some sc" for sc
    using sc.keyed [of w "ckey nsc" sc] by (simp add: ckey_def)
  from sc_delete_ok [OF d] st show ?thesis
    by (cases "scs (view w) (ckey nsc)")
      (auto simp: cleaned_def allowed_own discards_def fun_upd_idem ckey_def split: if_splits)
qed

lemma vsc_stage_deleting:
  assumes ok: "vscStage L ed cl ns nsc w = Some (((rq, None), nsc'), w')"
    and del: "DeletionTimestamp nsc \<noteq> None"
  shows "nsc' = nsc \<and> (\<exists>v. cleaned own_vsc (vscs (view w) (ckey nsc)) v \<and>
    view w' = vscs_update (\<lambda>s. s(ckey nsc := v)) (view w))"
proof -
  obtain l w1 where l: "List (vsc_client cl) [] w = (l, w1)" by fastforce
  have vw: "view w1 = view w" using vsc.list_view [OF l] .
  from ok l obtain xs where xs: "l = Inr xs"
    by (cases l) (auto simp: vscStage_def Let_def dest: failWith_result)
  have list: "findVSClass xs (Name nsc) = vscs (view w) (ckey nsc)"
    using vsc.list_find [OF l [unfolded xs], of "ckey nsc"] by (simp add: findVSClass_def ckey_def)
  from ok l xs have d: "reconcileVolumeSnapshotClassDeleteFunc cl (vscs (view w) (ckey nsc)) nsc w1 = (((rq, None), nsc'), w')"
    by (simp add: vscStage_def identify_vsc_deleted [OF del] list reconcile_type_defs)
  have st: "vscs (view w) (ckey nsc) = Some v \<Longrightarrow> ckey v = ckey nsc \<and> vscs (view w1) (ckey v) = Some v" for v
    using vsc.keyed [of w "ckey nsc" v] vw by (simp add: ckey_def)
  from vsc_delete_ok [OF d] st show ?thesis
    by (cases "vscs (view w) (ckey nsc)")
      (auto simp: cleaned_def allowed_own discards_def fun_upd_idem vw ckey_def split: if_splits)
qed

lemma secret_stage_deleting:
  assumes ok: "secretStage L ed cl ns nsc w = Some (((rq, None), nsc'), w')"
    and del: "DeletionTimestamp nsc \<noteq> None" and ns: "ns \<noteq> ''''"
    and stored: "nscs (view w) (ckey nsc) = Some nsc" and fin: "FIN \<in> set (fins nsc)"
  shows "DeletionTimestamp nsc' \<noteq> None \<and> Name nsc' = Name nsc \<and>
    (\<exists>s a. cleaned (\<lambda>_. True) (secrets (view w) (ns, secret_name nsc)) s \<and>
      dismissed (remove1 FIN (fins nsc)) a \<and>
      view w' = (view w)\<lparr>nscs := (nscs (view w))(ckey nsc := a),
        secrets := (secrets (view w))((ns, secret_name nsc) := s)\<rparr>)"
proof -
  obtain l w1 where l: "List (secret_client cl) [InNamespace ns] w = (l, w1)" by fastforce
  have vw: "view w1 = view w" using secret.list_view [OF l] .
  from ok l obtain xs where xs: "l = Inr xs"
    by (cases l) (auto simp: secretStage_def Let_def dest: failWith_result)
  note mem = secret_list_namespace [OF l [unfolded xs] ns]
  from ok l xs have d: "reconcileSecretDeleteFunc cl xs nsc w1 = (((rq, None), nsc'), w')"
    by (simp add: secretStage_def identify_secret_deleted [OF del] reconcile_type_defs)
  from d obtain w2 where r: "releaseNFSStorageClass cl nsc w2 = (((rq, None), nsc'), w')"
    and s: "case find (\<lambda>s. Name s = secret_name nsc) xs of
        None \<Rightarrow> view w2 = view w1
      | Some s \<Rightarrow> discards secrets_update (nkey s) (remove1 FIN (fins s)) (view w1) (view w2)"
    by (rule secret_delete_ok) (use mem vw in auto)
  have "\<exists>s. cleaned (\<lambda>_. True) (secrets (view w) (ns, secret_name nsc)) s \<and>
      view w2 = secrets_update (\<lambda>m. m((ns, secret_name nsc) := s)) (view w)"
  proof (cases "secrets (view w) (ns, secret_name nsc)")
    case None
    with s vw secret_find [OF l [unfolded xs] ns] show ?thesis by (auto simp: cleaned_def fun_upd_idem)
  next
    case (Some s0)
    with s vw secret_find [OF l [unfolded xs] ns] secret.keyed [OF Some] show ?thesis
      by (auto simp: cleaned_def discards_def)
  qed
  then obtain s where cs: "cleaned (\<lambda>_. True) (secrets (view w) (ns, secret_name nsc)) s"
    and v2: "view w2 = secrets_update (\<lambda>m. m((ns, secret_name nsc) := s)) (view w)" by blast
  from release_ok [OF r _ fin] stored v2 del have "DeletionTimestamp nsc' \<noteq> None" "Name nsc' = Name nsc"
    "dismissed (remove1 FIN (fins nsc)) (if remove1 FIN (fins nsc) = [] then None else Some nsc')"
    "view w' = nscs_update (\<lambda>m. m(ckey nsc := (if remove1 FIN (fins nsc) = [] then None else Some nsc'))) (view w2)"
    by (auto simp: dismissed_def)
  with cs v2 show ?thesis by (intro conjI exI) (assumption | simp)+
qed

lemma run_deleting:
  assumes run: "RunEventReconcile L ed cl scList ns ps nsc w = Some (((rq, None), nsc'), w')"
    and del: "DeletionTimestamp nsc \<noteq> None" and stored: "nscs (view w) (ckey nsc) = Some nsc"
    and ns: "ns \<noteq> ''''" and list: "findStorageClass scList (Name nsc) = scs (view w) (ckey nsc)"
  shows "\<exists>a b s v. dismissed (remove1 FIN (fins nsc)) a \<and> cleaned own_sc (scs (view w) (ckey nsc)) b \<and>
    cleaned (\<lambda>_. True) (secrets (view w) (ns, secret_name nsc)) s \<and>
    cleaned own_vsc (vscs (view w) (ckey nsc)) v \<and>
    view w' = (view w)\<lparr>
      nscs := (nscs (view w))(ckey nsc := a), scs := (scs (view w))(ckey nsc := b),
      secrets := (secrets (view w))((ns, secret_name nsc) := s), vscs := (vscs (view w))(ckey nsc := v)\<rparr>"
  using run
proof (rule run_success)
  fix n1 w1 n2 w2 n3 w3 n4 w4
  assume s1: "finalizerStage cl nsc w = Some (((False, None), n1), w1)"
    and s2: "scStage L ed cl scList ns ps n1 w1 = Some (((False, None), n2), w2)"
    and s3: "secretStage L ed cl ns n2 w2 = Some (((False, None), n3), w3)"
    and s4: "vscStage L ed cl ns n3 w3 = Some (((False, None), n4), w4)"
    and s5: "statusStage cl n4 w4 = Some (((rq, None), nsc'), w')"
  from finalizer_stage_ok [OF s1 stored] have a: "alike nsc n1" and f: "FIN \<in> set (fins n1)"
    and f1: "remove1 FIN (fins n1) = remove1 FIN (fins nsc)"
    and v1: "view w1 = nscs_update (\<lambda>s. s(ckey nsc := Some n1)) (view w)"
    by (auto simp: remove1_append remove1_idem)
  have k: "ckey n1 = ckey nsc" "secret_name n1 = secret_name nsc" "DeletionTimestamp n1 \<noteq> None" "Name n1 = Name nsc"
    using a del by (simp_all add: alike_def ckey_def)
  from sc_stage_deleting [OF s2 k(3)] list obtain b where n2: "n2 = n1" and
    b: "cleaned own_sc (scs (view w) (ckey nsc)) b" "view w2 = scs_update (\<lambda>s. s(ckey nsc := b)) (view w1)"
    by (auto simp: k v1)
  have "nscs (view w2) (ckey n1) = Some n1" by (simp add: b(2) v1 k)
  from secret_stage_deleting [OF s3 [unfolded n2] k(3) ns this f] obtain s a where
    d3: "DeletionTimestamp n3 \<noteq> None" "Name n3 = Name nsc" and
    s: "cleaned (\<lambda>_. True) (secrets (view w) (ns, secret_name nsc)) s" "dismissed (remove1 FIN (fins nsc)) a"
      "view w3 = (view w2)\<lparr>nscs := (nscs (view w2))(ckey nsc := a),
        secrets := (secrets (view w2))((ns, secret_name nsc) := s)\<rparr>"
    by (auto simp: k b(2) v1 f1)
  have k3: "ckey n3 = ckey nsc" using d3 by simp
  from vsc_stage_deleting [OF s4 d3(1)] obtain v where n4: "n4 = n3" and
    v: "cleaned own_vsc (vscs (view w) (ckey nsc)) v" "view w4 = vscs_update (\<lambda>s. s(ckey nsc := v)) (view w3)"
    by (auto simp: k3 s(3) b(2) v1)
  have "view w' = view w4" using s5 n4 d3 by (auto simp: statusStage_def)
  with b(1) s(1,2) v(1) show ?thesis
    by (intro exI conjI) (assumption | simp add: v(2) s(3) b(2) v1)+
qed

end

section \<open>Panics\<close>

lemma andThen_total:
  assumes "f nsc w \<noteq> None" and "\<And>n w1. f nsc w = Some (((False, None), n), w1) \<Longrightarrow> g n w1 \<noteq> None"
  shows "andThen f g nsc w \<noteq> None"
proof -
  from assms(1) obtain rq err n w1 where "f nsc w = Some (((rq, err), n), w1)" by auto
  with assms(2) show ?thesis by (cases "err = None \<and> \<not> rq") (auto simp: andThen_def)
qed

lemma identify_sc_total:
  assumes "DeletionTimestamp nsc = None"
    and "ConfigureStorageClass L ed (findStorageClass scList (Name nsc)) nsc ns ps = Some new"
  shows "\<exists>ty old. IdentifyReconcileFuncForStorageClass L ed scList nsc ns ps = Some (ty, old, Some new) \<and>
    (ty \<in> {RecreateReconcile, UpdateReconcile} \<longrightarrow> old \<noteq> None) \<and> ty \<noteq> DeleteReconcile"
proof (cases "findStorageClass scList (Name nsc)")
  case None
  with assms identify_sc_absent [OF None assms(1), of L ed ns ps] show ?thesis by (auto simp: reconcile_type_defs)
next
  case (Some old)
  let ?u = "shouldReconcileStorageClassByRecreateOrUpdateFunc L (Some old) new nsc"
  have "IdentifyReconcileFuncForStorageClass L ed scList nsc ns ps = Some (?u, Some old, Some new)"
    using assms Some
    by (simp add: IdentifyReconcileFuncForStorageClass_def shouldReconcileByDeleteFunc_def Let_def
        shouldReconcileStorageClassByCreateFunc_def)
  moreover have "?u \<noteq> DeleteReconcile"
    using assms(1)
    by (auto simp: shouldReconcileStorageClassByRecreateOrUpdateFunc_def reconcile_type_defs split: prod.split)
  ultimately show ?thesis by blast
qed

lemma identify_vsc_total:
  assumes "DeletionTimestamp nsc = None"
    and "ConfigureVSClass L ed (findVSClass xs (Name nsc)) nsc ns = Some new"
  shows "\<exists>ty old. IdentifyReconcileFuncForVSClass L ed xs nsc ns = Some (ty, old, Some new) \<and>
    (ty = UpdateReconcile \<longrightarrow> old \<noteq> None) \<and> ty \<noteq> DeleteReconcile"
  using assms
  by (cases "findVSClass xs (Name nsc)")
    (auto simp: IdentifyReconcileFuncForVSClass_def shouldReconcileByDeleteFunc_def Let_def
      shouldReconcileVSClassByCreateFunc_def shouldReconcileVSClassByUpdateFunc_def reconcile_type_defs)

lemma sc_stage_total:
  assumes "Connection (Spec nsc) \<noteq> None \<or> DeletionTimestamp nsc \<noteq> None"
  shows "scStage L ed cl scList ns ps nsc w \<noteq> None"
proof (cases "DeletionTimestamp nsc = None")
  case True
  obtain new where new: "ConfigureStorageClass L ed (findStorageClass scList (Name nsc)) nsc ns ps = Some new"
    using assms True ConfigureStorageClass_panic by (metis not_None_eq)
  from identify_sc_total [OF True new] show ?thesis
    by (intro notI) (auto simp: scStage_def split: if_splits)
qed (simp add: scStage_def identify_sc_deleted reconcile_type_defs)

lemma secret_stage_total:
  assumes "Connection (Spec nsc) \<noteq> None \<or> DeletionTimestamp nsc \<noteq> None"
  shows "secretStage L ed cl ns nsc w \<noteq> None"
proof -
  obtain l w1 where l: "List (secret_client cl) [InNamespace ns] w = (l, w1)" by fastforce
  show ?thesis
  proof (cases l)
    case (Inr xs)
    show ?thesis
    proof (cases "DeletionTimestamp nsc = None")
      case True
      with assms obtain new where new: "configureSecret ed nsc ns = Some new"
        using configureSecret_panic by (metis not_None_eq)
      have "IdentifyReconcileFuncForSecret L ed xs nsc ns \<noteq> None"
        using identify_secret_absent [OF True, of xs L ed ns] identify_secret_exists [OF True, of xs _ L ed ns] new
        by (cases "find (\<lambda>s. Name s = secret_name nsc) xs") auto
      moreover have "reconcileSecretCreateFunc ed cl nsc ns w1 \<noteq> None"
        by (simp add: reconcileSecretCreateFunc_def new Let_def del: not_None_eq split: prod.split)
      moreover have "reconcileSecretUpdateFunc ed cl xs nsc ns w1 \<noteq> None"
        by (cases "find (\<lambda>s. Name s = secret_name nsc) xs")
          (simp_all add: reconcileSecretUpdateFunc_def new Let_def del: not_None_eq split: prod.split)
      ultimately show ?thesis using l Inr 
        by (intro notI) (auto simp: secretStage_def split: if_splits option.splits)
    qed (use l Inr in \<open>simp add: secretStage_def identify_secret_deleted reconcile_type_defs\<close>)
  qed (use l in \<open>simp add: secretStage_def Let_def\<close>)
qed

lemma vsc_stage_total:
  assumes "Connection (Spec nsc) \<noteq> None \<or> DeletionTimestamp nsc \<noteq> None"
  shows "vscStage L ed cl ns nsc w \<noteq> None"
proof -
  obtain l w1 where l: "List (vsc_client cl) [] w = (l, w1)" by fastforce
  show ?thesis
  proof (cases l)
    case (Inr xs)
    show ?thesis
    proof (cases "DeletionTimestamp nsc = None")
      case True
      obtain new where "ConfigureVSClass L ed (findVSClass xs (Name nsc)) nsc ns = Some new"
        using assms True ConfigureVSClass_panic by (metis not_None_eq)
      from identify_vsc_total [OF True this] l Inr show ?thesis 
        by (intro notI) (auto simp: vscStage_def split: if_splits)
    qed (use l Inr in \<open>simp add: vscStage_def identify_vsc_deleted reconcile_type_defs\<close>)
  qed (use l in \<open>simp add: vscStage_def Let_def\<close>)
qed

lemma status_stage_total: "statusStage cl nsc w \<noteq> None"
  by (auto simp: statusStage_def Let_def split: prod.splits option.splits)

lemma finalizer_stage_total: "finalizerStage cl nsc w \<noteq> None"
  by (auto simp: finalizerStage_def Let_def split: prod.splits option.splits)

lemma settled_ok: "settled cl nsc e w (((rq, None), nsc'), w') \<Longrightarrow> nsc' = nsc"
  by (frule settled_contract) simp

lemma sc_stage_keeps:
  assumes "scStage L ed cl scList ns ps nsc w = Some (((rq, None), nsc'), w')"
  shows "nsc' = nsc"
  using assms
proof (cases rule: sc_stage_cases)
  case create
  then show ?thesis by (metis sc_create_shape settled_ok)
next
  case recreate
  then show ?thesis by (metis sc_recreate_shape settled_ok)
next
  case update
  then show ?thesis by (metis sc_update_shape settled_ok)
next
  case delete
  then show ?thesis by (metis sc_delete_shape settled_ok Pair_inject)
qed simp

context reconciler
begin

lemma secret_stage_keeps:
  assumes "secretStage L ed cl ns nsc w = Some (((rq, None), nsc'), w')" and "DeletionTimestamp nsc = None"
    and "ns \<noteq> ''''"
  shows "nsc' = nsc"
  using secret_stage_ok [OF assms] by blast

lemma run_total:
  assumes c: "Connection (Spec nsc) \<noteq> None \<or> DeletionTimestamp nsc \<noteq> None"
    and stored: "nscs (view w) (ckey nsc) = Some nsc" and ns: "ns \<noteq> ''''"
    and list: "findStorageClass scList (Name nsc) = scs (view w) (ckey nsc)"
  shows "RunEventReconcile L ed cl scList ns ps nsc w \<noteq> None"
  unfolding RunEventReconcile_def
proof (rule andThen_total)
  show "finalizerStage cl nsc w \<noteq> None" by (rule finalizer_stage_total)
next
  fix n1 w1
  assume s1: "finalizerStage cl nsc w = Some (((False, None), n1), w1)"
  from finalizer_stage_ok [OF s1 stored] have a: "alike nsc n1" and f: "FIN \<in> set (fins n1)"
    and v1: "view w1 = nscs_update (\<lambda>s. s(ckey nsc := Some n1)) (view w)" by auto
  then have c1: "Connection (Spec n1) \<noteq> None \<or> DeletionTimestamp n1 \<noteq> None"
    and k: "ckey n1 = ckey nsc" "Name n1 = Name nsc"
    using c by (auto simp: alike_def)
  show "andThen (scStage L ed cl scList ns ps)
    (andThen (secretStage L ed cl ns) (andThen (vscStage L ed cl ns) (statusStage cl))) n1 w1 \<noteq> None"
  proof (rule andThen_total)
    show "scStage L ed cl scList ns ps n1 w1 \<noteq> None" by (rule sc_stage_total [OF c1])
  next
    fix n2 w2
    assume s2: "scStage L ed cl scList ns ps n1 w1 = Some (((False, None), n2), w2)"
    have n2: "n2 = n1" by (rule sc_stage_keeps [OF s2])
    show "andThen (secretStage L ed cl ns) (andThen (vscStage L ed cl ns) (statusStage cl)) n2 w2 \<noteq> None"
      unfolding n2
    proof (rule andThen_total)
      show "secretStage L ed cl ns n1 w2 \<noteq> None" by (rule secret_stage_total [OF c1])
    next
      fix n3 w3
      assume s3: "secretStage L ed cl ns n1 w2 = Some (((False, None), n3), w3)"
      have "Connection (Spec n3) \<noteq> None \<or> DeletionTimestamp n3 \<noteq> None"
      proof (cases "DeletionTimestamp n1 = None")
        case True
        with secret_stage_keeps [OF s3 _ ns] c1 show ?thesis by simp
      next
        case False
        from sc_stage_deleting [OF s2 False] list have "nscs (view w2) (ckey n1) = Some n1"
          by (auto simp: k v1)
        from secret_stage_deleting [OF s3 False ns this f] show ?thesis by blast
      qed
      then show "andThen (vscStage L ed cl ns) (statusStage cl) n3 w3 \<noteq> None"
        by (intro andThen_total vsc_stage_total status_stage_total)
    qed
  qed
qed

end

section \<open>The reconciler\<close>

lemma reconcile_found:
  assumes "Get (nsc_client cl) (fst req) (snd req) w = (Inr nsc, w1)"
  shows "Reconcile L ed cl cfg req w = reconcileRequest L ed cl cfg nsc w1"
  by (simp add: Reconcile_def assms)

lemma validate_deleting:
  "DeletionTimestamp nsc \<noteq> None \<Longrightarrow> validateRequest ed cl m nsc w = Some ((None, nsc), w)"
  by (auto simp: validateRequest_def)

lemma validate_cases:
  assumes "validateRequest ed cl m nsc w = Some ((err, nsc'), w')" and "DeletionTimestamp nsc = None"
  obtains (get_fails) e where "Get (mc_client cl) '''' m w = (Inl e, w')" "err = Some e" "nsc' = nsc"
  | (valid) mc where "Get (mc_client cl) '''' m w = (Inr mc, w')"
      "ValidateNFSStorageClass ed mc nsc = Some None" "err = None" "nsc' = nsc"
  | (invalid) mc e w1 u where "Get (mc_client cl) '''' m w = (Inr mc, w1)"
      "ValidateNFSStorageClass ed mc nsc = Some (Some e)"
      "updateNFSStorageClassPhase cl nsc FailedStatusPhase (Error_msg e) w1 = ((u, nsc'), w')"
      "err \<noteq> None"
proof -
  obtain g w1 where g: "Get (mc_client cl) '''' m w = (g, w1)" by fastforce
  show thesis
  proof (cases g)
    case (Inl e)
    with g assms have "w' = w1 \<and> err = Some e \<and> nsc' = nsc" by (auto simp: validateRequest_def)
    with g Inl get_fails show ?thesis by blast
  next
    case (Inr mc)
    with g assms obtain v where v: "ValidateNFSStorageClass ed mc nsc = Some v"
      by (auto simp: validateRequest_def bind_eq_Some_conv)
    show ?thesis
    proof (cases v)
      case None
      with g Inr v assms have "w' = w1 \<and> err = None \<and> nsc' = nsc" by (auto simp: validateRequest_def)
      with g Inr v None valid show ?thesis by blast
    next
      case (Some e)
      obtain u n2 w2 where u: "updateNFSStorageClassPhase cl nsc FailedStatusPhase (Error_msg e) w1 = ((u, n2), w2)"
        by (metis surj_pair)
      with g Inr v Some assms have "w' = w2 \<and> err \<noteq> None \<and> nsc' = n2"
        by (cases u) (auto simp: validateRequest_def)
      with g Inr v Some u invalid show ?thesis by blast
    qed
  qed
qed

lemma reconcile_request_ok:
  assumes "reconcileRequest L ed cl cfg nsc w = Some ((emptyResult, None), w')" and "Name nsc \<noteq> ''''"
    and "RequeueStorageClassInterval cfg > 0"
  obtains nsc1 w1 scList w2 nsc' where
    "validateRequest ed cl (CsiNfsModuleName cfg) nsc w = Some ((None, nsc1), w1)"
    "List (sc_client cl) [] w1 = (Inr scList, w2)"
    "RunEventReconcile L ed cl scList (ControllerNamespace cfg) (StorageClassLabelIgnoredPrefixes cfg) nsc1 w2 =
       Some (((False, None), nsc'), w')"
proof -
  from assms(1,2) obtain err nsc1 w1 where
    v: "validateRequest ed cl (CsiNfsModuleName cfg) nsc w = Some ((err, nsc1), w1)"
    by (auto simp: reconcileRequest_def bind_eq_Some_conv)
  with assms(1,2) have "err = None" by (cases err) (auto simp: reconcileRequest_def)
  obtain l w2 where l: "List (sc_client cl) [] w1 = (l, w2)" by fastforce
  from assms(1,2) v l \<open>err = None\<close> obtain scList where xs: "l = Inr scList"
    by (cases l) (auto simp: reconcileRequest_def)
  let ?run = "RunEventReconcile L ed cl scList (ControllerNamespace cfg) (StorageClassLabelIgnoredPrefixes cfg) nsc1 w2"
  from assms v l xs \<open>err = None\<close> obtain e nsc' where run: "?run = Some (((False, e), nsc'), w')"
    by (auto simp: reconcileRequest_def bind_eq_Some_conv emptyResult_def Second_def split: if_splits)
  with run.contract [of L ed cl scList] have "e = None" by blast
  with that v l xs run \<open>err = None\<close> show ?thesis by simp
qed

context reconciler
begin

lemma stored_name: "nscs (view w) ('''', n) = Some nsc \<Longrightarrow> Name nsc = n \<and> ckey nsc = ('''', n)"
  using nsc.keyed by (fastforce simp: ckey_def)

lemma reconcile_get:
  assumes "nscs (view w) ('''', n) = Some nsc"
  obtains (found) w1 where "Reconcile L ed cl cfg ('''', n) w = reconcileRequest L ed cl cfg nsc w1" "view w1 = view w"
  | (failed) e w1 where "Reconcile L ed cl cfg ('''', n) w = Some ((emptyResult, Some e), w1)" "view w1 = view w"
proof -
  obtain g w1 where g: "Get (nsc_client cl) '''' n w = (g, w1)" by fastforce
  show thesis
  proof (cases g)
    case (Inl e)
    with g get_missing [of "''''" n w e w1] assms have "\<not> IsNotFound L e" by auto
    with Inl g nsc.get_view [OF g] failed [of e w1] show ?thesis by (simp add: Reconcile_def)
  next
    case (Inr x)
    with g nsc.get_ok [of "''''" n w x w1] assms nsc.get_view [OF g] found [of w1] show ?thesis
      by (auto simp: Reconcile_def)
  qed
qed

lemma sc_list_find:
  assumes "List (sc_client cl) [] w = (Inr scList, w1)"
  shows "findStorageClass scList n = scs (view w) ('''', n)"
  using sc.list_find [OF assms, of "('''', n)"] by (simp add: findStorageClass_def ckey_def)

lemma reconcile_ok:
  assumes ok: "Reconcile L ed cl cfg ('''', n) w = Some ((emptyResult, None), w')"
    and stored: "nscs (view w) ('''', n) = Some nsc" and n: "n \<noteq> ''''"
    and cfg: "RequeueStorageClassInterval cfg > 0"
  obtains w0 w1 scList w2 nsc' where
    "validateRequest ed cl (CsiNfsModuleName cfg) nsc w0 = Some ((None, nsc), w1)" "view w0 = view w"
    "view w2 = view w" "findStorageClass scList n = scs (view w) ('''', n)"
    "RunEventReconcile L ed cl scList (ControllerNamespace cfg) (StorageClassLabelIgnoredPrefixes cfg) nsc w2 =
       Some (((False, None), nsc'), w')"
  using stored
proof (cases rule: reconcile_get [where ed = ed and cfg = cfg])
  case (found w0)
  from stored_name [OF stored] n have "Name nsc \<noteq> ''''" by simp
  from ok found(1) have "reconcileRequest L ed cl cfg nsc w0 = Some ((emptyResult, None), w')" by simp
  then show ?thesis
  proof (rule reconcile_request_ok [OF _ \<open>Name nsc \<noteq> ''''\<close> cfg])
    fix nsc1 w1 scList w2 nsc'
    assume v: "validateRequest ed cl (CsiNfsModuleName cfg) nsc w0 = Some ((None, nsc1), w1)"
      and l: "List (sc_client cl) [] w1 = (Inr scList, w2)"
      and r: "RunEventReconcile L ed cl scList (ControllerNamespace cfg) (StorageClassLabelIgnoredPrefixes cfg) nsc1 w2 =
         Some (((False, None), nsc'), w')"
    have "nsc1 = nsc \<and> view w1 = view w0"
    proof (cases "DeletionTimestamp nsc = None")
      case True
      from v True show ?thesis
        by (cases rule: validate_cases) (auto dest: mc.get_view)
    next
      case False
      with v show ?thesis by (simp add: validate_deleting)
    qed
    with v l r sc.list_view [OF l] sc_list_find [OF l, of n] found(2) that show ?thesis by simp
  qed
qed (use ok in simp)

lemma validate_footprint:
  assumes "validateRequest ed cl m nsc w = Some ((err, nsc'), w')"
  shows "writes nscs_update (ckey nsc) (view w) (view w') \<and> Name nsc' = Name nsc"
proof (cases "DeletionTimestamp nsc = None")
  case True
  from assms True show ?thesis
  proof (cases rule: validate_cases)
    case (invalid mc e w1 u)
    let ?s = "(case Status nsc of None \<Rightarrow> \<lparr>StatusPhase = '''', StatusReason = ''''\<rparr> | Some s \<Rightarrow> s)"
    have su: "StatusUpdate (nsc_client cl)
        (nsc\<lparr>Status := Some (?s\<lparr>StatusPhase := FailedStatusPhase, StatusReason := Error_msg e\<rparr>)\<rparr>) w1 = ((u, nsc'), w')"
      using invalid(3) by (simp add: updateNFSStorageClassPhase_def Let_def)
    from status_frame [OF su] status_key [OF su] mc.get_view [OF invalid(1)] show ?thesis
      by (auto simp: writes_def ckey_def)
  qed (auto dest: mc.get_view)
next
  case False
  with assms show ?thesis by (auto simp: validate_deleting)
qed

end

end
