(* ===== verification/Event_Properties.thy ===== *)
theory Event_Properties
  imports Event_Effects
begin

text \<open>
  The properties of the NFSStorageClass controller, with witnesses that run the reconciler against the
  in-memory API server.
\<close>

section \<open>Facts\<close>

context reconciler
begin

lemma reconcile_request_footprint:
  assumes r: "reconcileRequest L ed cl cfg nsc w = Some (r, w')" and ns: "ControllerNamespace cfg \<noteq> ''''"
  shows "touches (Name nsc) (ControllerNamespace cfg, secret_name nsc) (view w) (view w')"
proof (cases "Name nsc = ''''")
  case True
  with r show ?thesis by (simp add: reconcileRequest_def)
next
  case False
  let ?k = "(ControllerNamespace cfg, secret_name nsc)"
  from r False obtain err nsc1 w1 where
    v: "validateRequest ed cl (CsiNfsModuleName cfg) nsc w = Some ((err, nsc1), w1)"
    by (auto simp: reconcileRequest_def bind_eq_Some_conv)
  from validate_footprint [OF v] have 1: "touches (Name nsc) ?k (view w) (view w1)" and n1: "Name nsc1 = Name nsc"
    by (simp_all add: ckey_def writes_touches)
  obtain l w2 where l: "List (sc_client cl) [] w1 = (l, w2)" by fastforce
  have v2: "view w2 = view w1" by (rule sc.list_view [OF l])
  from r False v l consider "w' = w1" | "w' = w2" |
    scList r' nsc' where "RunEventReconcile L ed cl scList (ControllerNamespace cfg) (StorageClassLabelIgnoredPrefixes cfg) nsc1 w2 =
        Some ((r', nsc'), w')"
    by (cases err; cases l) (auto simp: reconcileRequest_def bind_eq_Some_conv split: if_splits)
  then show ?thesis
  proof cases
    case 3
    from run_footprint [OF 3 ns] n1 v2 1 show ?thesis by (auto simp: footprint_def intro: touches_trans)
  qed (use 1 v2 in simp_all)
qed

lemma reconcile_footprint:
  assumes r: "Reconcile L ed cl cfg ('''', n) w = Some (r, w')" and ns: "ControllerNamespace cfg \<noteq> ''''"
  shows "touches n (ControllerNamespace cfg, SecretForMountOptionsPrefix @ n) (view w) (view w')"
proof -
  obtain g w1 where g: "Get (nsc_client cl) '''' n w = (g, w1)" by fastforce
  have v1: "view w1 = view w" by (rule nsc.get_view [OF g])
  show ?thesis
  proof (cases g)
    case (Inl e)
    with g r have "w' = w1"
      by (auto simp: Reconcile_def reconcileRequest_def split: if_splits)
    with v1 show ?thesis by simp
  next
    case (Inr x)
    with g r have "reconcileRequest L ed cl cfg x w1 = Some (r, w')" by (simp add: Reconcile_def)
    moreover have "Name x = n" using nsc.get_ok [OF g [unfolded Inr]] stored_name by blast
    ultimately show ?thesis using reconcile_request_footprint [OF _ ns] v1 by metis
  qed
qed

lemma reconcile_total:
  assumes stored: "nscs (view w) ('''', n) = Some nsc" and ns: "ControllerNamespace cfg \<noteq> ''''"
    and c: "Connection (Spec nsc) \<noteq> None"
    and typed: "\<And>mc. mcs (view w) ('''', CsiNfsModuleName cfg) = Some mc \<Longrightarrow> settings_typed mc"
  shows "Reconcile L ed cl cfg ('''', n) w \<noteq> None"
  using stored
proof (cases rule: reconcile_get [where ed = ed and cfg = cfg])
  case (found w0)
  have valid: "validateRequest ed cl (CsiNfsModuleName cfg) nsc w0 \<noteq> None"
  proof (cases "DeletionTimestamp nsc = None")
    case True
    obtain g w1 where g: "Get (mc_client cl) '''' (CsiNfsModuleName cfg) w0 = (g, w1)" by fastforce
    show ?thesis
    proof (cases g)
      case (Inr mc)
      from mc.get_ok [OF g [unfolded Inr]] typed found(2) have "settings_typed mc" by simp
      with validate_no_panic [OF c] obtain v where "ValidateNFSStorageClass ed mc nsc = Some v" by fastforce
      with g Inr show ?thesis
        by (cases v) (auto simp: validateRequest_def Let_def split: prod.splits option.splits)
    qed (use g in \<open>auto simp: validateRequest_def\<close>)
  qed (simp add: validate_deleting)
  then obtain err nsc1 w1 where v: "validateRequest ed cl (CsiNfsModuleName cfg) nsc w0 = Some ((err, nsc1), w1)"
    by auto
  show ?thesis
  proof (cases "err = None \<and> Name nsc \<noteq> ''''")
    case True
    obtain l w2 where l: "List (sc_client cl) [] w1 = (l, w2)" by fastforce
    have n1: "nsc1 = nsc \<and> view w1 = view w0"
    proof (cases "DeletionTimestamp nsc = None")
      case live: True
      from v live show ?thesis by (cases rule: validate_cases) (use True in \<open>auto dest: mc.get_view\<close>)
    qed (use v in \<open>simp add: validate_deleting\<close>)
    show ?thesis
    proof (cases l)
      case (Inr scList)
      have "RunEventReconcile L ed cl scList (ControllerNamespace cfg) ps nsc w2 \<noteq> None" for ps
        using sc.list_view [OF l] n1 found(2) stored stored_name [OF stored] sc_list_find [OF l [unfolded Inr], of n]
        by (intro run_total) (simp_all add: c ns)
      then obtain rq e n' w' where "RunEventReconcile L ed cl scList (ControllerNamespace cfg)
          (StorageClassLabelIgnoredPrefixes cfg) nsc w2 = Some (((rq, e), n'), w')"
        by fastforce
      with found v l Inr True n1 show ?thesis by (auto simp: reconcileRequest_def)
    qed (use found v l True in \<open>simp add: reconcileRequest_def\<close>)
  qed (use found v in \<open>auto simp: reconcileRequest_def\<close>)
qed simp

lemma reconcile_absent:
  assumes "nscs (view w) ('''', n) = None"
  shows "\<exists>r w'. Reconcile L ed cl cfg ('''', n) w = Some (r, w') \<and> view w' = view w"
proof -
  obtain g w1 where g: "Get (nsc_client cl) '''' n w = (g, w1)" by fastforce
  have v1: "view w1 = view w" by (rule nsc.get_view [OF g])
  show ?thesis
  proof (cases g)
    case (Inl e)
    with g v1 show ?thesis by (auto simp: Reconcile_def reconcileRequest_def)
  next
    case (Inr x)
    with nsc.get_ok [of "''''" n w x w1] g assms show ?thesis by simp
  qed
qed

lemma reconcile_invalid:
  assumes stored: "nscs (view w) ('''', n) = Some nsc" and n: "n \<noteq> ''''"
    and live: "DeletionTimestamp nsc = None" and c: "Connection (Spec nsc) = Some c"
    and mc: "mcs (view w) ('''', CsiNfsModuleName cfg) = Some mc" "\<not> admissible ed mc c"
    and r: "Reconcile L ed cl cfg ('''', n) w = Some ((res, err), w')"
  shows "err \<noteq> None \<and> writes nscs_update ('''', n) (view w) (view w')"
  using stored
proof (cases rule: reconcile_get [where ed = ed and cfg = cfg])
  case (found w0)
  from stored_name [OF stored] n have nn: "Name nsc \<noteq> ''''" "ckey nsc = ('''', n)" by auto
  with r found obtain e nsc1 w1 where
    v: "validateRequest ed cl (CsiNfsModuleName cfg) nsc w0 = Some ((e, nsc1), w1)"
    by (auto simp: reconcileRequest_def bind_eq_Some_conv)
  from v live have "e \<noteq> None"
  proof (cases rule: validate_cases)
    case (valid mc')
    from mc.get_ok [OF valid(1)] mc found(2) have "mc' = mc" by simp
    with valid(2) mc(2) validate_accepts_iff [OF c, of ed mc] show ?thesis by simp
  qed simp_all
  with r found v nn have "err = e" "w' = w1" by (auto simp: reconcileRequest_def)
  with \<open>e \<noteq> None\<close> validate_footprint [OF v] nn found(2) show ?thesis by simp
qed (use r in simp)

lemma reconcile_live:
  assumes stored: "nscs (view w) ('''', n) = Some nsc" and n: "n \<noteq> ''''" and live: "DeletionTimestamp nsc = None"
    and c: "Connection (Spec nsc) = Some c" "NFSVersion c \<noteq> ''''"
    and ns: "ControllerNamespace cfg \<noteq> ''''" and i: "RequeueStorageClassInterval cfg > 0"
    and r: "Reconcile L ed cl cfg ('''', n) w = Some ((emptyResult, None), w')"
  shows "\<exists>mc n' sc s v. mcs (view w) ('''', CsiNfsModuleName cfg) = Some mc \<and> admissible ed mc c \<and> nsc_settled nsc n' \<and>
    sc_realises ed nsc (ControllerNamespace cfg) (StorageClassLabelIgnoredPrefixes cfg) sc \<and>
    secret_realises ed nsc (ControllerNamespace cfg) s \<and> vsc_realises ed nsc (ControllerNamespace cfg) v \<and>
    view w' = (view w)\<lparr>
      nscs := (nscs (view w))(('''', n) \<mapsto> n'), scs := (scs (view w))(('''', n) \<mapsto> sc),
      secrets := (secrets (view w))((ControllerNamespace cfg, SecretForMountOptionsPrefix @ n) \<mapsto> s),
      vscs := (vscs (view w))(('''', n) \<mapsto> v)\<rparr>"
proof -
  obtain w0 w1 scList w2 nsc' where
    v: "validateRequest ed cl (CsiNfsModuleName cfg) nsc w0 = Some ((None, nsc), w1)"
    and views: "view w0 = view w" "view w2 = view w"
    and l: "findStorageClass scList n = scs (view w) ('''', n)"
    and run: "RunEventReconcile L ed cl scList (ControllerNamespace cfg) (StorageClassLabelIgnoredPrefixes cfg) nsc w2 =
       Some (((False, None), nsc'), w')"
    by (rule reconcile_ok [OF r stored n i])
  note name = stored_name [OF stored]
  from v live obtain mc where mc: "Get (mc_client cl) '''' (CsiNfsModuleName cfg) w0 = (Inr mc, w1)"
    "ValidateNFSStorageClass ed mc nsc = Some None"
    by (cases rule: validate_cases) auto
  have "mcs (view w) ('''', CsiNfsModuleName cfg) = Some mc" using mc.get_ok [OF mc(1)] views by simp
  moreover have "admissible ed mc c" using mc(2) validate_accepts_iff [OF c(1), of ed mc] by simp
  ultimately show ?thesis
    using run_live [OF run live _ c ns] name views l stored by fastforce
qed

end

section \<open>Sample worlds\<close>

definition sample_cfg :: Options where
  "sample_cfg = NewConfig (\<lambda>_. '''') (\<lambda>_. Inl (ErrorString ''no such file''))"

definition sample_world :: mem where
  "sample_world = mem_empty\<lparr>m_nscs := [sample_nsc], m_mcs := [sample_mc]\<rparr>"

definition leaving_nsc :: NFSStorageClass where
  "leaving_nsc = sample_nsc\<lparr>Finalizers := Some [FIN], DeletionTimestamp := Some 7\<rparr>"

definition sample_sc :: "string \<Rightarrow> StorageClass" where
  "sample_sc provisioner = (the (ConfigureStorageClass std_lib EE None sample_nsc ''d8-csi-nfs'' []))\<lparr>
     Provisioner := provisioner, ResourceVersion := ''5''\<rparr>"

definition sample_vsc :: VolumeSnapshotClass where
  "sample_vsc = (the (ConfigureVSClass std_lib EE None sample_nsc ''d8-csi-nfs''))\<lparr>ResourceVersion := ''6''\<rparr>"

definition leaving_world :: "string \<Rightarrow> mem" where
  "leaving_world provisioner = mem_empty\<lparr>m_nscs := [leaving_nsc], m_mcs := [sample_mc],
     m_scs := [sample_sc provisioner], m_vscs := [sample_vsc],
     m_secrets := [(sample_secret ''nfs-mount-options-for-nfs'' None)\<lparr>Finalizers := Some [FIN]\<rparr>]\<rparr>"

lemma sample_cfg_simps [simp]:
  "ControllerNamespace sample_cfg = ''d8-csi-nfs''" "RequeueStorageClassInterval sample_cfg = 10"
  "CsiNfsModuleName sample_cfg = ''csi-nfs''" "StorageClassLabelIgnoredPrefixes sample_cfg = []"
  by (simp_all add: sample_cfg_def NewConfig_def Let_def HardcodedControllerNS_def
      DefaultRequeueStorageClassInterval_def CsiNfsModuleName'_def parseStorageClassLabelIgnoredPrefixes_def)

lemma sample_world_stored:
  "nscs (mem_view sample_world) ('''', ''nfs'') = Some sample_nsc"
  "mcs (mem_view sample_world) ('''', ''csi-nfs'') = Some sample_mc"
  by (simp_all add: mem_view_def sample_world_def mem_empty_def stored_def ckey_def wire_meta_def sample_defs)

lemma leaving_world_stored:
  "nscs (mem_view (leaving_world p)) ('''', ''nfs'') = Some leaving_nsc"
  by (simp add: mem_view_def leaving_world_def leaving_nsc_def mem_empty_def stored_def ckey_def wire_meta_def sample_defs)

section \<open>Properties\<close>

text \<open>C1: Convergence. When the reconciler finishes a request without error and without asking for a
  requeue, and the NFSStorageClass is not being deleted, then the cluster is as specified: the
  combination with the ModuleConfig is admissible, the NFSStorageClass carries the finalizer and the
  status Created, the StorageClass has the desired parameters, mount options, labels and annotation,
  the Secret holds the mount options, the VolumeSnapshotClass has the desired policy and parameters,
  nothing else in the cluster changed, and the update event of the controller's own writes to the
  NFSStorageClass does not trigger another request.\<close>

theorem reconcile_converges:
  assumes "reconciler cl view L"
    and "nscs (view w) ('''', n) = Some nsc" and "n \<noteq> ''''" and "DeletionTimestamp nsc = None"
    and "Connection (Spec nsc) = Some c" and "NFSVersion c \<noteq> ''''"
    and "ControllerNamespace cfg \<noteq> ''''" and "RequeueStorageClassInterval cfg > 0"
    and "Reconcile L ed cl cfg ('''', n) w = Some ((emptyResult, None), w')"
  shows "\<exists>mc n' sc s v. mcs (view w) ('''', CsiNfsModuleName cfg) = Some mc \<and> admissible ed mc c \<and>
    nsc_settled nsc n' \<and> UpdateFunc nsc n' = None \<and>
    sc_realises ed nsc (ControllerNamespace cfg) (StorageClassLabelIgnoredPrefixes cfg) sc \<and>
    secret_realises ed nsc (ControllerNamespace cfg) s \<and> vsc_realises ed nsc (ControllerNamespace cfg) v \<and>
    view w' = (view w)\<lparr>
      nscs := (nscs (view w))(('''', n) \<mapsto> n'), scs := (scs (view w))(('''', n) \<mapsto> sc),
      secrets := (secrets (view w))((ControllerNamespace cfg, SecretForMountOptionsPrefix @ n) \<mapsto> s),
      vscs := (vscs (view w))(('''', n) \<mapsto> v)\<rparr>"
proof -
  have "nsc_settled nsc n' \<Longrightarrow> UpdateFunc nsc n' = None" for n'
    by (simp add: nsc_settled_def UpdateFunc_def)
  with reconciler.reconcile_live [OF assms] show ?thesis by blast
qed

theorem reconcile_converges_witness:
  "\<exists>w'. Reconcile std_lib EE mem_client sample_cfg ('''', ''nfs'') sample_world = Some ((emptyResult, None), w') \<and>
     (\<exists>sc. scs (mem_view w') ('''', ''nfs'') = Some sc \<and> MountOptions sc = Some [''nfsvers=4.2''])"
proof -
  have "map_option fst (Reconcile std_lib EE mem_client sample_cfg ('''', ''nfs'') sample_world) = Some (emptyResult, None)"
    by code_simp
  then obtain w' where w': "Reconcile std_lib EE mem_client sample_cfg ('''', ''nfs'') sample_world = Some ((emptyResult, None), w')"
    by auto
  have "GetSCMountOptions EE sample_nsc = Some [''nfsvers=4.2'']"
    by (simp add: GetSCMountOptions_eq mount_options_def connection_options_def sample_defs)
  then show ?thesis
    using w' reconcile_converges [OF memory.reconciler_axioms sample_world_stored(1) _ _ _ _ _ _ w', of sample_connection]
    by (auto simp: sc_realises_def sample_defs)
qed

text \<open>C3: Deletion. When the reconciler finishes a request for an NFSStorageClass that is being deleted,
  the NFSStorageClass has lost the controller's finalizer, the StorageClass and the VolumeSnapshotClass
  of its name are gone or terminating (held by the finalizers of others only) if this driver provides
  them and are exactly as before if another driver does, the Secret is gone or terminating, and nothing
  else in the cluster changed.\<close>

theorem reconcile_deletes:
  assumes "reconciler cl view L"
    and "nscs (view w) ('''', n) = Some nsc" and "n \<noteq> ''''" and "DeletionTimestamp nsc \<noteq> None"
    and "ControllerNamespace cfg \<noteq> ''''" and "RequeueStorageClassInterval cfg > 0"
    and "Reconcile L ed cl cfg ('''', n) w = Some ((emptyResult, None), w')"
  shows "\<exists>a b s v. dismissed (remove1 NFSStorageClassControllerFinalizerName (fins nsc)) a \<and>
    cleaned own_sc (scs (view w) ('''', n)) b \<and>
    cleaned (\<lambda>_. True) (secrets (view w) (ControllerNamespace cfg, SecretForMountOptionsPrefix @ n)) s \<and>
    cleaned own_vsc (vscs (view w) ('''', n)) v \<and>
    view w' = (view w)\<lparr>
      nscs := (nscs (view w))(('''', n) := a), scs := (scs (view w))(('''', n) := b),
      secrets := (secrets (view w))((ControllerNamespace cfg, SecretForMountOptionsPrefix @ n) := s),
      vscs := (vscs (view w))(('''', n) := v)\<rparr>"
proof -
  obtain w0 w1 scList w2 nsc' where
    "validateRequest ed cl (CsiNfsModuleName cfg) nsc w0 = Some ((None, nsc), w1)" "view w0 = view w"
    and "view w2 = view w" "findStorageClass scList n = scs (view w) ('''', n)"
    and r: "RunEventReconcile L ed cl scList (ControllerNamespace cfg) (StorageClassLabelIgnoredPrefixes cfg) nsc w2 =
       Some (((False, None), nsc'), w')"
    by (rule reconciler.reconcile_ok [OF assms(1,7,2,3,6)])
  then show ?thesis
    using reconciler.run_deleting [OF assms(1) r assms(4) _ assms(5)] reconciler.stored_name [OF assms(1,2)] assms(2)
    by simp
qed

theorem reconcile_deletes_witness:
  "\<exists>w'. Reconcile std_lib EE mem_client sample_cfg ('''', ''nfs'') (leaving_world ''other'') = Some ((emptyResult, None), w') \<and>
     nscs (mem_view w') ('''', ''nfs'') = None \<and>
     scs (mem_view w') ('''', ''nfs'') = scs (mem_view (leaving_world ''other'')) ('''', ''nfs'')"
proof -
  have "map_option fst (Reconcile std_lib EE mem_client sample_cfg ('''', ''nfs'') (leaving_world ''other'')) = Some (emptyResult, None)"
    by code_simp
  then obtain w' where w': "Reconcile std_lib EE mem_client sample_cfg ('''', ''nfs'') (leaving_world ''other'') = Some ((emptyResult, None), w')"
    by auto
  have fin: "fins leaving_nsc = [FIN]" "DeletionTimestamp leaving_nsc \<noteq> None"
    by (simp_all add: leaving_nsc_def fins_def)
  have sc: "scs (mem_view (leaving_world ''other'')) ('''', ''nfs'') = Some sc \<Longrightarrow> \<not> own_sc sc" for sc
    by (auto simp: mem_view_def leaving_world_def mem_empty_def stored_def sample_sc_def own_sc_def
        NFSStorageClassProvisioner_def wire_sc_def wire_meta_def split: if_splits)
  from reconcile_deletes [OF memory.reconciler_axioms leaving_world_stored _ fin(2) _ _ w'] fin(1)
  obtain a b where a: "dismissed [] a" and b: "cleaned own_sc (scs (mem_view (leaving_world ''other'')) ('''', ''nfs'')) b"
    and v: "nscs (mem_view w') ('''', ''nfs'') = a" "scs (mem_view w') ('''', ''nfs'') = b"
    by fastforce
  have "a = None" using a by (simp add: dismissed_def)
  moreover have "b = scs (mem_view (leaving_world ''other'')) ('''', ''nfs'')"
    using b sc by (cases "scs (mem_view (leaving_world ''other'')) ('''', ''nfs'')") (auto simp: cleaned_def)
  ultimately show ?thesis using w' v by blast
qed

text \<open>C14: Isolation. Whatever the outcome of a request, success, error or requeue, the reconciler writes at
  most the NFSStorageClass of the request, the StorageClass and VolumeSnapshotClass of the same name and
  the Secret \<open>nfs-mount-options-for-<name>\<close> in the controller's namespace.\<close>

theorem reconcile_isolated:
  assumes "reconciler cl view L" and "ControllerNamespace cfg \<noteq> ''''"
    and "Reconcile L ed cl cfg ('''', n) w = Some (r, w')"
  shows "touches n (ControllerNamespace cfg, SecretForMountOptionsPrefix @ n) (view w) (view w')"
  using reconciler.reconcile_footprint [OF assms(1,3,2)] .

theorem reconcile_isolated_witness:
  "\<exists>r w'. Reconcile std_lib EE mem_client sample_cfg ('''', ''nfs'') sample_world = Some (r, w') \<and>
     touches ''nfs'' (''d8-csi-nfs'', ''nfs-mount-options-for-nfs'') (mem_view sample_world) (mem_view w')"
proof -
  obtain r w' where w': "Reconcile std_lib EE mem_client sample_cfg ('''', ''nfs'') sample_world = Some (r, w')"
    using memory.reconcile_total [OF sample_world_stored(1), of sample_cfg EE] sample_world_stored(2)
    by (auto simp: settings_typed_def sample_defs)
  with reconcile_isolated [OF memory.reconciler_axioms _ w'] show ?thesis
    by (auto simp: SecretForMountOptionsPrefix_def)
qed


definition tls_world :: mem where
  "tls_world = sample_world\<lparr>m_nscs :=
     [sample_nsc\<lparr>Spec := sample_spec\<lparr>Connection := Some (sample_connection\<lparr>Tls := True\<rparr>)\<rparr>\<rparr>]\<rparr>"


text \<open>C16: The reconciler does not panic on any stored NFSStorageClass with a connection, whatever the API
  server answers, as long as the TLS settings of the ModuleConfig have the types of its schema.\<close>

theorem reconcile_never_panics:
  assumes "reconciler cl view L"
    and "nscs (view w) ('''', n) = Some nsc" and "ControllerNamespace cfg \<noteq> ''''"
    and "Connection (Spec nsc) \<noteq> None"
    and "\<And>mc. mcs (view w) ('''', CsiNfsModuleName cfg) = Some mc \<Longrightarrow> settings_typed mc"
  shows "\<exists>res err w'. Reconcile L ed cl cfg ('''', n) w = Some ((res, err), w')"
  using reconciler.reconcile_total [OF assms(1-4)] assms(5) by fastforce

theorem reconcile_never_panics_witness:
  "\<exists>res err w'. Reconcile std_lib EE mem_client sample_cfg ('''', ''nfs'') (sample_world\<lparr>m_fail := [''create sc'', ''status nsc'']\<rparr>) =
     Some ((res, err), w')"
proof -
  let ?w = "sample_world\<lparr>m_fail := [''create sc'', ''status nsc'']\<rparr>"
  have v: "mem_view ?w = mem_view sample_world" by (simp add: mem_view_def)
  have "settings_typed sample_mc" by (simp add: settings_typed_def sample_mc_def)
  then show ?thesis
    by (intro reconcile_never_panics [OF memory.reconciler_axioms, of _ _ sample_nsc])
      (simp_all add: v sample_world_stored, simp add: sample_defs)
qed

text \<open>No error is lost: \<open>RunEventReconcile\<close> asks for a requeue exactly when it returns an error. Its
  caller relies on it, since it requeues on the flag and only logs the error.\<close>

lemma run_requeues_iff_error:
  assumes "RunEventReconcile L ed cl scList ns ps nsc w = Some (((shouldRequeue, err), nsc'), w')"
  shows "shouldRequeue \<longleftrightarrow> err \<noteq> None"
  using run.contract [OF assms] .

text \<open>C29: Dropping an update event is harmless: if \<open>UpdateFunc\<close> adds no request, then the old and the new
  NFSStorageClass ask for the same StorageClass, Secret and VolumeSnapshotClass and get the same
  validation verdict.\<close>

theorem dropped_update_is_harmless:
  assumes "UpdateFunc old new = None" and "Name new = Name old" and "Namespace new = Namespace old"
  shows "ConfigureStorageClass L ed sc new ns ps = ConfigureStorageClass L ed sc old ns ps \<and>
    configureSecret ed new ns = configureSecret ed old ns \<and>
    ConfigureVSClass L ed vsc new ns = ConfigureVSClass L ed vsc old ns \<and>
    ValidateNFSStorageClass ed mc new = ValidateNFSStorageClass ed mc old"
proof -
  from assms(1) have eq: "Spec new = Spec old" "Labels new = Labels old"
    by (simp_all add: UpdateFunc_def split: if_splits)
  have "ValidateNFSStorageClass ed mc new = ValidateNFSStorageClass ed mc old"
    unfolding ValidateNFSStorageClass_def validate_v3_def validate_tls_def validate_mtls_def mismatch_def eq assms(2)
    by (rule refl)
  with alike_configure [OF assms(2,3) eq] show ?thesis by simp
qed

theorem dropped_update_is_harmless_witness:
  "UpdateFunc sample_nsc (sample_nsc\<lparr>Annotations := Some (fmap_of_list [(''a'', ''b'')])\<rparr>) = None \<and>
   configureSecret EE (sample_nsc\<lparr>Annotations := Some (fmap_of_list [(''a'', ''b'')])\<rparr>) ''ns'' = configureSecret EE sample_nsc ''ns''"
  using dropped_update_is_harmless [of sample_nsc "sample_nsc\<lparr>Annotations := Some (fmap_of_list [(''a'', ''b'')])\<rparr>"]
  by (simp add: UpdateFunc_def sample_defs)



end
