(* ===== verification/Event_Success.thy ===== *)
theory Event_Success
  imports API_Available Event_Properties
begin

text \<open>
  Success of the NFSStorageClass controller, and what a second run does. Event_Properties says what the cluster looks like if a
  reconcile ends well; this theory says when it does end well, while the API server is up, stage by stage, and that the
  StorageClass and the VolumeSnapshotClass then stay as they are.
\<close>

section \<open>Finalizers\<close>

locale served_kind = kind_laws api view sel upd key wire + available_kind api view sel key accepts up
  for api :: "('w, 'm ObjectMeta_scheme) kind_client" and view :: "'w \<Rightarrow> cluster"
    and sel :: "cluster \<Rightarrow> 'm ObjectMeta_scheme store"
    and upd :: "('m ObjectMeta_scheme store \<Rightarrow> 'm ObjectMeta_scheme store) \<Rightarrow> cluster \<Rightarrow> cluster"
    and key :: "'m ObjectMeta_scheme \<Rightarrow> key"
    and wire :: "'m ObjectMeta_scheme \<Rightarrow> 'm ObjectMeta_scheme"
    and accepts :: "'m ObjectMeta_scheme \<Rightarrow> 'm ObjectMeta_scheme \<Rightarrow> bool"
    and up :: "'w \<Rightarrow> bool" +
  assumes accepts_fins: "accepts x (x\<lparr>Finalizers := fs\<rparr>)"
begin

lemma add_finalizer_up:
  assumes "up w" and "sel (view w) (key x) = Some x" and "DeletionTimestamp x = None"
  shows "\<exists>x1 w1. addFinalizerIfNotExists (Update api) x f w = (((True, None), x1), w1) \<and> up w1"
proof (cases "f \<in> set (fins x)")
  case True
  with assms(1) show ?thesis by (simp add: addFinalizerIfNotExists_def fins_def)
next
  case False
  have "sel (view w) (key (x\<lparr>Finalizers := Some (fins x @ [f])\<rparr>)) = Some x" using assms(2) by (simp add: key_fins)
  from update_up [OF assms(1) this accepts_fins] assms(3) obtain x' w' where
    "Update api (x\<lparr>Finalizers := Some (fins x @ [f])\<rparr>) w = ((None, x'), w')" "up w'" by blast
  with False show ?thesis by (simp add: addFinalizerIfNotExists_def fins_def)
qed

text \<open>The object survives the removal unless it was only waiting for it.\<close>

lemma remove_finalizer_up:
  assumes "up w" and "sel (view w) (key x) = Some x"
  shows "\<exists>r x1 w1. removeFinalizerIfExists (Update api) x f w = (((r, None), x1), w1) \<and> up w1 \<and>
    (DeletionTimestamp x = None \<or> remove1 f (fins x) \<noteq> [] \<longrightarrow> sel (view w1) (key x1) \<noteq> None)"
proof (cases "f \<in> set (fins x)")
  case True
  let ?x = "x\<lparr>Finalizers := Some (remove1 f (fins x))\<rparr>"
  have x: "sel (view w) (key ?x) = Some x" using assms(2) by (simp add: key_fins)
  have "set (fins ?x) \<subseteq> set (fins x)" by (simp add: set_remove1_subset)
  with update_up [OF assms(1) x accepts_fins] obtain x' w' where u: "Update api ?x w = ((None, x'), w')" "up w'" by blast
  have "key x' = key x" using update_key [OF u(1)] by (simp add: key_fins)
  with update_finalizers [OF u(1) assms(2)] have
    "DeletionTimestamp x = None \<or> remove1 f (fins x) \<noteq> [] \<longrightarrow> sel (view w') (key x') \<noteq> None"
    by (auto simp: sel_upd)
  moreover from u(1) True have "removeFinalizerIfExists (Update api) x f w = (((True, None), x'), w')"
    by (simp add: removeFinalizerIfExists_def fins_def)
  ultimately show ?thesis using u(2) by blast
next
  case False
  then have "removeFinalizerIfExists (Update api) x f w = (((False, None), x), w)"
    by (simp add: removeFinalizerIfExists_def fins_def)
  with assms show ?thesis by auto
qed

lemma remove_and_delete_up:
  assumes "up w" and "sel (view w) (key x) = Some x" and "DeletionTimestamp x = None \<or> remove1 f (fins x) \<noteq> []"
  shows "\<exists>r x1 w1 w2. removeFinalizerIfExists (Update api) x f w = (((r, None), x1), w1) \<and>
    Delete api x1 w1 = (None, w2) \<and> up w2"
  using remove_finalizer_up [OF assms(1,2), of f] delete_up assms(3) by blast

end

locale serving = reconciler cl view L + available cl view up
  for cl :: "'w client" and view :: "'w \<Rightarrow> cluster" and L :: lib and up :: "'w \<Rightarrow> bool"

sublocale serving \<subseteq> nscv: served_kind "nsc_client cl" view nscs nscs_update ckey wire_meta current up
  by unfold_locales (simp add: current_def)

sublocale serving \<subseteq> scv: served_kind "sc_client cl" view scs scs_update ckey wire_sc sc_accepts up
  by unfold_locales (simp add: sc_accepts_def current_or_none_def)

sublocale serving \<subseteq> secretv: served_kind "secret_client cl" view secrets secrets_update nkey wire_secret current_or_none up
  by unfold_locales (simp add: current_or_none_def)

sublocale serving \<subseteq> vscv: served_kind "vsc_client cl" view vscs vscs_update ckey wire_vsclass current up
  by unfold_locales (simp add: current_def)

interpretation memory_serving: serving mem_client mem_view std_lib mem_up
  by unfold_locales

section \<open>What is as desired is found so\<close>

lemma fmsubset_absorb: "n \<subseteq>\<^sub>f m \<Longrightarrow> m ++\<^sub>f n = m" for m n :: smap
  by (rule fmap_ext) (auto simp: fmsubset.rep_eq map_le_def fmlookup_dom'_iff fmlookup_dom_iff)

context lib_laws
begin

lemma realises_in_sync:
  assumes "sc_realises ed nsc ns ps y" and "Connection (Spec nsc) \<noteq> None"
  shows "\<exists>new. ConfigureStorageClass L ed (Some y) nsc ns ps = Some new \<and> sc_in_sync y new"
proof -
  from assms(2) obtain new where new: "ConfigureStorageClass L ed (Some y) nsc ns ps = Some new"
    using ConfigureStorageClass_panic [of L ed "Some y" nsc ns ps] by auto
  note f = ConfigureStorageClass_fields [OF new]
  let ?k = "NFSStorageClassVolumeSnapshotClassAnnotationKey"
  from assms(1) have a: "fmlookup (smap_of (Annotations y)) ?k = Some (Name nsc)" by (simp add: sc_realises_def)
  then have "fmupd ?k (Name nsc) (smap_of (Annotations y)) = smap_of (Annotations y)"
    by (auto intro: fmap_ext)
  then have "merged_annotations L (Some y) nsc = smap_of (Annotations y)" by (simp add: merged_annotations_eq)
  moreover from a obtain m where "Annotations y = Some m" by (cases "Annotations y") (auto simp: smap_of_def)
  ultimately have "Annotations new = Annotations y" using f(7) by (simp add: smap_of_def)
  with new assms(1) f show ?thesis
    by (auto simp: sc_realises_def sc_in_sync_def sc_mutable_differ_def sc_immutable_differ_def ptr_differ_def split: option.splits)
qed

lemma vsc_realises_in_sync:
  assumes "vsc_realises ed nsc ns v" and "Connection (Spec nsc) \<noteq> None"
  shows "\<exists>new. ConfigureVSClass L ed (Some v) nsc ns = Some new \<and> vsc_in_sync v new"
proof -
  from assms(2) obtain new where new: "ConfigureVSClass L ed (Some v) nsc ns = Some new"
    using ConfigureVSClass_panic [of L ed "Some v" nsc ns] by auto
  note f = ConfigureVSClass_fields [OF new]
  from assms(1) have s: "secretSelector \<subseteq>\<^sub>f smap_of (Labels v)" by (simp add: vsc_realises_def)
  have "Labels v \<noteq> None"
  proof
    assume "Labels v = None"
    with s show False by (simp add: smap_of_def secretSelector_def fmsubset.rep_eq map_le_def)
  qed
  then obtain m where m: "Labels v = Some m" by blast
  with s have "merged_vsc_labels L (Some v) = m" by (simp add: merged_vsc_labels_eq fmsubset_absorb smap_of_def)
  with m f new assms(1) show ?thesis
    by (auto simp: vsc_realises_def vsc_in_sync_def ConfigureVSClass_eq bind_eq_Some_conv)
qed

end

context reconciler
begin

lemma sc_stage_stable:
  assumes "sc_realises ed nsc ns ps y" and c: "Connection (Spec nsc) \<noteq> None" and "DeletionTimestamp nsc = None"
    and "findStorageClass scList (Name nsc) = Some y"
  shows "scStage L ed cl scList ns ps nsc w = Some (((False, None), nsc), w)"
  using realises_in_sync [OF assms(1) c] identify_sc_exists [OF assms(4,3)]
  by (auto simp: scStage_def reconcile_type_defs)

lemma vsc_stage_stable:
  assumes "vsc_realises ed nsc ns v" and c: "Connection (Spec nsc) \<noteq> None" and "DeletionTimestamp nsc = None"
    and "vscs (view w) (ckey nsc) = Some v" and "vscStage L ed cl ns nsc w = Some (((rq, None), n1), w1)"
  shows "view w1 = view w"
proof -
  obtain l w2 where l: "List (vsc_client cl) [] w = (l, w2)" by fastforce
  from assms(5) l obtain xs where xs: "l = Inr xs"
    by (cases l) (auto simp: vscStage_def Let_def dest: failWith_result)
  have find: "findVSClass xs (Name nsc) = Some v"
    using vsc.list_find [OF l [unfolded xs], of "ckey nsc"] assms(4) by (simp add: findVSClass_def ckey_def)
  obtain new where "ConfigureVSClass L ed (Some v) nsc ns = Some new" "vsc_in_sync v new"
    using vsc_realises_in_sync [OF assms(1) c] by blast
  then have "IdentifyReconcileFuncForVSClass L ed xs nsc ns = Some ('''', Some v, Some new)"
    using assms(3) find compare_vsc_none
    by (simp add: IdentifyReconcileFuncForVSClass_def shouldReconcileByDeleteFunc_def Let_def
        shouldReconcileVSClassByCreateFunc_def shouldReconcileVSClassByUpdateFunc_def)
  with assms(5) l xs vsc.list_view [OF l] show ?thesis by (simp add: vscStage_def reconcile_type_defs)
qed

lemma reconcile_stable:
  assumes stored: "nscs (view w) ('''', n) = Some nsc" and n: "n \<noteq> ''''" and live: "DeletionTimestamp nsc = None"
    and c: "Connection (Spec nsc) = Some c"
    and ns: "ControllerNamespace cfg \<noteq> ''''" and i: "RequeueStorageClassInterval cfg > 0"
    and sc: "scs (view w) ('''', n) = Some sc"
      "sc_realises ed nsc (ControllerNamespace cfg) (StorageClassLabelIgnoredPrefixes cfg) sc"
    and v: "vscs (view w) ('''', n) = Some v" "vsc_realises ed nsc (ControllerNamespace cfg) v"
    and r: "Reconcile L ed cl cfg ('''', n) w = Some ((emptyResult, None), w')"
  shows "scs (view w') = scs (view w) \<and> vscs (view w') = vscs (view w)"
proof -
  obtain w0 w1 scList w2 nsc' where views: "view w2 = view w"
    and l: "findStorageClass scList n = scs (view w) ('''', n)"
    and run: "RunEventReconcile L ed cl scList (ControllerNamespace cfg) (StorageClassLabelIgnoredPrefixes cfg) nsc w2 =
       Some (((False, None), nsc'), w')"
    by (rule reconcile_ok [OF r stored n i])
  have name: "Name nsc = n" "ckey nsc = ('''', n)" using stored_name [OF stored] by auto
  from run show ?thesis
  proof (rule run_success)
    fix n1 w1 n2 w3 n3 w4 n4 w5
    assume s1: "finalizerStage cl nsc w2 = Some (((False, None), n1), w1)"
      and s2: "scStage L ed cl scList (ControllerNamespace cfg) (StorageClassLabelIgnoredPrefixes cfg) n1 w1 = Some (((False, None), n2), w3)"
      and s3: "secretStage L ed cl (ControllerNamespace cfg) n2 w3 = Some (((False, None), n3), w4)"
      and s4: "vscStage L ed cl (ControllerNamespace cfg) n3 w4 = Some (((False, None), n4), w5)"
      and s5: "statusStage cl n4 w5 = Some (((False, None), nsc'), w')"
    have st2: "nscs (view w2) (ckey nsc) = Some nsc" using stored views name by simp
    from finalizer_stage_ok [OF s1 st2] have a: "alike nsc n1" and f: "FIN \<in> set (fins n1)"
      and v1: "view w1 = nscs_update (\<lambda>s. s(ckey nsc := Some n1)) (view w2)" by auto
    have k: "ckey n1 = ckey nsc" "DeletionTimestamp n1 = None" "Spec n1 = Spec nsc" "Name n1 = n"
      using a live name by (simp_all add: alike_def ckey_def)
    have "scStage L ed cl scList (ControllerNamespace cfg) (StorageClassLabelIgnoredPrefixes cfg) n1 w1 = Some (((False, None), n1), w1)"
      using sc c l k by (intro sc_stage_stable [where y = sc]) (simp_all add: alike_realises(1) [OF a])
    with s2 have n2: "n2 = n1" "w3 = w1" by simp_all
    from secret_stage_ok [OF s3 _ ns] n2 k obtain s where n3: "n3 = n1" and
      v4: "view w4 = secrets_update (\<lambda>m. m((ControllerNamespace cfg, secret_name n1) := Some s)) (view w1)" by auto
    have "view w5 = view w4"
      using s4 unfolding n3
      by (rule vsc_stage_stable [rotated 4]) (use v c k name in \<open>simp_all add: alike_realises(3) [OF a] v4 v1 views\<close>)
    moreover have "n4 = n1" using vsc_stage_ok [OF s4] n3 k c by simp
    moreover from calculation have "nscs (view w5) (ckey n1) = Some n1" by (simp add: v4 v1 k)
    ultimately have "view w' = nscs_update (\<lambda>s. s(ckey n1 := Some nsc')) (view w4)"
      using status_stage_ok [OF s5 [unfolded \<open>n4 = n1\<close>] k(2) _ f] by simp
    then show ?thesis by (simp add: v4 v1 views)
  qed
qed

end

section \<open>Stages of a live class\<close>

text \<open>A StorageClass that the controller can bring in line: one of this driver, not being deleted, that nobody else holds. A
  StorageClass of another driver cannot be: its provisioner is not compared, and the API server refuses to change it.\<close>

definition sc_adoptable :: "StorageClass \<Rightarrow> bool" where
  "sc_adoptable sc \<longleftrightarrow> own_sc sc \<and> DeletionTimestamp sc = None \<and> remove1 FIN (fins sc) = []"

text \<open>An existing Secret is taken over if it has no label but the managed one, see \<open>secret_never_settles\<close>.\<close>

definition secret_adoptable :: "Secret \<Rightarrow> bool" where
  "secret_adoptable s \<longleftrightarrow> DeletionTimestamp s = None \<and> smap_of (Labels s) \<subseteq>\<^sub>f secretSelector"

context serving
begin

lemma finalizer_stage_up:
  assumes "up w" and "nscs (view w) (ckey nsc) = Some nsc" and "DeletionTimestamp nsc = None"
  shows "\<exists>n1 w1. finalizerStage cl nsc w = Some (((False, None), n1), w1) \<and> up w1"
  using nscv.add_finalizer_up [OF assms, of FIN] by (auto simp: finalizerStage_def)

lemma delete_sc_up:
  assumes "up w" and "scs (view w) (ckey sc) = Some sc" and "own_sc sc"
    and "DeletionTimestamp sc = None \<or> remove1 FIN (fins sc) \<noteq> []"
  shows "\<exists>w'. deleteStorageClass cl sc w = (None, w') \<and> up w'"
  using scv.remove_and_delete_up [OF assms(1,2,4)] assms(3) by (auto simp: deleteStorageClass_def allowed_own)

lemma recreate_sc_up:
  assumes "up w" and "scs (view w) (ckey sc) = Some sc" and "sc_adoptable sc" and "ckey new = ckey sc"
  shows "\<exists>w'. recreateStorageClass cl sc new w = (None, w') \<and> up w'"
proof -
  from delete_sc_up [OF assms(1,2)] assms(3) obtain w1 where d: "deleteStorageClass cl sc w = (None, w1)" "up w1"
    by (auto simp: sc_adoptable_def)
  from deleteStorageClass_ok [OF d(1)] assms(2,3) have "scs (view w1) (ckey sc) = None"
    by (auto simp: discards_def sc_adoptable_def dismissed_def)
  with scu.create_up [OF d(2), of new] assms(4) obtain x' w2 where "Create (sc_client cl) new w1 = ((None, x'), w2)" "up w2"
    by auto
  with d(1) show ?thesis by (simp add: recreateStorageClass_def)
qed

lemma sc_stage_up:
  assumes "up w" and live: "DeletionTimestamp nsc = None" and c: "Connection (Spec nsc) \<noteq> None"
    and list: "findStorageClass scList (Name nsc) = scs (view w) (ckey nsc)"
    and old: "\<And>sc. scs (view w) (ckey nsc) = Some sc \<Longrightarrow> sc_adoptable sc"
  shows "\<exists>w'. scStage L ed cl scList ns ps nsc w = Some (((False, None), nsc), w') \<and> up w'"
proof (cases "scs (view w) (ckey nsc)")
  case None
  obtain new where new: "ConfigureStorageClass L ed None nsc ns ps = Some new"
    using c ConfigureStorageClass_panic [of L ed None nsc ns ps] by auto
  have id: "IdentifyReconcileFuncForStorageClass L ed scList nsc ns ps = Some (CreateReconcile, None, Some new)"
    using identify_sc_absent [of scList nsc L ed ns ps] list None live new by simp
  have "ckey new = ckey nsc" using ConfigureStorageClass_fields(1) [OF new] by simp
  with scu.create_up [OF assms(1), of new] None obtain x' w' where "Create (sc_client cl) new w = ((None, x'), w')" "up w'"
    by auto
  with id show ?thesis by (simp add: scStage_def reconcileStorageClassCreateFunc_def)
next
  case (Some sc)
  obtain new where new: "ConfigureStorageClass L ed (Some sc) nsc ns ps = Some new"
    using c ConfigureStorageClass_panic [of L ed "Some sc" nsc ns ps] by auto
  note f = ConfigureStorageClass_fields [OF new]
  have k: "ckey sc = ckey nsc" "ckey new = ckey sc" using sc.keyed [OF Some] f(1) by (simp_all add: ckey_def)
  have st: "scs (view w) (ckey sc) = Some sc" unfolding k(1) by (rule Some)
  note adopt = old [OF Some]
  have id: "IdentifyReconcileFuncForStorageClass L ed scList nsc ns ps = Some
      (if sc_in_sync sc new then '''' else if sc_immutable_differ sc new then RecreateReconcile else UpdateReconcile,
       Some sc, Some new)"
    using identify_sc_exists [OF _ live new] list Some by simp
  consider "sc_in_sync sc new" | "\<not> sc_in_sync sc new" "sc_immutable_differ sc new"
    | "\<not> sc_in_sync sc new" "\<not> sc_immutable_differ sc new" by blast
  then show ?thesis
  proof cases
    case 1
    with id assms(1) show ?thesis by (simp add: scStage_def reconcile_type_defs)
  next
    case 2
    from recreate_sc_up [OF assms(1) st adopt k(2)] obtain w' where "recreateStorageClass cl sc new w = (None, w')" "up w'" by blast
    with id 2 show ?thesis by (simp add: scStage_def reconcileStorageClassRecreateFunc_def reconcile_type_defs)
  next
    case 3
    let ?x = "new\<lparr>ResourceVersion := ResourceVersion sc\<rparr>"
    have "sc_accepts sc ?x"
      using 3(2) adopt f by (auto simp: sc_accepts_def current_or_none_def sc_immutable_differ_def ptr_differ_def
          sc_adoptable_def own_sc_def split: option.splits)
    with scu.update_up [OF assms(1), of ?x sc] st k adopt obtain x' w' where
      "Update (sc_client cl) ?x w = ((None, x'), w')" "up w'"
      by (auto simp: sc_adoptable_def ckey_def)
    with id 3 show ?thesis by (simp add: scStage_def reconcileStorageClassUpdateFunc_def reconcile_type_defs)
  qed
qed

lemma secret_list_stored:
  assumes "List (secret_client cl) [InNamespace ns] w = (Inr xs, w1)" and "ns \<noteq> ''''"
    and "find (\<lambda>s. Name s = n) xs = Some s"
  shows "secrets (view w1) (ns, n) = Some s \<and> StringData s = None"
proof -
  have s: "secrets (view w) (ns, n) = Some s" using secret_find [OF assms(1,2), of n] assms(3) by simp
  then have "wire_secret s = s" using secret.stored_wire by blast
  then have "StringData s = None"
    by (metis Secret.select_convs(3) Secret.surjective Secret.update_convs(3) wire_secret_def)
  with s secret.list_view [OF assms(1)] show ?thesis by simp
qed

lemma secret_stage_up:
  assumes "up w" and live: "DeletionTimestamp nsc = None" and c: "Connection (Spec nsc) \<noteq> None" and ns: "ns \<noteq> ''''"
    and old: "\<And>s. secrets (view w) (ns, secret_name nsc) = Some s \<Longrightarrow> secret_adoptable s"
  shows "\<exists>w'. secretStage L ed cl ns nsc w = Some (((False, None), nsc), w') \<and> up w'"
proof -
  from secretu.list_up [OF assms(1)] obtain xs w1 where l: "List (secret_client cl) [InNamespace ns] w = (Inr xs, w1)" "up w1"
    by blast
  obtain new where new: "configureSecret ed nsc ns = Some new" using c configureSecret_panic [of ed nsc ns] by auto
  note f = configureSecret_fields [OF new]
  have k: "nkey new = (ns, secret_name nsc)" using f(1,2) by (simp add: nkey_def)
  show ?thesis
  proof (cases "find (\<lambda>s. Name s = secret_name nsc) xs")
    case None
    with secret_find [OF l(1) ns, of "secret_name nsc"] secret.list_view [OF l(1)] have "secrets (view w1) (nkey new) = None"
      by (simp add: k)
    with secretu.create_up [OF l(2), of new] obtain x' w2 where "Create (secret_client cl) new w1 = ((None, x'), w2)" "up w2"
      by blast
    with l new identify_secret_absent [OF live None] show ?thesis
      by (simp add: secretStage_def reconcileSecretCreateFunc_def)
  next
    case (Some s)
    note st = secret_list_stored [OF l(1) ns Some]
    with old [of s] secret.list_view [OF l(1)] have a: "secret_adoptable s" by simp
    have "current_or_none s new" using new by (auto simp: current_or_none_def configureSecret_def Let_def bind_eq_Some_conv split: if_splits)
    with secretu.update_up [OF l(2), of new s] st a k obtain x' w2 where
      u: "Update (secret_client cl) new w1 = ((None, x'), w2)" "up w2"
      by (auto simp: secret_adoptable_def)
    have "IdentifyReconcileFuncForSecret L ed xs nsc ns = Some (UpdateReconcile, None)"
      using identify_secret_exists [OF live Some, of L ed ns] new st a f(6) by (auto simp: Matches secret_adoptable_def)
    with l new u Some show ?thesis
      by (simp add: secretStage_def reconcileSecretUpdateFunc_def reconcile_type_defs)
  qed
qed

lemma vsc_stage_up:
  assumes "up w" and live: "DeletionTimestamp nsc = None" and c: "Connection (Spec nsc) \<noteq> None"
    and old: "\<And>v. vscs (view w) (ckey nsc) = Some v \<Longrightarrow> DeletionTimestamp v = None"
  shows "\<exists>w'. vscStage L ed cl ns nsc w = Some (((False, None), nsc), w') \<and> up w'"
proof -
  from vscu.list_up [OF assms(1)] obtain xs w1 where l: "List (vsc_client cl) [] w = (Inr xs, w1)" "up w1" by blast
  have find: "findVSClass xs (Name nsc) = vscs (view w1) (ckey nsc)"
    using vsc.list_find [OF l(1), of "ckey nsc"] vsc.list_view [OF l(1)] by (simp add: findVSClass_def ckey_def)
  obtain new where new: "ConfigureVSClass L ed (findVSClass xs (Name nsc)) nsc ns = Some new"
    using c ConfigureVSClass_panic [of L ed "findVSClass xs (Name nsc)" nsc ns] by auto
  have k: "ckey new = ckey nsc" using ConfigureVSClass_fields(1) [OF new] by simp
  note id = IdentifyReconcileFuncForVSClass_def shouldReconcileByDeleteFunc_def Let_def live
    shouldReconcileVSClassByCreateFunc_def shouldReconcileVSClassByUpdateFunc_def
  show ?thesis
  proof (cases "findVSClass xs (Name nsc)")
    case None
    with vscu.create_up [OF l(2), of new] find k obtain x' w2 where "Create (vsc_client cl) new w1 = ((None, x'), w2)" "up w2"
      by auto
    with l new None show ?thesis by (simp add: vscStage_def id reconcileVolumeSnapshotClassCreateFunc_def)
  next
    case (Some v)
    let ?x = "new\<lparr>ResourceVersion := ResourceVersion v\<rparr>"
    have "vscs (view w1) (ckey ?x) = Some v" using find Some k by (simp add: ckey_def)
    moreover have "current v ?x" by (simp add: current_def)
    moreover have "DeletionTimestamp v = None" using old find Some vsc.list_view [OF l(1)] by simp
    ultimately obtain x' w2 where "Update (vsc_client cl) ?x w1 = ((None, x'), w2)" "up w2"
      using vscu.update_up [OF l(2), of ?x v] by blast
    with l new Some show ?thesis
      by (simp add: vscStage_def id reconcileVolumeSnapshotClassUpdateFunc_def reconcile_type_defs)
  qed
qed

lemma status_stage_up:
  assumes "up w" and "nscs (view w) (ckey nsc) = Some nsc" and "DeletionTimestamp nsc = None"
  shows "\<exists>nsc' w'. statusStage cl nsc w = Some (((False, None), nsc'), w') \<and> up w'"
proof -
  have "\<exists>x' w'. StatusUpdate (nsc_client cl) (nsc\<lparr>Status := st\<rparr>) w = ((None, x'), w') \<and> up w'" for st
    using status_up [OF assms(1), of "nsc\<lparr>Status := st\<rparr>" nsc] assms(2) by (simp add: ckey_def current_def)
  then have "\<exists>x' w'. updateNFSStorageClassPhase cl nsc CreatedStatusPhase '''' w = ((None, x'), w') \<and> up w'"
    by (simp add: updateNFSStorageClassPhase_def Let_def)
  with assms(3) show ?thesis by (auto simp: statusStage_def)
qed

lemma andThen_next: "f nsc w = Some (((False, None), n1), w1) \<Longrightarrow> andThen f g nsc w = g n1 w1"
  by (simp add: andThen_def)

lemma run_up:
  assumes "up w" and stored: "nscs (view w) (ckey nsc) = Some nsc" and live: "DeletionTimestamp nsc = None"
    and c: "Connection (Spec nsc) = Some c" "NFSVersion c \<noteq> ''''" and ns: "ns \<noteq> ''''"
    and list: "findStorageClass scList (Name nsc) = scs (view w) (ckey nsc)"
    and old: "\<And>sc. scs (view w) (ckey nsc) = Some sc \<Longrightarrow> sc_adoptable sc"
      "\<And>s. secrets (view w) (ns, secret_name nsc) = Some s \<Longrightarrow> secret_adoptable s"
      "\<And>v. vscs (view w) (ckey nsc) = Some v \<Longrightarrow> DeletionTimestamp v = None"
  shows "\<exists>nsc' w'. RunEventReconcile L ed cl scList ns ps nsc w = Some (((False, None), nsc'), w') \<and> up w'"
proof -
  from finalizer_stage_up [OF assms(1) stored live] obtain n1 w1 where
    s1: "finalizerStage cl nsc w = Some (((False, None), n1), w1)" and u1: "up w1" by blast
  from finalizer_stage_ok [OF s1 stored] have a: "alike nsc n1"
    and v1: "view w1 = nscs_update (\<lambda>s. s(ckey nsc := Some n1)) (view w)" by auto
  have k: "ckey n1 = ckey nsc" "secret_name n1 = secret_name nsc" "DeletionTimestamp n1 = None"
    "Spec n1 = Spec nsc" "Name n1 = Name nsc"
    using a live by (simp_all add: alike_def ckey_def)
  have l1: "findStorageClass scList (Name n1) = scs (view w1) (ckey n1)" using list by (simp add: k v1)
  obtain w2 where s2: "scStage L ed cl scList ns ps n1 w1 = Some (((False, None), n1), w2)" and u2: "up w2"
    using sc_stage_up [OF u1 k(3) _ l1, of ed ns ps] c old(1) by (auto simp: k v1)
  from sc_stage_ok [OF s2 k(3) _ c(2) l1] c(1) obtain sc where v2: "view w2 = scs_update (\<lambda>s. s(ckey nsc := Some sc)) (view w1)"
    by (auto simp: k)
  obtain w3 where s3: "secretStage L ed cl ns n1 w2 = Some (((False, None), n1), w3)" and u3: "up w3"
    using secret_stage_up [OF u2 k(3) _ ns, of ed] c old(2) by (auto simp: k v1 v2)
  from secret_stage_ok [OF s3 k(3) ns] obtain s where
    v3: "view w3 = secrets_update (\<lambda>m. m((ns, secret_name nsc) := Some s)) (view w2)" by (auto simp: k)
  obtain w4 where s4: "vscStage L ed cl ns n1 w3 = Some (((False, None), n1), w4)" and u4: "up w4"
    using vsc_stage_up [OF u3 k(3), of ed ns] c old(3) by (auto simp: k v1 v2 v3)
  from vsc_stage_ok [OF s4 k(3)] c(1) obtain v where v4: "view w4 = vscs_update (\<lambda>s. s(ckey nsc := Some v)) (view w3)"
    by (auto simp: k)
  have "nscs (view w4) (ckey n1) = Some n1" by (simp add: k v4 v3 v2 v1)
  from status_stage_up [OF u4 this k(3)] obtain n5 w5 where s5: "statusStage cl n1 w4 = Some (((False, None), n5), w5)" and "up w5"
    by blast
  have "RunEventReconcile L ed cl scList ns ps nsc w = Some (((False, None), n5), w5)"
    unfolding RunEventReconcile_def andThen_next [where f = "finalizerStage cl", OF s1] andThen_next [where f = "scStage L ed cl scList ns ps", OF s2]
      andThen_next [where f = "secretStage L ed cl ns", OF s3] andThen_next [where f = "vscStage L ed cl ns", OF s4]
    by (rule s5)
  with \<open>up w5\<close> show ?thesis by blast
qed

lemma reconcile_up:
  assumes "up w" and stored: "nscs (view w) ('''', n) = Some nsc" and n: "n \<noteq> ''''" and live: "DeletionTimestamp nsc = None"
    and c: "Connection (Spec nsc) = Some c" "NFSVersion c \<noteq> ''''" and ns: "ControllerNamespace cfg \<noteq> ''''"
    and mc: "mcs (view w) ('''', CsiNfsModuleName cfg) = Some mc" "settings_typed mc" "admissible ed mc c"
    and old: "\<And>sc. scs (view w) ('''', n) = Some sc \<Longrightarrow> sc_adoptable sc"
      "\<And>s. secrets (view w) (ControllerNamespace cfg, SecretForMountOptionsPrefix @ n) = Some s \<Longrightarrow> secret_adoptable s"
      "\<And>v. vscs (view w) ('''', n) = Some v \<Longrightarrow> DeletionTimestamp v = None"
  shows "\<exists>w'. Reconcile L ed cl cfg ('''', n) w = Some ((emptyResult, None), w') \<and> up w'"
proof -
  have name: "Name nsc = n" "ckey nsc = ('''', n)" using stored_name [OF stored] by auto
  from nscu.get_up [OF assms(1) stored] obtain w1 where g: "Get (nsc_client cl) '''' n w = (Inr nsc, w1)" "up w1" by blast
  have v1: "view w1 = view w" by (rule nsc.get_view [OF g(1)])
  from mcu.get_up [OF g(2), of "''''" "CsiNfsModuleName cfg" mc] mc(1) v1 obtain w2 where
    m: "Get (mc_client cl) '''' (CsiNfsModuleName cfg) w1 = (Inr mc, w2)" "up w2" by auto
  have v2: "view w2 = view w" using mc.get_view [OF m(1)] v1 by simp
  have "ValidateNFSStorageClass ed mc nsc = Some None"
    using validate_no_panic [of nsc mc ed] validate_accepts_iff [OF c(1), of ed mc] c(1) mc(2,3) by auto
  with m(1) live have val: "validateRequest ed cl (CsiNfsModuleName cfg) nsc w1 = Some ((None, nsc), w2)"
    by (simp add: validateRequest_def)
  from scu.list_up [OF m(2)] obtain scList w3 where l: "List (sc_client cl) [] w2 = (Inr scList, w3)" "up w3" by blast
  have v3: "view w3 = view w" using sc.list_view [OF l(1)] v2 by simp
  have "findStorageClass scList (Name nsc) = scs (view w3) (ckey nsc)"
    using sc_list_find [OF l(1), of n] v2 v3 name by simp
  from run_up [OF l(2) _ live c ns this, of ed "StorageClassLabelIgnoredPrefixes cfg"] stored old obtain nsc' w4 where
    "RunEventReconcile L ed cl scList (ControllerNamespace cfg) (StorageClassLabelIgnoredPrefixes cfg) nsc w3 =
      Some (((False, None), nsc'), w4)" "up w4"
    by (simp add: name v3) blast
  with g(1) val l(1) n show ?thesis by (simp add: Reconcile_def reconcileRequest_def name)
qed

end

section \<open>Stages of a class that is being deleted\<close>

text \<open>An object that can be deleted in one turn: removing the controller's finalizer does not make it vanish before the
  deletion, which would then fail.\<close>

definition disposable :: "'m ObjectMeta_scheme \<Rightarrow> bool" where
  "disposable x \<longleftrightarrow> DeletionTimestamp x = None \<or> remove1 FIN (fins x) \<noteq> []"

context serving
begin

lemma sc_stage_deleting_up:
  assumes "up w" and del: "DeletionTimestamp nsc \<noteq> None"
    and list: "findStorageClass scList (Name nsc) = scs (view w) (ckey nsc)"
    and old: "\<And>sc. scs (view w) (ckey nsc) = Some sc \<Longrightarrow> own_sc sc \<Longrightarrow> disposable sc"
  shows "\<exists>w'. scStage L ed cl scList ns ps nsc w = Some (((False, None), nsc), w') \<and> up w'"
proof -
  have id: "scStage L ed cl scList ns ps nsc w = Some (reconcileStorageClassDeleteFunc cl (scs (view w) (ckey nsc)) nsc w)"
    by (simp add: scStage_def identify_sc_deleted [OF del] list reconcile_type_defs)
  show ?thesis
  proof (cases "\<exists>sc. scs (view w) (ckey nsc) = Some sc \<and> own_sc sc")
    case True
    then obtain sc where sc: "scs (view w) (ckey nsc) = Some sc" "own_sc sc" by blast
    have "ckey sc = ckey nsc" using sc.keyed [OF sc(1)] .
    then have "scs (view w) (ckey sc) = Some sc" using sc(1) by (simp only:)
    from delete_sc_up [OF assms(1) this sc(2)] old [OF sc] obtain w' where "deleteStorageClass cl sc w = (None, w')" "up w'"
      by (auto simp: disposable_def)
    with sc show ?thesis unfolding id by (simp add: reconcileStorageClassDeleteFunc_def allowed_own)
  next
    case False
    with assms(1) show ?thesis unfolding id
      by (auto simp: reconcileStorageClassDeleteFunc_def allowed_own split: option.split)
  qed
qed

lemma vsc_stage_deleting_up:
  assumes "up w" and del: "DeletionTimestamp nsc \<noteq> None"
    and old: "\<And>v. vscs (view w) (ckey nsc) = Some v \<Longrightarrow> own_vsc v \<Longrightarrow> disposable v"
  shows "\<exists>w'. vscStage L ed cl ns nsc w = Some (((False, None), nsc), w') \<and> up w'"
proof -
  from vscu.list_up [OF assms(1)] obtain xs w1 where l: "List (vsc_client cl) [] w = (Inr xs, w1)" "up w1" by blast
  have v1: "view w1 = view w" by (rule vsc.list_view [OF l(1)])
  have find: "findVSClass xs (Name nsc) = vscs (view w) (ckey nsc)"
    using vsc.list_find [OF l(1), of "ckey nsc"] by (simp add: findVSClass_def ckey_def)
  have id: "vscStage L ed cl ns nsc w = Some (reconcileVolumeSnapshotClassDeleteFunc cl (vscs (view w) (ckey nsc)) nsc w1)"
    using l(1) by (simp add: vscStage_def identify_vsc_deleted [OF del] find reconcile_type_defs)
  show ?thesis
  proof (cases "\<exists>v. vscs (view w) (ckey nsc) = Some v \<and> own_vsc v")
    case True
    then obtain v where v: "vscs (view w) (ckey nsc) = Some v" "own_vsc v" by blast
    have "ckey v = ckey nsc" using vsc.keyed [OF v(1)] .
    then have "vscs (view w1) (ckey v) = Some v" using v(1) v1 by (simp only:)
    from vscv.remove_and_delete_up [OF l(2) this, of FIN] old [OF v] v(2) obtain w' where
      "deleteVolumeSnapshotClass cl v w1 = (None, w')" "up w'"
      by (auto simp: disposable_def deleteVolumeSnapshotClass_def allowed_own)
    with v show ?thesis unfolding id by (simp add: reconcileVolumeSnapshotClassDeleteFunc_def allowed_own)
  next
    case False
    with l(2) show ?thesis unfolding id
      by (auto simp: reconcileVolumeSnapshotClassDeleteFunc_def allowed_own split: option.split)
  qed
qed

lemma release_up:
  assumes "up w" and "nscs (view w) (ckey nsc) = Some nsc"
  shows "\<exists>n' w'. releaseNFSStorageClass cl nsc w = (((False, None), n'), w') \<and> up w'"
  using nscv.remove_finalizer_up [OF assms, of FIN] by (auto simp: releaseNFSStorageClass_def)

lemma secret_stage_deleting_up:
  assumes "up w" and del: "DeletionTimestamp nsc \<noteq> None" and ns: "ns \<noteq> ''''"
    and stored: "nscs (view w) (ckey nsc) = Some nsc"
    and old: "\<And>s. secrets (view w) (ns, secret_name nsc) = Some s \<Longrightarrow> disposable s"
  shows "\<exists>n' w'. secretStage L ed cl ns nsc w = Some (((False, None), n'), w') \<and> up w'"
proof -
  from secretu.list_up [OF assms(1)] obtain xs w1 where l: "List (secret_client cl) [InNamespace ns] w = (Inr xs, w1)" "up w1"
    by blast
  have v1: "view w1 = view w" by (rule secret.list_view [OF l(1)])
  have id: "secretStage L ed cl ns nsc w = Some (reconcileSecretDeleteFunc cl xs nsc w1)"
    using l(1) by (simp add: secretStage_def identify_secret_deleted [OF del] reconcile_type_defs)
  show ?thesis
  proof (cases "find (\<lambda>s. Name s = secret_name nsc) xs")
    case None
    with release_up [OF l(2)] stored v1 show ?thesis unfolding id by (simp add: reconcileSecretDeleteFunc_def)
  next
    case (Some s)
    note st = conjunct1 [OF secret_list_stored [OF l(1) ns Some]]
    have k: "nkey s = (ns, secret_name nsc)" by (rule secret.keyed [OF st])
    with st have "secrets (view w1) (nkey s) = Some s" by (simp only:)
    from secretv.remove_and_delete_up [OF l(2) this, of FIN] old [of s] st v1 obtain r s1 w2 w3 where
      r: "removeFinalizerIfExists (Update (secret_client cl)) s FIN w1 = (((r, None), s1), w2)"
      and d: "Delete (secret_client cl) s1 w2 = (None, w3)" and u: "up w3"
      by (auto simp: disposable_def)
    have "writes secrets_update (nkey s) (view w1) (view w3)" using secret.remove_and_delete_frame [OF r d] by blast
    then have "nscs (view w3) (ckey nsc) = Some nsc" using stored v1 by (auto simp: writes_def)
    from release_up [OF u this] obtain n' w4 where "releaseNFSStorageClass cl nsc w3 = (((False, None), n'), w4)" "up w4" by blast
    with r d Some show ?thesis unfolding id by (simp add: reconcileSecretDeleteFunc_def)
  qed
qed

lemma run_deleting_up:
  assumes "up w" and stored: "nscs (view w) (ckey nsc) = Some nsc" and del: "DeletionTimestamp nsc \<noteq> None"
    and fin: "FIN \<in> set (fins nsc)" and ns: "ns \<noteq> ''''"
    and list: "findStorageClass scList (Name nsc) = scs (view w) (ckey nsc)"
    and old: "\<And>sc. scs (view w) (ckey nsc) = Some sc \<Longrightarrow> own_sc sc \<Longrightarrow> disposable sc"
      "\<And>s. secrets (view w) (ns, secret_name nsc) = Some s \<Longrightarrow> disposable s"
      "\<And>v. vscs (view w) (ckey nsc) = Some v \<Longrightarrow> own_vsc v \<Longrightarrow> disposable v"
  shows "\<exists>nsc' w'. RunEventReconcile L ed cl scList ns ps nsc w = Some (((False, None), nsc'), w') \<and> up w'"
proof -
  have s1: "finalizerStage cl nsc w = Some (((False, None), nsc), w)"
    using fin by (simp add: finalizerStage_def addFinalizerIfNotExists_def fins_def)
  from sc_stage_deleting_up [OF assms(1) del list] old(1) obtain w2 where
    s2: "scStage L ed cl scList ns ps nsc w = Some (((False, None), nsc), w2)" and u2: "up w2" by blast
  from sc_stage_deleting [OF s2 del list] obtain b where v2: "view w2 = scs_update (\<lambda>s. s(ckey nsc := b)) (view w)" by blast
  have st2: "nscs (view w2) (ckey nsc) = Some nsc" using stored by (simp add: v2)
  from secret_stage_deleting_up [OF u2 del ns st2, of ed] old(2) v2 obtain n3 w3 where
    s3: "secretStage L ed cl ns nsc w2 = Some (((False, None), n3), w3)" and u3: "up w3" by auto
  from secret_stage_deleting [OF s3 del ns st2 fin] obtain s a where
    d3: "DeletionTimestamp n3 \<noteq> None" "Name n3 = Name nsc" and
    v3: "view w3 = (view w2)\<lparr>nscs := (nscs (view w2))(ckey nsc := a),
        secrets := (secrets (view w2))((ns, secret_name nsc) := s)\<rparr>" by blast
  have k3: "ckey n3 = ckey nsc" using d3 by simp
  have "vscs (view w3) (ckey n3) = vscs (view w) (ckey nsc)" by (simp add: k3 v3 v2)
  with vsc_stage_deleting_up [OF u3 d3(1), of ed ns] old(3) obtain w4 where
    s4: "vscStage L ed cl ns n3 w3 = Some (((False, None), n3), w4)" and u4: "up w4" by auto
  have s5: "statusStage cl n3 w4 = Some (((False, None), n3), w4)" using d3(1) by (auto simp: statusStage_def)
  have "RunEventReconcile L ed cl scList ns ps nsc w = Some (((False, None), n3), w4)"
    unfolding RunEventReconcile_def andThen_next [where f = "finalizerStage cl", OF s1] andThen_next [where f = "scStage L ed cl scList ns ps", OF s2]
      andThen_next [where f = "secretStage L ed cl ns", OF s3] andThen_next [where f = "vscStage L ed cl ns", OF s4]
    by (rule s5)
  with u4 show ?thesis by blast
qed

lemma reconcile_deleting_up:
  assumes "up w" and stored: "nscs (view w) ('''', n) = Some nsc" and n: "n \<noteq> ''''" and del: "DeletionTimestamp nsc \<noteq> None"
    and fin: "FIN \<in> set (fins nsc)" and ns: "ControllerNamespace cfg \<noteq> ''''"
    and old: "\<And>sc. scs (view w) ('''', n) = Some sc \<Longrightarrow> own_sc sc \<Longrightarrow> disposable sc"
      "\<And>s. secrets (view w) (ControllerNamespace cfg, SecretForMountOptionsPrefix @ n) = Some s \<Longrightarrow> disposable s"
      "\<And>v. vscs (view w) ('''', n) = Some v \<Longrightarrow> own_vsc v \<Longrightarrow> disposable v"
  shows "\<exists>w'. Reconcile L ed cl cfg ('''', n) w = Some ((emptyResult, None), w') \<and> up w'"
proof -
  have name: "Name nsc = n" "ckey nsc = ('''', n)" using stored_name [OF stored] by auto
  from nscu.get_up [OF assms(1) stored] obtain w1 where g: "Get (nsc_client cl) '''' n w = (Inr nsc, w1)" "up w1" by blast
  from scu.list_up [OF g(2)] obtain scList w2 where l: "List (sc_client cl) [] w1 = (Inr scList, w2)" "up w2" by blast
  have v2: "view w1 = view w" "view w2 = view w" using nsc.get_view [OF g(1)] sc.list_view [OF l(1)] by simp_all
  have "findStorageClass scList (Name nsc) = scs (view w2) (ckey nsc)" using sc_list_find [OF l(1), of n] v2 name by simp
  from run_deleting_up [OF l(2) _ del fin ns this, of ed "StorageClassLabelIgnoredPrefixes cfg"] stored old obtain nsc' w4 where
    "RunEventReconcile L ed cl scList (ControllerNamespace cfg) (StorageClassLabelIgnoredPrefixes cfg) nsc w2 =
      Some (((False, None), nsc'), w4)" "up w4"
    by (simp add: name v2) blast
  with g(1) l(1) n show ?thesis
    by (simp add: Reconcile_def reconcileRequest_def name validate_deleting [OF del])
qed

end

text \<open>What \<open>disposable\<close> excludes does fail: a StorageClass that is being deleted and waits for the controller's finalizer only is gone once that is
  removed, so the deletion that follows finds nothing, and the request ends in an error or a requeue. The next one finds the class gone.\<close>

context reconciler
begin

lemma delete_terminating_fails:
  assumes "deleteStorageClass cl sc w = (e, w')" and st: "scs (view w) (ckey sc) = Some sc" and "own_sc sc"
    and "DeletionTimestamp sc \<noteq> None" and "fins sc = [FIN]"
  shows "e \<noteq> None"
proof
  assume "e = None"
  obtain rm e1 x w1 where r: "removeFinalizerIfExists (Update (sc_client cl)) sc FIN w = (((rm, e1), x), w1)" by (metis surj_pair)
  with assms(1,3) \<open>e = None\<close> have e1: "e1 = None" and d: "Delete (sc_client cl) x w1 = (None, w')"
    by (auto simp: deleteStorageClass_def allowed_own split: option.splits)
  have "ckey x = ckey sc" using sc.remove_finalizer_frame [OF r] by blast
  from r have "Update (sc_client cl) (sc\<lparr>Finalizers := Some (remove1 FIN (fins sc))\<rparr>) w = ((None, x), w1)"
    by (cases rule: remove_finalizer_cases) (use assms(5) e1 in simp_all)
  from sc.update_finalizers [OF this st] assms(4,5) have "scs (view w1) (ckey sc) = None" by simp
  moreover from sc.delete_ok [OF d] obtain old where "scs (view w1) (ckey x) = Some old" by blast
  ultimately show False using \<open>ckey x = ckey sc\<close> by simp
qed

lemma deletion_of_terminating_fails:
  assumes "Reconcile L ed cl cfg ('''', n) w = Some (r, w')" and stored: "nscs (view w) ('''', n) = Some nsc"
    and "n \<noteq> ''''" and del: "DeletionTimestamp nsc \<noteq> None" and i: "RequeueStorageClassInterval cfg > 0"
    and sc: "scs (view w) ('''', n) = Some sc" "own_sc sc" "DeletionTimestamp sc \<noteq> None" "fins sc = [FIN]"
  shows "r \<noteq> (emptyResult, None)"
proof
  assume "r = (emptyResult, None)"
  with assms(1) have r: "Reconcile L ed cl cfg ('''', n) w = Some ((emptyResult, None), w')" by simp
  obtain w0 scList nsc' where v: "view w0 = view w" "findStorageClass scList n = scs (view w) ('''', n)"
    and run: "RunEventReconcile L ed cl scList (ControllerNamespace cfg) (StorageClassLabelIgnoredPrefixes cfg) nsc w0 =
      Some (((False, None), nsc'), w')"
    by (rule reconcile_ok [OF r stored assms(3) i])
  from run show False
  proof (rule run_success)
    fix n1 w1 n2 w2
    assume s1: "finalizerStage cl nsc w0 = Some (((False, None), n1), w1)"
      and s2: "scStage L ed cl scList (ControllerNamespace cfg) (StorageClassLabelIgnoredPrefixes cfg) n1 w1 = Some (((False, None), n2), w2)"
    have name: "Name nsc = n" "ckey nsc = ('''', n)" using stored_name [OF stored] by auto
    with stored v have "nscs (view w0) (ckey nsc) = Some nsc" by simp
    from finalizer_stage_ok [OF s1 this] have a: "alike nsc n1" and v1: "scs (view w1) = scs (view w)" by (auto simp: v)
    have k: "DeletionTimestamp n1 \<noteq> None" "findStorageClass scList (Name n1) = Some sc"
      using a del v sc(1) name by (simp_all add: alike_def)
    have key: "ckey sc = ('''', n)" using sc.keyed [OF sc(1)] .
    from s2 have "reconcileStorageClassDeleteFunc cl (Some sc) n1 w1 = (((False, None), n2), w2)"
      by (simp add: scStage_def identify_sc_deleted [OF k(1)] k(2) reconcile_type_defs)
    then obtain w3 where "deleteStorageClass cl sc w1 = (None, w3)"
      using sc(2) by (auto simp: reconcileStorageClassDeleteFunc_def allowed_own Let_def dest: failWith_result split: prod.splits option.splits)
    from delete_terminating_fails [OF this _ sc(2-4)] sc(1) v1 show False by (simp add: key)
  qed
qed

end

section \<open>Properties\<close>

text \<open>Success of a request. While the API server is up, the reconciler finishes a request for an NFSStorageClass without error
  and without a requeue, provided the class is admissible under the ModuleConfig and what already bears the names of its objects can be adopted
  (a StorageClass of this driver that nobody else holds, a Secret with no label but the managed one, nothing that is being deleted);
  the StorageClass, the Secret and the VolumeSnapshotClass are then as the class demands.\<close>

lemma reconcile_succeeds:
  assumes "serving cl view L up" and "up w"
    and "nscs (view w) ('''', n) = Some nsc" and "n \<noteq> ''''" and "DeletionTimestamp nsc = None"
    and "Connection (Spec nsc) = Some c" and "NFSVersion c \<noteq> ''''"
    and "ControllerNamespace cfg \<noteq> ''''" and "RequeueStorageClassInterval cfg > 0"
    and "mcs (view w) ('''', CsiNfsModuleName cfg) = Some mc" and "settings_typed mc" and "admissible ed mc c"
    and "\<And>sc. scs (view w) ('''', n) = Some sc \<Longrightarrow> sc_adoptable sc"
    and "\<And>s. secrets (view w) (ControllerNamespace cfg, SecretForMountOptionsPrefix @ n) = Some s \<Longrightarrow> secret_adoptable s"
    and "\<And>v. vscs (view w) ('''', n) = Some v \<Longrightarrow> DeletionTimestamp v = None"
  shows "\<exists>w' sc s v. Reconcile L ed cl cfg ('''', n) w = Some ((emptyResult, None), w') \<and> up w' \<and>
    scs (view w') ('''', n) = Some sc \<and> sc_realises ed nsc (ControllerNamespace cfg) (StorageClassLabelIgnoredPrefixes cfg) sc \<and>
    secrets (view w') (ControllerNamespace cfg, SecretForMountOptionsPrefix @ n) = Some s \<and>
    secret_realises ed nsc (ControllerNamespace cfg) s \<and>
    vscs (view w') ('''', n) = Some v \<and> vsc_realises ed nsc (ControllerNamespace cfg) v"
proof -
  obtain w' where w': "Reconcile L ed cl cfg ('''', n) w = Some ((emptyResult, None), w')" "up w'"
    using serving.reconcile_up [OF assms(1-8,10-15)] by blast
  with reconciler.reconcile_live [OF serving.axioms(1) [OF assms(1)] assms(3-9) w'(1)] show ?thesis by fastforce
qed

text \<open>C4: Success of a deletion. While the API server is up, the reconciler finishes a request for an NFSStorageClass that is being deleted and
  still has the controller's finalizer, provided that none of the objects to delete vanishes with the removal of that finalizer;
  if nobody else holds the NFSStorageClass, it is gone then.\<close>

theorem deletion_succeeds:
  assumes "serving cl view L up" and "up w"
    and "nscs (view w) ('''', n) = Some nsc" and "n \<noteq> ''''" and "DeletionTimestamp nsc \<noteq> None"
    and "FIN \<in> set (fins nsc)" and "ControllerNamespace cfg \<noteq> ''''" and "RequeueStorageClassInterval cfg > 0"
    and "\<And>sc. scs (view w) ('''', n) = Some sc \<Longrightarrow> own_sc sc \<Longrightarrow> disposable sc"
    and "\<And>s. secrets (view w) (ControllerNamespace cfg, SecretForMountOptionsPrefix @ n) = Some s \<Longrightarrow> disposable s"
    and "\<And>v. vscs (view w) ('''', n) = Some v \<Longrightarrow> own_vsc v \<Longrightarrow> disposable v"
  shows "\<exists>w'. Reconcile L ed cl cfg ('''', n) w = Some ((emptyResult, None), w') \<and> up w' \<and>
    (remove1 FIN (fins nsc) = [] \<longrightarrow> nscs (view w') ('''', n) = None)"
proof -
  note env = serving.axioms(1) [OF assms(1)]
  obtain w' where r: "Reconcile L ed cl cfg ('''', n) w = Some ((emptyResult, None), w')" and u: "up w'"
    using serving.reconcile_deleting_up [OF assms(1-7,9-11)] by blast
  obtain w2 scList nsc' where v: "view w2 = view w" "findStorageClass scList n = scs (view w) ('''', n)"
    and run: "RunEventReconcile L ed cl scList (ControllerNamespace cfg) (StorageClassLabelIgnoredPrefixes cfg) nsc w2 =
      Some (((False, None), nsc'), w')"
    by (rule reconciler.reconcile_ok [OF env r assms(3,4,8)])
  from reconciler.run_deleting [OF env run assms(5) _ assms(7)] v assms(3) reconciler.stored_name [OF env assms(3)]
  have "remove1 FIN (fins nsc) = [] \<longrightarrow> nscs (view w') ('''', n) = None" by (auto simp: dismissed_def)
  with r u show ?thesis by blast
qed

theorem deletion_succeeds_witness:
  "\<exists>w'. Reconcile std_lib EE mem_client sample_cfg ('''', ''nfs'') (leaving_world NFSStorageClassProvisioner) = Some ((emptyResult, None), w') \<and>
     nscs (mem_view w') ('''', ''nfs'') = None"
proof -
  let ?w = "leaving_world NFSStorageClassProvisioner"
  have "DeletionTimestamp (sample_sc NFSStorageClassProvisioner) = None" "DeletionTimestamp sample_vsc = None" by code_simp+
  then have d: "scs (mem_view ?w) k = Some sc \<Longrightarrow> disposable sc" "vscs (mem_view ?w) k = Some v \<Longrightarrow> disposable v"
    "secrets (mem_view ?w) k = Some s \<Longrightarrow> disposable s" for k sc v s
    by (auto simp: disposable_def mem_view_def leaving_world_def mem_empty_def stored_def wire_sc_def wire_vsclass_def wire_secret_def
        sample_secret_def split: if_splits)
  have "mem_up ?w" by (simp add: mem_up_def leaving_world_def mem_empty_def)
  from deletion_succeeds [OF memory_serving.serving_axioms this leaving_world_stored, of sample_cfg EE] d show ?thesis
    by (auto simp: leaving_nsc_def fins_def)
qed

text \<open>C5: Idempotence. A second successful request for the same NFSStorageClass leaves the StorageClass and the VolumeSnapshotClass exactly as
  the first one left them; it writes the Secret again, with the same data, and the status of the NFSStorageClass, and nothing else.\<close>

theorem reconcile_idempotent:
  assumes "reconciler cl view L"
    and "nscs (view w) ('''', n) = Some nsc" and "n \<noteq> ''''" and "DeletionTimestamp nsc = None"
    and "Connection (Spec nsc) = Some c" and "NFSVersion c \<noteq> ''''"
    and "ControllerNamespace cfg \<noteq> ''''" and "RequeueStorageClassInterval cfg > 0"
    and "Reconcile L ed cl cfg ('''', n) w = Some ((emptyResult, None), w1)"
    and "Reconcile L ed cl cfg ('''', n) w1 = Some ((emptyResult, None), w2)"
  shows "\<exists>n2 s1 s2. secrets (view w1) (ControllerNamespace cfg, SecretForMountOptionsPrefix @ n) = Some s1 \<and>
    Data s2 = Data s1 \<and> Labels s2 = Labels s1 \<and> nsc_settled nsc n2 \<and>
    view w2 = (view w1)\<lparr>
      nscs := (nscs (view w1))(('''', n) \<mapsto> n2),
      secrets := (secrets (view w1))((ControllerNamespace cfg, SecretForMountOptionsPrefix @ n) \<mapsto> s2)\<rparr>"
proof -
  let ?ns = "ControllerNamespace cfg" and ?ps = "StorageClassLabelIgnoredPrefixes cfg"
  from reconciler.reconcile_live [OF assms(1-9)] obtain n1 sc s v where
    n1: "nsc_settled nsc n1" and sc: "sc_realises ed nsc ?ns ?ps sc" and s: "secret_realises ed nsc ?ns s"
    and v: "vsc_realises ed nsc ?ns v" and v1: "view w1 = (view w)\<lparr>
      nscs := (nscs (view w))(('''', n) \<mapsto> n1), scs := (scs (view w))(('''', n) \<mapsto> sc),
      secrets := (secrets (view w))((?ns, SecretForMountOptionsPrefix @ n) \<mapsto> s),
      vscs := (vscs (view w))(('''', n) \<mapsto> v)\<rparr>"
    by blast
  have st: "nscs (view w1) ('''', n) = Some n1" "scs (view w1) ('''', n) = Some sc" "vscs (view w1) ('''', n) = Some v"
    by (simp_all add: v1)
  have l: "DeletionTimestamp n1 = None" "Connection (Spec n1) = Some c"
    using n1 assms(5) by (simp_all add: nsc_settled_def)
  note same = alike_realises [OF settled_alike [OF n1 assms(4)]]
  have keep: "scs (view w2) = scs (view w1) \<and> vscs (view w2) = vscs (view w1)"
    using reconciler.reconcile_stable [OF assms(1) st(1) assms(3) l assms(7,8) st(2) _ st(3) _ assms(10)] sc v by (simp add: same)
  from reconciler.reconcile_live [OF assms(1) st(1) assms(3) l assms(6-8,10)] obtain n2 sc' s2 v' where
    n2: "nsc_settled n1 n2" and s2: "secret_realises ed n1 ?ns s2" and v2: "view w2 = (view w1)\<lparr>
      nscs := (nscs (view w1))(('''', n) \<mapsto> n2), scs := (scs (view w1))(('''', n) \<mapsto> sc'),
      secrets := (secrets (view w1))((?ns, SecretForMountOptionsPrefix @ n) \<mapsto> s2),
      vscs := (vscs (view w1))(('''', n) \<mapsto> v')\<rparr>"
    by blast
  have "view w2 = (view w1)\<lparr>nscs := (nscs (view w1))(('''', n) \<mapsto> n2),
      secrets := (secrets (view w1))((?ns, SecretForMountOptionsPrefix @ n) \<mapsto> s2)\<rparr>"
    using keep v2 by simp
  moreover have "secrets (view w1) (?ns, SecretForMountOptionsPrefix @ n) = Some s" by (simp add: v1)
  moreover have "Data s2 = Data s" "Labels s2 = Labels s" using s s2 by (simp_all add: same secret_realises_def)
  ultimately show ?thesis using settled_trans [OF n1 n2] by blast
qed

theorem reconcile_idempotent_witness:
  "\<exists>w1 w2. Reconcile std_lib EE mem_client sample_cfg ('''', ''nfs'') sample_world = Some ((emptyResult, None), w1) \<and>
     Reconcile std_lib EE mem_client sample_cfg ('''', ''nfs'') w1 = Some ((emptyResult, None), w2) \<and>
     scs (mem_view w2) = scs (mem_view w1)"
proof -
  define run where "run = Reconcile std_lib EE mem_client sample_cfg ('''', ''nfs'')"
  have "map_option fst (Option.bind (run sample_world) (\<lambda>(r, w). run w)) = Some (emptyResult, None)"
    and "map_option fst (run sample_world) = Some (emptyResult, None)"
    unfolding run_def by code_simp+
  then obtain w1 w2 where w: "run sample_world = Some ((emptyResult, None), w1)" "run w1 = Some ((emptyResult, None), w2)"
    by (auto simp: bind_eq_Some_conv)
  with reconcile_idempotent [OF memory.reconciler_axioms sample_world_stored(1) _ _ _ _ _ _ w [unfolded run_def], of sample_connection]
  show ?thesis by (auto simp: run_def sample_defs)
qed

end
