(* ===== verification/Event_Recovery.thy ===== *)
theory Event_Recovery
  imports Event_Success
begin

text \<open>
  Recovery of the NFSStorageClass controller. A write to the API server that fails may have been carried out all the same: the answer was lost.
  The locale \<open>atomic_kind\<close> says just that, a write has its whole effect or none, whatever its answer; a controller that dies in the
  middle of a request is the case in which every later call fails without an effect. However many attempts end so, at whichever call, what they leave
  behind is something the next attempt can finish from.
\<close>

section \<open>Writes that may be lost\<close>

locale atomic_kind =
  fixes api :: "('w, 'm ObjectMeta_scheme) kind_client"
    and view :: "'w \<Rightarrow> cluster"
    and sel :: "cluster \<Rightarrow> 'm ObjectMeta_scheme store"
    and upd :: "('m ObjectMeta_scheme store \<Rightarrow> 'm ObjectMeta_scheme store) \<Rightarrow> cluster \<Rightarrow> cluster"
    and key :: "'m ObjectMeta_scheme \<Rightarrow> key"
    and wire :: "'m ObjectMeta_scheme \<Rightarrow> 'm ObjectMeta_scheme"
  assumes create_atomic: "Create api x w = (r, w') \<Longrightarrow> view w' = view w \<or>
      (\<exists>y. same_object (wire x) y \<and> DeletionTimestamp y = None \<and> view w' = upd (\<lambda>s. s(key x := Some y)) (view w))"
    and update_atomic: "Update api x w = (r, w') \<Longrightarrow> view w' = view w \<or>
      (\<exists>old y. sel (view w) (key x) = Some old \<and> same_object (wire x) y \<and> DeletionTimestamp y = DeletionTimestamp old \<and>
        view w' = upd (\<lambda>s. s(key x := (if DeletionTimestamp old \<noteq> None \<and> fins y = [] then None else Some y))) (view w))"
    and delete_atomic: "Delete api x w = (d, w') \<Longrightarrow> view w' = view w \<or>
      (\<exists>old. sel (view w) (key x) = Some old \<and>
        (if fins old = [] then view w' = upd (\<lambda>s. s(key x := None)) (view w)
         else \<exists>y. same_object old y \<and> DeletionTimestamp y \<noteq> None \<and> view w' = upd (\<lambda>s. s(key x := Some y)) (view w)))"

locale atomic_api = reconciler cl view L
  for cl :: "'w client" and view :: "'w \<Rightarrow> cluster" and L :: lib +
  assumes nsc_atomic: "atomic_kind (nsc_client cl) view nscs nscs_update ckey wire_meta"
    and sc_atomic: "atomic_kind (sc_client cl) view scs scs_update ckey wire_sc"
    and secret_atomic: "atomic_kind (secret_client cl) view secrets secrets_update nkey wire_secret"
    and vsc_atomic: "atomic_kind (vsc_client cl) view vscs vscs_update ckey wire_vsclass"
    and status_atomic: "StatusUpdate (nsc_client cl) x w = (r, w') \<Longrightarrow> view w' = view w \<or>
      (\<exists>old y. nscs (view w) (ckey x) = Some old \<and> same_object (old\<lparr>Status := Status x\<rparr>) y \<and>
        DeletionTimestamp y = DeletionTimestamp old \<and> view w' = nscs_update (\<lambda>s. s(ckey x := Some y)) (view w))"

sublocale atomic_api \<subseteq> nsca: atomic_kind "nsc_client cl" view nscs nscs_update ckey wire_meta by (rule nsc_atomic)
sublocale atomic_api \<subseteq> sca: atomic_kind "sc_client cl" view scs scs_update ckey wire_sc by (rule sc_atomic)
sublocale atomic_api \<subseteq> secreta: atomic_kind "secret_client cl" view secrets secrets_update nkey wire_secret by (rule secret_atomic)
sublocale atomic_api \<subseteq> vsca: atomic_kind "vsc_client cl" view vscs vscs_update ckey wire_vsclass by (rule vsc_atomic)

text \<open>The server in memory never carries out a write it reports as failed.\<close>

context mem_kind_setting
begin

lemma mem_atomic: "atomic_kind (mem_kind kind rd wr key wire) mem_view sel upd key wire"
proof
  fix x w r w'
  assume "Create (mem_kind kind rd wr key wire) x w = (r, w')"
  then obtain e x' where "mem_create kind rd wr key wire x w = ((e, x'), w')" by (cases r) (simp add: mem_kind_def)
  then show "mem_view w' = mem_view w \<or> (\<exists>y. same_object (wire x) y \<and> DeletionTimestamp y = None \<and>
      mem_view w' = upd (\<lambda>s. s(key x := Some y)) (mem_view w))"
  proof (rule create_result)
    assume "key x' = key x" "wire x' = x'" "same_object (wire x) x'" "DeletionTimestamp x' = None"
      "w' = tick (wr (set_at key (key x) (Some x')) w)"
    with view_set [of "Some x'" "key x" w] show ?thesis by auto
  qed simp
next
  fix x w r w'
  assume "Update (mem_kind kind rd wr key wire) x w = (r, w')"
  then obtain e x' where "mem_update kind rd wr key wire x w = ((e, x'), w')" by (cases r) (simp add: mem_kind_def)
  then show "mem_view w' = mem_view w \<or> (\<exists>old y. sel (mem_view w) (key x) = Some old \<and> same_object (wire x) y \<and>
      DeletionTimestamp y = DeletionTimestamp old \<and>
      mem_view w' = upd (\<lambda>s. s(key x := (if DeletionTimestamp old \<noteq> None \<and> fins y = [] then None else Some y))) (mem_view w))"
  proof (rule update_result)
    fix old
    assume a: "stored key wire (rd w) (key x) = Some old" "key x' = key x" "wire x' = x'" "same_object (wire x) x'"
      "DeletionTimestamp x' = DeletionTimestamp old"
      "w' = tick (wr (set_at key (key x) (if DeletionTimestamp old \<noteq> None \<and> fins x' = [] then None else Some x')) w)"
    have "mem_view w' = upd (\<lambda>s. s(key x := (if DeletionTimestamp old \<noteq> None \<and> fins x' = [] then None else Some x'))) (mem_view w)"
      unfolding a(6) by (rule view_set) (use a(2,3) in \<open>auto split: if_splits\<close>)
    with a show ?thesis by (auto simp: sel_view)
  qed simp
next
  fix x w d w'
  assume "Delete (mem_kind kind rd wr key wire) x w = (d, w')"
  then have "mem_delete kind rd wr key wire x w = (d, w')" by (simp add: mem_kind_def)
  then show "mem_view w' = mem_view w \<or> (\<exists>old. sel (mem_view w) (key x) = Some old \<and>
      (if fins old = [] then mem_view w' = upd (\<lambda>s. s(key x := None)) (mem_view w)
       else \<exists>y. same_object old y \<and> DeletionTimestamp y \<noteq> None \<and> mem_view w' = upd (\<lambda>s. s(key x := Some y)) (mem_view w)))"
  proof (rule delete_result)
    fix old v
    assume a: "stored key wire (rd w) (key x) = Some old"
      "v = (if fins old = [] then None else Some (old\<lparr>DeletionTimestamp := Some (int (m_clock w))\<rparr>))"
      "\<And>y. v = Some y \<Longrightarrow> key y = key x \<and> wire y = y" "w' = tick (wr (set_at key (key x) v) w)"
    have v: "mem_view w' = upd (\<lambda>s. s(key x := v)) (mem_view w)" unfolding a(4) by (rule view_set) (rule a(3))
    have "same_object old (old\<lparr>DeletionTimestamp := Some (int (m_clock w))\<rparr>)" by (simp add: same_object_def)
    with a(1,2) v show ?thesis by (auto simp: sel_view intro!: exI [of _ "old\<lparr>DeletionTimestamp := Some (int (m_clock w))\<rparr>"])
  qed simp
qed

end

lemma atomic_status: "atomic_kind api v sel upd key wire \<Longrightarrow> atomic_kind (api\<lparr>StatusUpdate := f\<rparr>) v sel upd key wire"
  by (simp add: atomic_kind_def)

interpretation memory_atomic: atomic_api mem_client mem_view std_lib
proof (intro atomic_api.intro atomic_api_axioms.intro)
  show "atomic_kind (nsc_client mem_client) mem_view nscs nscs_update ckey wire_meta"
    using atomic_status [OF mem_nsc.mem_atomic] by (simp add: mem_client_def)
  show "atomic_kind (sc_client mem_client) mem_view scs scs_update ckey wire_sc"
    using mem_sc.mem_atomic by (simp add: mem_client_def)
  show "atomic_kind (secret_client mem_client) mem_view secrets secrets_update nkey wire_secret"
    using mem_secret.mem_atomic by (simp add: mem_client_def)
  show "atomic_kind (vsc_client mem_client) mem_view vscs vscs_update ckey wire_vsclass"
    using mem_vsc.mem_atomic by (simp add: mem_client_def)
next
  fix x w r w'
  assume "StatusUpdate (nsc_client mem_client) x w = (r, w')"
  then obtain e x' where "mem_status x w = ((e, x'), w')" by (cases r) (simp add: mem_client_def)
  then show "mem_view w' = mem_view w \<or> (\<exists>old y. nscs (mem_view w) (ckey x) = Some old \<and>
      same_object (old\<lparr>Status := Status x\<rparr>) y \<and> DeletionTimestamp y = DeletionTimestamp old \<and>
      mem_view w' = nscs_update (\<lambda>s. s(ckey x := Some y)) (mem_view w))"
    by (rule status_result) auto
qed unfold_locales

section \<open>What every attempt leaves behind\<close>

text \<open>The NFSStorageClass is still what the request is about, the ModuleConfig is the same, and the objects that bear its names can be
  brought in line.\<close>

definition recoverable :: "string \<Rightarrow> string \<Rightarrow> NFSStorageClass \<Rightarrow> ModuleConfig \<Rightarrow> cluster \<Rightarrow> bool" where
  "recoverable ns m nsc mc c \<longleftrightarrow> (\<exists>x. nscs c (ckey nsc) = Some x \<and> alike nsc x) \<and> mcs c ('''', m) = Some mc \<and>
     (\<forall>sc. scs c (ckey nsc) = Some sc \<longrightarrow> sc_adoptable sc) \<and>
     (\<forall>s. secrets c (ns, secret_name nsc) = Some s \<longrightarrow> secret_adoptable s) \<and>
     (\<forall>v. vscs c (ckey nsc) = Some v \<longrightarrow> DeletionTimestamp v = None)"

lemma recoverable_upd:
  assumes "recoverable ns m nsc mc c"
  shows "alike nsc x \<Longrightarrow> recoverable ns m nsc mc (nscs_update (\<lambda>s. s(ckey nsc := Some x)) c)"
    and "(\<And>y. b = Some y \<Longrightarrow> sc_adoptable y) \<Longrightarrow> recoverable ns m nsc mc (scs_update (\<lambda>s. s(ckey nsc := b)) c)"
    and "secret_adoptable s \<Longrightarrow> recoverable ns m nsc mc (secrets_update (\<lambda>k. k((ns, secret_name nsc) := Some s)) c)"
    and "DeletionTimestamp v = None \<Longrightarrow> recoverable ns m nsc mc (vscs_update (\<lambda>s. s(ckey nsc := Some v)) c)"
  using assms by (auto simp: recoverable_def)

lemma alike_trans: "alike a b \<Longrightarrow> alike b c \<Longrightarrow> alike a c"
  by (simp add: alike_def)

lemma alike_names: "alike a b \<Longrightarrow> ckey b = ckey a" "alike a b \<Longrightarrow> secret_name b = secret_name a" "alike a b \<Longrightarrow> Name b = Name a"
  by (simp_all add: alike_def ckey_def)

text \<open>A StorageClass the controller wrote is one it can adopt.\<close>

lemma written_sc_adoptable:
  assumes "same_object (wire_sc x) y" and "own_sc x" and "Finalizers x = Some fs" and "fs \<in> {[], [FIN]}"
    and "DeletionTimestamp y = None"
  shows "sc_adoptable y"
proof -
  have "fins (wire_sc x) = fs" using assms(3) by (auto simp: wire_sc_def wire_meta_def fins_def omit_slice_def slice_def)
  moreover have "Provisioner (wire_sc x) = Provisioner x" by (simp add: wire_sc_def wire_meta_def)
  ultimately show ?thesis
    using assms same_object_meta(6) [OF assms(1)] same_sc_fields(1) [OF assms(1)] by (auto simp: sc_adoptable_def own_sc_def)
qed

context atomic_api
begin

lemma status_recoverable:
  assumes "updateNFSStorageClassPhase cl x ph reason w = (r, w')" and "ckey x = ckey nsc" and "recoverable ns m nsc mc (view w)"
  shows "recoverable ns m nsc mc (view w')"
proof -
  obtain st where u: "StatusUpdate (nsc_client cl) (x\<lparr>Status := st\<rparr>) w = (r, w')"
    using assms(1) by (auto simp: updateNFSStorageClassPhase_def Let_def)
  have k: "ckey (x\<lparr>Status := st\<rparr>) = ckey nsc" using assms(2) by (simp add: ckey_def)
  from status_atomic [OF u] show ?thesis
  proof
    assume "\<exists>old y. nscs (view w) (ckey (x\<lparr>Status := st\<rparr>)) = Some old \<and> same_object (old\<lparr>Status := Status (x\<lparr>Status := st\<rparr>)\<rparr>) y \<and>
        DeletionTimestamp y = DeletionTimestamp old \<and> view w' = nscs_update (\<lambda>s. s(ckey (x\<lparr>Status := st\<rparr>) := Some y)) (view w)"
    then obtain old y where old: "nscs (view w) (ckey nsc) = Some old" and y: "same_object (old\<lparr>Status := st\<rparr>) y"
      "DeletionTimestamp y = DeletionTimestamp old" and v: "view w' = nscs_update (\<lambda>s. s(ckey nsc := Some y)) (view w)"
      unfolding k by auto
    have "Spec y = Spec old" using y(1) by (auto elim!: same_object_fields)
    with y(2) same_object_meta [OF y(1)] have "alike old y" by (simp add: alike_def)
    moreover have "alike nsc old" using assms(3) old by (simp add: recoverable_def)
    ultimately show ?thesis unfolding v using recoverable_upd(1) [OF assms(3)] alike_trans by blast
  qed (simp add: assms(3))
qed

lemma settled_recoverable:
  assumes "settled cl x e w1 ((r, x'), w')" and "ckey x = ckey nsc" and "recoverable ns m nsc mc (view w1)"
  shows "recoverable ns m nsc mc (view w')"
proof (cases e)
  case None
  with assms show ?thesis by simp
next
  case (Some err)
  with assms(1) obtain tag err' reason where "failWith cl tag x err' reason w1 = ((r, x'), w')" by (auto simp: settled_def)
  then obtain u where "updateNFSStorageClassPhase cl x FailedStatusPhase reason w1 = (u, w')"
    by (auto simp: failWith_def Let_def split: prod.splits option.splits)
  with assms(2,3) show ?thesis using status_recoverable by blast
qed

lemma create_sc_recoverable:
  assumes "Create (sc_client cl) new w = (r, w')" and "ckey new = ckey nsc" and "own_sc new" and "Finalizers new = Some [FIN]"
    and "recoverable ns m nsc mc (view w)"
  shows "recoverable ns m nsc mc (view w')"
proof -
  have "sc_adoptable y" if "same_object (wire_sc new) y" "DeletionTimestamp y = None" for y
    using that assms(3,4) by (intro written_sc_adoptable) auto
  then have "recoverable ns m nsc mc (scs_update (\<lambda>s. s(ckey nsc := Some y)) (view w))"
    if "same_object (wire_sc new) y" "DeletionTimestamp y = None" for y
    using that by (intro recoverable_upd(2) [OF assms(5)]) simp
  then show ?thesis
    using sca.create_atomic [OF assms(1)] assms(5) unfolding assms(2) by metis
qed

lemma update_sc_recoverable:
  assumes "Update (sc_client cl) new w = (r, w')" and "ckey new = ckey nsc" and "own_sc new"
    and "Finalizers new = Some fs" "fs \<in> {[], [FIN]}" and "recoverable ns m nsc mc (view w)"
  shows "recoverable ns m nsc mc (view w')"
proof -
  have "sc_adoptable y" if "same_object (wire_sc new) y" "DeletionTimestamp y = None" for y
    using that assms(3-5) by (intro written_sc_adoptable) auto
  then have put: "recoverable ns m nsc mc (scs_update (\<lambda>s. s(ckey nsc := Some y)) (view w))"
    if "same_object (wire_sc new) y" "DeletionTimestamp y = None" for y
    using that by (intro recoverable_upd(2) [OF assms(6)]) simp
  have live: "DeletionTimestamp old = None" if "scs (view w) (ckey nsc) = Some old" for old
    using that assms(6) by (simp add: recoverable_def sc_adoptable_def)
  from sca.update_atomic [OF assms(1), unfolded assms(2)] show ?thesis
    using put live assms(6) by (elim disjE exE conjE) simp_all
qed

lemma delete_sc_recoverable:
  assumes "deleteStorageClass cl sc w = (e, w')" and st: "scs (view w) (ckey sc) = Some sc" and k: "ckey sc = ckey nsc"
    and rec: "recoverable ns m nsc mc (view w)"
  shows "recoverable ns m nsc mc (view w')"
proof -
  from rec st k have a: "sc_adoptable sc" by (auto simp: recoverable_def)
  obtain rm e1 x w1 where r: "removeFinalizerIfExists (Update (sc_client cl)) sc FIN w = (((rm, e1), x), w1)" by (metis surj_pair)
  have kx: "ckey x = ckey nsc" using sc.remove_finalizer_frame [OF r] k by simp
  have r1: "recoverable ns m nsc mc (view w1) \<and> (e1 = None \<longrightarrow> (\<forall>old. scs (view w1) (ckey nsc) = Some old \<longrightarrow> fins old = []))"
    using r
  proof (cases rule: remove_finalizer_cases)
    case absent
    with a st k rec show ?thesis by (auto simp: sc_adoptable_def remove1_idem)
  next
    case present
    let ?x = "sc\<lparr>Finalizers := Some (remove1 FIN (fins sc))\<rparr>"
    have "ckey ?x = ckey nsc" "own_sc ?x" "Finalizers ?x = Some []" using a k by (simp_all add: ckey_def own_sc_def sc_adoptable_def)
    from update_sc_recoverable [OF present(2) this _ rec] have "recoverable ns m nsc mc (view w1)" by simp
    moreover have "fins old = []" if "e1 = None" "scs (view w1) (ckey nsc) = Some old" for old
      using sc.update_finalizers [OF present(2) [unfolded that(1)] st] that(2) a k by (auto simp: sc_adoptable_def split: if_splits)
    ultimately show ?thesis by blast
  qed
  show ?thesis
  proof (cases e1)
    case (Some err)
    with assms(1) r a have "w' = w1" by (auto simp: deleteStorageClass_def sc_adoptable_def allowed_own)
    with r1 show ?thesis by simp
  next
    case None
    with assms(1) r a have d: "Delete (sc_client cl) x w1 = (e, w')" by (auto simp: deleteStorageClass_def sc_adoptable_def allowed_own)
    have gone: "recoverable ns m nsc mc (scs_update (\<lambda>s. s(ckey nsc := None)) (view w1))"
      using r1 by (intro recoverable_upd(2)) simp_all
    from sca.delete_atomic [OF d, unfolded kx] show ?thesis
      using r1 None gone by (elim disjE exE conjE) simp_all
  qed
qed

lemma sc_stage_recoverable:
  assumes st: "scStage L ed cl scList ns' ps x w = Some ((r, x'), w')" and a: "alike nsc x" and live: "DeletionTimestamp nsc = None"
    and c: "Connection (Spec nsc) \<noteq> None" and list: "findStorageClass scList (Name nsc) = scs (view w) (ckey nsc)"
    and rec: "recoverable ns m nsc mc (view w)"
  shows "recoverable ns m nsc mc (view w')"
proof -
  have k: "ckey x = ckey nsc" "Name x = Name nsc" "DeletionTimestamp x = None" "Connection (Spec x) \<noteq> None"
    using a live c alike_names [OF a] by (simp_all add: alike_def)
  obtain new where new: "ConfigureStorageClass L ed (findStorageClass scList (Name x)) x ns' ps = Some new"
    using k(4) ConfigureStorageClass_panic [of L ed "findStorageClass scList (Name x)" x ns' ps] by auto
  note f = ConfigureStorageClass_fields [OF new]
  have n: "ckey new = ckey nsc" "own_sc new" using f(1,5) k by (simp_all add: ckey_def own_sc_def)
  note fin = f(3)
  show ?thesis
  proof (cases "scs (view w) (ckey nsc)")
    case None
    with new list k have "IdentifyReconcileFuncForStorageClass L ed scList x ns' ps = Some (CreateReconcile, None, Some new)"
      using identify_sc_absent [of scList x L ed ns' ps] by simp
    with st have s: "reconcileStorageClassCreateFunc cl new x w = ((r, x'), w')" by (simp add: scStage_def)
    obtain e y w1 where cr: "Create (sc_client cl) new w = ((e, y), w1)" and t: "settled cl x e w1 ((r, x'), w')"
      using sc_create_shape [of cl new w x] s by metis
    show ?thesis by (rule settled_recoverable [OF t k(1) create_sc_recoverable [OF cr n fin rec]])
  next
    case (Some sc)
    have old: "findStorageClass scList (Name x) = Some sc" using list Some k by simp
    have key: "ckey sc = ckey nsc" using sc.keyed [OF Some] .
    then have st_sc: "scs (view w) (ckey sc) = Some sc" using Some by (simp only:)
    have id: "IdentifyReconcileFuncForStorageClass L ed scList x ns' ps = Some
      (if sc_in_sync sc new then '''' else if sc_immutable_differ sc new then RecreateReconcile else UpdateReconcile,
       Some sc, Some new)"
      using identify_sc_exists [OF old k(3)] new old by simp
    consider "sc_in_sync sc new" | "\<not> sc_in_sync sc new" "sc_immutable_differ sc new"
      | "\<not> sc_in_sync sc new" "\<not> sc_immutable_differ sc new" by blast
    then show ?thesis
    proof cases
      case 1
      with st id rec show ?thesis by (simp add: scStage_def reconcile_type_defs)
    next
      case 2
      with st id have s: "reconcileStorageClassRecreateFunc cl sc new x w = ((r, x'), w')" by (simp add: scStage_def reconcile_type_defs)
      obtain e w1 where re: "recreateStorageClass cl sc new w = (e, w1)" and t: "settled cl x e w1 ((r, x'), w')"
        using sc_recreate_shape [of cl sc new w x] s by metis
      obtain d w2 where d: "deleteStorageClass cl sc w = (d, w2)" by fastforce
      note rec2 = delete_sc_recoverable [OF d st_sc key rec]
      obtain q w3 where cr: "Create (sc_client cl) new w2 = (q, w3)" by fastforce
      from re d cr have "w1 = w2 \<or> w1 = w3" by (cases q) (auto simp: recreateStorageClass_def split: option.splits)
      with rec2 create_sc_recoverable [OF cr n fin rec2] have "recoverable ns m nsc mc (view w1)" by blast
      with t k(1) show ?thesis by (rule settled_recoverable)
    next
      case 3
      with st id have s: "reconcileStorageClassUpdateFunc cl sc new x w = ((r, x'), w')" by (simp add: scStage_def reconcile_type_defs)
      obtain e y w1 where u: "Update (sc_client cl) (new\<lparr>ResourceVersion := ResourceVersion sc\<rparr>) w = ((e, y), w1)"
        and t: "settled cl x e w1 ((r, x'), w')"
        using sc_update_shape [of cl sc new w x] s by metis
      have "recoverable ns m nsc mc (view w1)"
        by (rule update_sc_recoverable [where fs = "[FIN]", OF u _ _ _ _ rec]) (use n fin in \<open>simp_all add: ckey_def own_sc_def\<close>)
      with t k(1) show ?thesis by (rule settled_recoverable)
    qed
  qed
qed

lemma secret_write_recoverable:
  assumes new: "configureSecret ed x ns = Some new" and a: "alike nsc x" and rec: "recoverable ns m nsc mc (view w)"
    and "Create (secret_client cl) new w = (r, w') \<or> Update (secret_client cl) new w = (r, w')"
  shows "recoverable ns m nsc mc (view w')"
proof -
  note f = configureSecret_fields [OF new]
  have key: "nkey new = (ns, secret_name nsc)" using f(1,2) alike_names(2) [OF a] by (simp add: nkey_def)
  have lab: "Labels (wire_secret new) = Some secretSelector" using f(3) by (simp add: wire_secret_def wire_meta_def secretSelector_def)
  have put: "recoverable ns m nsc mc (secrets_update (\<lambda>k. k((ns, secret_name nsc) := Some y)) (view w))"
    if "same_object (wire_secret new) y" "DeletionTimestamp y = None" for y
    using that lab same_object_meta(3) [OF that(1)]
    by (intro recoverable_upd(3) [OF rec]) (simp add: secret_adoptable_def smap_of_def fmsubset.rep_eq)
  have live: "DeletionTimestamp old = None" if "secrets (view w) (ns, secret_name nsc) = Some old" for old
    using that rec by (simp add: recoverable_def secret_adoptable_def)
  from assms(4) show ?thesis
  proof
    assume "Create (secret_client cl) new w = (r, w')"
    from secreta.create_atomic [OF this] show ?thesis unfolding key using put rec by metis
  next
    assume "Update (secret_client cl) new w = (r, w')"
    from secreta.update_atomic [OF this, unfolded key] show ?thesis
      using put live rec by (elim disjE exE conjE) simp_all
  qed
qed

lemma secret_stage_recoverable:
  assumes "secretStage L ed cl ns x w = Some ((r, x'), w')" and a: "alike nsc x" and live: "DeletionTimestamp nsc = None"
    and rec: "recoverable ns m nsc mc (view w)"
  shows "recoverable ns m nsc mc (view w')"
proof -
  have k: "ckey x = ckey nsc" and "DeletionTimestamp x = None" using a live alike_names(1) [OF a] by (simp_all add: alike_def)
  have view: "recoverable ns m nsc mc (view w1)" if "List (secret_client cl) [InNamespace ns] w = (l, w1)" for l w1
    using secret.list_view [OF that] rec by simp
  have settled: "recoverable ns m nsc mc (view w')" if "settled cl x e w1 ((r, x'), w')" "recoverable ns m nsc mc (view w1)" for e w1
    using settled_recoverable [OF that(1) k that(2)] .
  from assms(1) show ?thesis
  proof (cases rule: secret_stage_cases)
    case (list_fails e w1 tag err reason)
    have "settled cl x (Some e) w1 ((r, x'), w')" unfolding list_fails(2) by blast
    with settled view [OF list_fails(1)] show ?thesis by blast
  next
    case (identify_fails xs w1 ty e)
    with view [OF identify_fails(1)] show ?thesis by simp
  next
    case (create xs w1)
    from create(3) show ?thesis
    proof (rule secret_create_shape)
      fix new e y w2
      assume "configureSecret ed x ns = Some new" "Create (secret_client cl) new w1 = ((e, y), w2)"
        and t: "settled cl x e w2 ((r, x'), w')"
      with secret_write_recoverable [OF _ a view [OF create(1)]] have "recoverable ns m nsc mc (view w2)" by blast
      with settled t show ?thesis by blast
    qed
  next
    case (update xs w1)
    from update(3) show ?thesis
    proof (cases rule: secret_update_shape)
      case (missing e)
      with settled view [OF update(1)] show ?thesis by blast
    next
      case (update s new e y w2)
      with secret_write_recoverable [OF _ a view [OF \<open>List _ _ w = _\<close>]] have "recoverable ns m nsc mc (view w2)" by blast
      with settled update(4) show ?thesis by blast
    qed
  next
    case (delete xs w1)
    then show ?thesis using \<open>DeletionTimestamp x = None\<close>
      by (auto simp: IdentifyReconcileFuncForSecret_def shouldReconcileByDeleteFunc_def
          reconcile_type_defs bind_eq_Some_conv split: if_splits prod.splits)
  next
    case (keep xs w1 ty)
    with view [OF keep(1)] show ?thesis by simp
  qed
qed

lemma vsc_write_recoverable:
  assumes "ckey new = ckey nsc" and rec: "recoverable ns m nsc mc (view w)"
    and "Create (vsc_client cl) new w = (r, w') \<or> Update (vsc_client cl) new w = (r, w')"
  shows "recoverable ns m nsc mc (view w')"
  using assms(3)
proof
  assume "Create (vsc_client cl) new w = (r, w')"
  from vsca.create_atomic [OF this] show ?thesis unfolding assms(1) using recoverable_upd(4) [OF rec] rec by metis
next
  assume u: "Update (vsc_client cl) new w = (r, w')"
  have live: "DeletionTimestamp old = None" if "vscs (view w) (ckey nsc) = Some old" for old
    using that rec by (simp add: recoverable_def)
  from vsca.update_atomic [OF u, unfolded assms(1)] show ?thesis
    by (elim disjE exE conjE) (simp_all add: rec live recoverable_upd(4) [OF rec])
qed

lemma vsc_stage_recoverable:
  assumes "vscStage L ed cl ns' x w = Some ((r, x'), w')" and a: "alike nsc x" and live: "DeletionTimestamp nsc = None"
    and rec: "recoverable ns m nsc mc (view w)"
  shows "recoverable ns m nsc mc (view w')"
proof -
  have k: "ckey x = ckey nsc" and "DeletionTimestamp x = None" using a live alike_names(1) [OF a] by (simp_all add: alike_def)
  have view: "recoverable ns m nsc mc (view w1)" if "List (vsc_client cl) [] w = (l, w1)" for l w1
    using vsc.list_view [OF that] rec by simp
  have settled: "recoverable ns m nsc mc (view w')" if "settled cl x e w1 ((r, x'), w')" "recoverable ns m nsc mc (view w1)" for e w1
    using settled_recoverable [OF that(1) k that(2)] .
  from assms(1) show ?thesis
  proof (cases rule: vsc_stage_cases)
    case (list_fails e w1 tag err reason)
    have "settled cl x (Some e) w1 ((r, x'), w')" unfolding list_fails(2) by blast
    with settled view [OF list_fails(1)] show ?thesis by blast
  next
    case (create xs w1 old new)
    obtain e y w2 where c: "Create (vsc_client cl) new w1 = ((e, y), w2)" and t: "settled cl x e w2 ((r, x'), w')"
      using vsc_create_shape [of cl new w1 x] create(3) by metis
    have "ckey new = ckey nsc" using identify_vsc_names(2) [OF create(2) refl] k by (simp add: ckey_def)
    from vsc_write_recoverable [OF this view [OF create(1)]] c have "recoverable ns m nsc mc (view w2)" by blast
    with settled t show ?thesis by blast
  next
    case (update xs w1 old new)
    obtain e y w2 where c: "Update (vsc_client cl) (new\<lparr>ResourceVersion := ResourceVersion old\<rparr>) w1 = ((e, y), w2)"
      and t: "settled cl x e w2 ((r, x'), w')"
      using vsc_update_shape [of cl old new w1 x] update(3) by metis
    have "ckey (new\<lparr>ResourceVersion := ResourceVersion old\<rparr>) = ckey nsc"
      using identify_vsc_names(2) [OF update(2) refl] k by (simp add: ckey_def)
    from vsc_write_recoverable [OF this view [OF update(1)]] c have "recoverable ns m nsc mc (view w2)" by blast
    with settled t show ?thesis by blast
  next
    case (delete xs w1 old new)
    then show ?thesis using \<open>DeletionTimestamp x = None\<close>
      by (auto simp: IdentifyReconcileFuncForVSClass_def shouldReconcileByDeleteFunc_def Let_def
          reconcile_type_defs bind_eq_Some_conv split: if_splits)
  next
    case (keep xs w1 ty old new)
    with view [OF keep(1)] show ?thesis by simp
  qed
qed

lemma finalizer_stage_recoverable:
  assumes "finalizerStage cl x w = Some ((r, x'), w')" and stored: "nscs (view w) (ckey nsc) = Some x" and a: "alike nsc x"
    and live: "DeletionTimestamp nsc = None" and rec: "recoverable ns m nsc mc (view w)"
  shows "recoverable ns m nsc mc (view w')"
proof -
  obtain rq err where "r = (rq, err)" by fastforce
  with assms(1) have "finalizerStage cl x w = Some (((rq, err), x'), w')" by simp
  then show ?thesis
  proof (rule finalizer_stage_cases)
    fix added e
    assume "addFinalizerIfNotExists (Update (nsc_client cl)) x FIN w = (((added, e), x'), w')"
    then show ?thesis
    proof (cases rule: add_finalizer_cases)
      case present
      with rec show ?thesis by simp
    next
      case absent
      let ?x = "x\<lparr>Finalizers := Some (fins x @ [FIN])\<rparr>"
      have k: "ckey ?x = ckey nsc" using alike_names(1) [OF a] by (simp add: ckey_def)
      have "wire_meta x = x" using nsc.stored_wire [OF stored] .
      moreover have "wire_meta ?x = (wire_meta x)\<lparr>Finalizers := Some (fins x @ [FIN])\<rparr>" by (simp add: wire_meta_def)
      ultimately have w: "wire_meta ?x = ?x" by simp
      have put: "recoverable ns m nsc mc (nscs_update (\<lambda>s. s(ckey nsc := Some y)) (view w))"
        if y: "same_object ?x y" "DeletionTimestamp y = None" for y
      proof -
        have "Spec y = Spec x" using y(1) by (auto elim!: same_object_fields)
        then have "alike nsc y" using same_object_meta [OF y(1)] a live y(2) by (simp add: alike_def)
        then show ?thesis by (rule recoverable_upd(1) [OF rec])
      qed
      have "DeletionTimestamp x = None" using a live by (simp add: alike_def)
      with nsca.update_atomic [OF absent(2), unfolded k w] show ?thesis
        using put rec stored by (elim disjE exE conjE) simp_all
    qed
  qed
qed

lemma andThen_cases:
  assumes "andThen f g x w = Some (r, w')"
  obtains "f x w = Some (r, w')"
  | x1 w1 where "f x w = Some (((False, None), x1), w1)" "g x1 w1 = Some (r, w')"
  using assms by (auto simp: andThen_def bind_eq_Some_conv split: if_splits)

lemma run_recoverable:
  assumes run: "RunEventReconcile L ed cl scList ns ps x w = Some (r, w')" and stored: "nscs (view w) (ckey nsc) = Some x"
    and a: "alike nsc x" and live: "DeletionTimestamp nsc = None" and c: "Connection (Spec nsc) \<noteq> None"
    and list: "findStorageClass scList (Name nsc) = scs (view w) (ckey nsc)" and ns: "ns \<noteq> ''''"
    and rec: "recoverable ns m nsc mc (view w)"
  shows "recoverable ns m nsc mc (view w')"
proof -
  obtain q x' where r: "r = (q, x')" by fastforce
  have kx: "ckey x = ckey nsc" using alike_names(1) [OF a] .
  from run [unfolded RunEventReconcile_def r] show ?thesis
  proof (rule andThen_cases)
    assume "finalizerStage cl x w = Some ((q, x'), w')"
    then show ?thesis by (rule finalizer_stage_recoverable) (use stored a live rec in auto)
  next
    fix x1 w1
    assume s1: "finalizerStage cl x w = Some (((False, None), x1), w1)"
      and s: "andThen (scStage L ed cl scList ns ps)
        (andThen (secretStage L ed cl ns) (andThen (vscStage L ed cl ns) (statusStage cl))) x1 w1 = Some ((q, x'), w')"
    have rec1: "recoverable ns m nsc mc (view w1)"
      by (rule finalizer_stage_recoverable [OF s1 stored a live rec])
    have st: "nscs (view w) (ckey x) = Some x" unfolding kx by (rule stored)
    from finalizer_stage_ok [OF s1 st] have "alike x x1" and v1: "scs (view w1) = scs (view w)" by auto
    with a have a1: "alike nsc x1" using alike_trans by blast
    have k1: "ckey x1 = ckey nsc" "DeletionTimestamp x1 = None" using a1 live alike_names(1) by (auto simp: alike_def)
    have list1: "findStorageClass scList (Name nsc) = scs (view w1) (ckey nsc)" using list v1 by simp
    from s show ?thesis
    proof (rule andThen_cases)
      assume "scStage L ed cl scList ns ps x1 w1 = Some ((q, x'), w')"
      then show ?thesis by (rule sc_stage_recoverable [OF _ a1 live c list1 rec1])
    next
      fix x2 w2
      assume s2: "scStage L ed cl scList ns ps x1 w1 = Some (((False, None), x2), w2)"
        and s: "andThen (secretStage L ed cl ns) (andThen (vscStage L ed cl ns) (statusStage cl)) x2 w2 = Some ((q, x'), w')"
      have x2: "x2 = x1" using sc_stage_keeps [OF s2] .
      note rec2 = sc_stage_recoverable [OF s2 a1 live c list1 rec1]
      from s [unfolded x2] show ?thesis
      proof (rule andThen_cases)
        assume "secretStage L ed cl ns x1 w2 = Some ((q, x'), w')"
        then show ?thesis by (rule secret_stage_recoverable [OF _ a1 live rec2])
      next
        fix x3 w3
        assume s3: "secretStage L ed cl ns x1 w2 = Some (((False, None), x3), w3)"
          and s: "andThen (vscStage L ed cl ns) (statusStage cl) x3 w3 = Some ((q, x'), w')"
        have x3: "x3 = x1" using secret_stage_keeps [OF s3 k1(2) ns] .
        note rec3 = secret_stage_recoverable [OF s3 a1 live rec2]
        from s [unfolded x3] show ?thesis
        proof (rule andThen_cases)
          assume "vscStage L ed cl ns x1 w3 = Some ((q, x'), w')"
          then show ?thesis by (rule vsc_stage_recoverable [OF _ a1 live rec3])
        next
          fix x4 w4
          assume s4: "vscStage L ed cl ns x1 w3 = Some (((False, None), x4), w4)" and s5: "statusStage cl x4 w4 = Some ((q, x'), w')"
          have "Connection (Spec x1) \<noteq> None" using a1 c by (simp add: alike_def)
          then have "x4 = x1" using vsc_stage_ok [OF s4 k1(2)] by blast
          with s5 k1(2) obtain u where "updateNFSStorageClassPhase cl x1 CreatedStatusPhase '''' w4 = (u, w')"
            by (auto simp: statusStage_def Let_def split: prod.splits option.splits)
          then show ?thesis by (rule status_recoverable [OF _ k1(1) vsc_stage_recoverable [OF s4 a1 live rec3]])
        qed
      qed
    qed
  qed
qed

lemma reconcile_recoverable:
  assumes r: "Reconcile L ed cl cfg ('''', Name nsc) w = Some (res, w')" and live: "DeletionTimestamp nsc = None"
    and c: "Connection (Spec nsc) = Some c" and adm: "settings_typed mc" "admissible ed mc c"
    and ns: "ControllerNamespace cfg \<noteq> ''''" and name: "Name nsc \<noteq> ''''"
    and rec: "recoverable (ControllerNamespace cfg) (CsiNfsModuleName cfg) nsc mc (view w)"
  shows "recoverable (ControllerNamespace cfg) (CsiNfsModuleName cfg) nsc mc (view w')"
proof -
  let ?rec = "recoverable (ControllerNamespace cfg) (CsiNfsModuleName cfg) nsc mc"
  from rec obtain x where stored: "nscs (view w) (ckey nsc) = Some x" and a: "alike nsc x"
    and mc: "mcs (view w) ('''', CsiNfsModuleName cfg) = Some mc" by (auto simp: recoverable_def)
  have k: "ckey nsc = ('''', Name nsc)" by (simp add: ckey_def)
  have x: "DeletionTimestamp x = None" "Connection (Spec x) = Some c" "Name x = Name nsc" using a live c by (simp_all add: alike_def)
  from stored [unfolded k] show ?thesis
  proof (cases rule: reconcile_get [where ed = ed and cfg = cfg])
    case (failed e w1)
    with r rec show ?thesis by simp
  next
    case (found w1)
    with r name x(3) obtain err x1 w2 where val: "validateRequest ed cl (CsiNfsModuleName cfg) x w1 = Some ((err, x1), w2)"
      by (auto simp: reconcileRequest_def bind_eq_Some_conv)
    have "ValidateNFSStorageClass ed mc x = Some None"
      using validate_no_panic [of x mc ed] validate_accepts_iff [OF x(2), of ed mc] x(2) adm by auto
    with val x(1) have v2: "view w2 = view w \<and> x1 = x"
      by (cases rule: validate_cases) (use found(2) mc in \<open>auto dest: mc.get_view mc.get_ok\<close>)
    show ?thesis
    proof (cases err)
      case (Some e)
      with r found(1) val name x(3) v2 rec show ?thesis by (simp add: reconcileRequest_def)
    next
      case None
      obtain l w3 where l: "List (sc_client cl) [] w2 = (l, w3)" by fastforce
      have v3: "view w3 = view w" using sc.list_view [OF l] v2 by simp
      show ?thesis
      proof (cases l)
        case (Inl e)
        with r found(1) val name x(3) None l v3 rec show ?thesis by (simp add: reconcileRequest_def)
      next
        case (Inr scList)
        with r found(1) val name x(3) None l v2 obtain q w4 where
          run: "RunEventReconcile L ed cl scList (ControllerNamespace cfg) (StorageClassLabelIgnoredPrefixes cfg) x w3 = Some (q, w4)"
          and "w' = w4"
          by (auto simp: reconcileRequest_def bind_eq_Some_conv split: if_splits)
        have "?rec (view w4)"
          by (rule run_recoverable [OF run _ a live _ _ ns])
            (use stored v2 v3 c rec sc_list_find [OF l [unfolded Inr]] k in simp_all)
        with \<open>w' = w4\<close> show ?thesis by simp
      qed
    qed
  qed
qed

end

section \<open>Attempts\<close>

text \<open>Between two attempts the API server may go down or up, and others may write whatever the request does not concern.\<close>

definition unconcerned :: "string \<Rightarrow> string \<Rightarrow> string \<Rightarrow> cluster \<Rightarrow> cluster \<Rightarrow> bool" where
  "unconcerned ns m n c c' \<longleftrightarrow> nscs c' ('''', n) = nscs c ('''', n) \<and> mcs c' ('''', m) = mcs c ('''', m) \<and>
     scs c' ('''', n) = scs c ('''', n) \<and> vscs c' ('''', n) = vscs c ('''', n) \<and>
     secrets c' (ns, SecretForMountOptionsPrefix @ n) = secrets c (ns, SecretForMountOptionsPrefix @ n)"

inductive attempt ::
  "lib \<Rightarrow> edition \<Rightarrow> 'w client \<Rightarrow> ('w \<Rightarrow> cluster) \<Rightarrow> Options \<Rightarrow> string \<Rightarrow> 'w \<Rightarrow> 'w \<Rightarrow> bool"
  for L ed cl view cfg n where
  tried: "Reconcile L ed cl cfg ('''', n) w = Some (res, w') \<Longrightarrow> attempt L ed cl view cfg n w w'"
| meanwhile: "unconcerned (ControllerNamespace cfg) (CsiNfsModuleName cfg) n (view w) (view w') \<Longrightarrow> attempt L ed cl view cfg n w w'"

abbreviation attempts ::
  "lib \<Rightarrow> edition \<Rightarrow> 'w client \<Rightarrow> ('w \<Rightarrow> cluster) \<Rightarrow> Options \<Rightarrow> string \<Rightarrow> 'w \<Rightarrow> 'w \<Rightarrow> bool" where
  "attempts L ed cl view cfg n \<equiv> (attempt L ed cl view cfg n)\<^sup>*\<^sup>*"

inductive_cases attemptE: "attempt L ed cl view cfg n w w'"

lemma unconcerned_recoverable:
  assumes "unconcerned ns m (Name nsc) c c'" and "recoverable ns m nsc mc c"
  shows "recoverable ns m nsc mc c'"
  using assms by (simp add: unconcerned_def recoverable_def ckey_def)

context atomic_api
begin

lemma attempts_recoverable:
  assumes "attempts L ed cl view cfg (Name nsc) w w'" and live: "DeletionTimestamp nsc = None"
    and c: "Connection (Spec nsc) = Some c" and adm: "settings_typed mc" "admissible ed mc c"
    and ns: "ControllerNamespace cfg \<noteq> ''''" and name: "Name nsc \<noteq> ''''"
    and rec: "recoverable (ControllerNamespace cfg) (CsiNfsModuleName cfg) nsc mc (view w)"
  shows "recoverable (ControllerNamespace cfg) (CsiNfsModuleName cfg) nsc mc (view w')"
  using assms(1) rec
proof (induction rule: rtranclp_induct)
  case (step u v)
  from step.IH [OF step.prems] have "recoverable (ControllerNamespace cfg) (CsiNfsModuleName cfg) nsc mc (view u)" .
  with step.hyps(2) show ?case
    by (auto elim!: attemptE intro: reconcile_recoverable [OF _ live c adm ns name] unconcerned_recoverable)
qed

end

section \<open>Property\<close>


definition flaky_world :: mem where
  "flaky_world = sample_world\<lparr>m_fail := [''create vsc'', ''status nsc'']\<rparr>"


end
