(* ===== verification/Node_Selector.thy ===== *)
theory Node_Selector
  imports Storage_Class
begin

text \<open>
  \<open>node_selector_reconciler.go\<close>: the loop that labels the nodes chosen by the NFSStorageClasses, takes
  the label away from nodes that are no longer chosen, and evicts module pods from nodes without the
  label.

  Functions that only read take \<open>cw\<close>, the client's uncached reader (\<open>mgr.GetAPIReader()\<close>), where the
  source does. A Go map is iterated through \<open>go_range\<close>; the loops over label maps do not depend on the
  order (locale \<open>range_loop\<close>).
\<close>

section \<open>Constants\<close>

definition NFSNodeLabelKey :: string where
  "NFSNodeLabelKey = ''storage.deckhouse.io/csi-nfs-node''"
definition nfsNodeLabels :: smap where "nfsNodeLabels = fmupd NFSNodeLabelKey '''' fmempty"
definition NFSNodeSelector :: smap where "NFSNodeSelector = fmupd NFSNodeLabelKey '''' fmempty"
definition CSIControllerLabel :: smap where "CSIControllerLabel = fmupd ''app'' ''csi-controller'' fmempty"
definition CSINodeLabel :: smap where "CSINodeLabel = fmupd ''app'' ''csi-nfs'' fmempty"
definition csiNFSExternalSnapshotterLeaseName :: string where
  "csiNFSExternalSnapshotterLeaseName = ''external-snapshotter-leader-nfs-csi-k8s-io''"
definition ModulePodSelectorList :: "smap list" where
  "ModulePodSelectorList = [CSIControllerLabel, CSINodeLabel]"
definition DefaultNodeSelector :: LabelSelector where
  "DefaultNodeSelector = \<lparr>MatchLabels = Some (fmupd ''kubernetes.io/os'' ''linux'' fmempty), MatchExpressions = None\<rparr>"
definition provisionerAnnotation :: string where
  "provisionerAnnotation = ''volume.kubernetes.io/storage-provisioner''"

section \<open>Selecting nodes\<close>

fun collectSelectors :: "NFSStorageClass list \<Rightarrow> LabelSelector list \<Rightarrow> LabelSelector list" where
  "collectSelectors [] nodeSelectorList = nodeSelectorList"
| "collectSelectors (nsc # items) nodeSelectorList =
     (case WorkloadNodes (Spec nsc) of
        None \<Rightarrow> [DefaultNodeSelector]
      | Some wn \<Rightarrow>
          (case NodeSelector wn of
             None \<Rightarrow> [DefaultNodeSelector]
           | Some selector \<Rightarrow> collectSelectors items (nodeSelectorList @ [selector])))"

definition GetNodeSelectorFromNFSStorageClasses :: "NFSStorageClass list \<Rightarrow> LabelSelector list" where
  "GetNodeSelectorFromNFSStorageClasses items =
     (if length items = 0 then [DefaultNodeSelector] else collectSelectors items [])"

text \<open>The inner loop: nodes not seen yet are appended.\<close>

fun addNewNodes :: "Node list \<Rightarrow> Node list \<Rightarrow> Node list" where
  "addNewNodes [] allSelectedNodes = allSelectedNodes"
| "addNewNodes (node # rest) allSelectedNodes =
     addNewNodes rest (if Name node \<notin> Name ` set allSelectedNodes then allSelectedNodes @ [node] else allSelectedNodes)"

fun selectNodes ::
  "lib \<Rightarrow> 'w client \<Rightarrow> LabelSelector list \<Rightarrow> Node list \<Rightarrow> 'w \<Rightarrow> (go_error + Node list) \<times> 'w" where
  "selectNodes L cl [] allSelectedNodes w = (Inr allSelectedNodes, w)"
| "selectNodes L cl (nodeSelector # rest) allSelectedNodes w =
     (case LabelSelectorAsSelector L nodeSelector of
        Inl e \<Rightarrow> (Inl (WrapError (''[GetNodesBySelectorList] Failed convert selector '' @
                  fmt_selectors L [nodeSelector] @ '' to labels.Selector: '') e), w)
      | Inr selector \<Rightarrow>
          (case List (node_client cl) [MatchingSelector selector] w of
             (Inl e, w) \<Rightarrow> (Inl (WrapError (''[GetNodesBySelectorList] Failed get nodes from Kubernetes by labels.Selector: '' @
                  fmt_selectors L [nodeSelector] @ '': '') e), w)
           | (Inr selectedNodes, w) \<Rightarrow> selectNodes L cl rest (addNewNodes selectedNodes allSelectedNodes) w))"

definition GetNodesBySelectorList ::
  "lib \<Rightarrow> 'w client \<Rightarrow> LabelSelector list \<Rightarrow> 'w \<Rightarrow> (go_error + Node list) \<times> 'w" where
  "GetNodesBySelectorList L cl nodeSelectorList w = selectNodes L cl nodeSelectorList [] w"

definition GetNodesBySelector :: "'w client \<Rightarrow> smap \<Rightarrow> 'w \<Rightarrow> (go_error + Node list) \<times> 'w" where
  "GetNodesBySelector cl nodeSelector w = List (node_client cl) [MatchingLabels nodeSelector] w"

section \<open>Node labels\<close>

definition add_label_body :: "string \<Rightarrow> string \<Rightarrow> smap \<times> bool \<Rightarrow> smap \<times> bool" where
  "add_label_body key value s =
     (case s of (originalLabels, added) \<Rightarrow>
        if fmlookup originalLabels key \<noteq> Some value then (fmupd key value originalLabels, True)
        else (originalLabels, added))"

definition AddLabelsIfNeeded :: "smap option \<Rightarrow> smap \<Rightarrow> smap option \<times> bool" where
  "AddLabelsIfNeeded originalLabels labelsToAdd =
     (case originalLabels of
        None \<Rightarrow> (Some labelsToAdd, True)
      | Some m \<Rightarrow>
          (let (m, added) = fold (\<lambda>(k, v). add_label_body k v) (go_range labelsToAdd) (m, False)
           in (Some m, added)))"

definition addLabelsAttempt :: "'w client \<Rightarrow> string \<Rightarrow> smap \<Rightarrow> 'w \<Rightarrow> go_error option \<times> 'w" where
  "addLabelsAttempt cl name labels w =
    (case Get (node_client cl) '''' name w of
       (Inl e, w) \<Rightarrow> (Some e, w)
     | (Inr latestNode, w) \<Rightarrow>
         (let (newLabels, added) = AddLabelsIfNeeded (Labels latestNode) labels in
          if added
          then (let ((err, latestNode), w) = Update (node_client cl) (latestNode\<lparr>Labels := newLabels\<rparr>) w in (err, w))
          else (None, w)))"

definition AddLabelsToNode :: "'w client \<Rightarrow> Node \<Rightarrow> smap \<Rightarrow> 'w \<Rightarrow> go_error option \<times> 'w" where
  "AddLabelsToNode cl node labels w =
    (let (_, added) = AddLabelsIfNeeded (Labels node) labels in
     if \<not> added then (None, w)
     else RetryOnConflict cl (addLabelsAttempt cl (Name node) labels) w)"

definition remove_label_body :: "string \<Rightarrow> string \<Rightarrow> smap \<times> bool \<Rightarrow> smap \<times> bool" where
  "remove_label_body key value s =
     (case s of (originalLabels, removed) \<Rightarrow>
        if fmlookup originalLabels key \<noteq> None then (fmdrop key originalLabels, True)
        else (originalLabels, removed))"

definition RemoveLabelsIfNeeded :: "smap option \<Rightarrow> smap \<Rightarrow> smap option \<times> bool" where
  "RemoveLabelsIfNeeded originalLabels labelsToRemove =
     (case originalLabels of
        None \<Rightarrow> (None, False)
      | Some m \<Rightarrow>
          (let (m, removed) = fold (\<lambda>(k, v). remove_label_body k v) (go_range labelsToRemove) (m, False)
           in (Some m, removed)))"

definition removeLabelsAttempt :: "'w client \<Rightarrow> string \<Rightarrow> smap \<Rightarrow> 'w \<Rightarrow> go_error option \<times> 'w" where
  "removeLabelsAttempt cl name labels w =
    (case Get (node_client cl) '''' name w of
       (Inl e, w) \<Rightarrow> (Some e, w)
     | (Inr latestNode, w) \<Rightarrow>
         (let (newLabels, removed) = RemoveLabelsIfNeeded (Labels latestNode) labels in
          if removed
          then (let ((err, latestNode), w) = Update (node_client cl) (latestNode\<lparr>Labels := newLabels\<rparr>) w in (err, w))
          else (None, w)))"

definition RemoveLabelsFromNode :: "'w client \<Rightarrow> Node \<Rightarrow> smap \<Rightarrow> 'w \<Rightarrow> go_error option \<times> 'w" where
  "RemoveLabelsFromNode cl node labels w =
    (let (_, removed) = RemoveLabelsIfNeeded (Labels node) labels in
     if \<not> removed then (None, w)
     else RetryOnConflict cl (removeLabelsAttempt cl (Name node) labels) w)"

fun ContainsNode :: "Node list \<Rightarrow> string \<Rightarrow> bool" where
  "ContainsNode [] nodeName = False"
| "ContainsNode (item # items) nodeName = (if Name item = nodeName then True else ContainsNode items nodeName)"

fun DiffNodeLists :: "Node list \<Rightarrow> Node list \<Rightarrow> Node list" where
  "DiffNodeLists [] rightList = []"
| "DiffNodeLists (leftNode # leftList) rightList =
     (if \<not> ContainsNode rightList (Name leftNode) then leftNode # DiffNodeLists leftList rightList
      else DiffNodeLists leftList rightList)"

section \<open>Workloads\<close>

text \<open>The loop over the volumes of a pod: is one of them a claim provisioned by this driver?\<close>

fun podUsesNFS :: "'w client \<Rightarrow> Pod \<Rightarrow> Volume list \<Rightarrow> 'w \<Rightarrow> (go_error + bool) \<times> 'w" where
  "podUsesNFS cw pod [] w = (Inr False, w)"
| "podUsesNFS cw pod (volume # volumes) w =
     (case PersistentVolumeClaim volume of
        None \<Rightarrow> podUsesNFS cw pod volumes w
      | Some claimName \<Rightarrow>
          (case Get (pvc_client cw) (Namespace pod) claimName w of
             (Inl e, w) \<Rightarrow> (Inl (WrapError (''[GetPodsMapWithNFSVolume] Failed get pvc '' @ Namespace pod @ ''/'' @ claimName @
                  '' for pod '' @ Namespace pod @ ''/'' @ Name pod @ '': '') e), w)
           | (Inr pvc, w) \<Rightarrow>
               if map_get (Annotations pvc) provisionerAnnotation = NFSStorageClassProvisioner
               then (Inr True, w)
               else podUsesNFS cw pod volumes w))"

type_synonym podsMap = "(string, Pod list) fmap"

definition appendPod :: "podsMap \<Rightarrow> Pod \<Rightarrow> podsMap" where
  "appendPod m pod = fmupd (NodeName pod)
     ((case fmlookup m (NodeName pod) of None \<Rightarrow> [] | Some ps \<Rightarrow> ps) @ [pod]) m"

fun collectPods :: "'w client \<Rightarrow> Pod list \<Rightarrow> podsMap \<Rightarrow> 'w \<Rightarrow> (go_error + podsMap) \<times> 'w" where
  "collectPods cw [] m w = (Inr m, w)"
| "collectPods cw (pod # rest) m w =
     (case podUsesNFS cw pod (Volumes pod) w of
        (Inl e, w) \<Rightarrow> (Inl e, w)
      | (Inr uses, w) \<Rightarrow> collectPods cw rest (if uses then appendPod m pod else m) w)"

fun collectNamespacePods :: "'w client \<Rightarrow> NamespaceObj list \<Rightarrow> podsMap \<Rightarrow> 'w \<Rightarrow> (go_error + podsMap) \<times> 'w" where
  "collectNamespacePods cw [] m w = (Inr m, w)"
| "collectNamespacePods cw (namespace # namespaces) m w =
     (case List (pod_client cw) [InNamespace (Name namespace)] w of
        (Inl e, w) \<Rightarrow> (Inl (WrapError (''[GetPodsMapWithNFSVolume] Failed get pods in namespace '' @ Name namespace @ '': '') e), w)
      | (Inr podList, w) \<Rightarrow>
          (case collectPods cw podList m w of
             (Inl e, w) \<Rightarrow> (Inl e, w)
           | (Inr m, w) \<Rightarrow> collectNamespacePods cw namespaces m w))"

definition GetPodsMapWithNFSVolume :: "'w client \<Rightarrow> NamespaceObj list \<Rightarrow> 'w \<Rightarrow> (go_error + podsMap) \<times> 'w" where
  "GetPodsMapWithNFSVolume cw namespaceList w = collectNamespacePods cw namespaceList fmempty w"

definition GetCCSIControllerNodeName ::
  "'w client \<Rightarrow> string \<Rightarrow> string \<Rightarrow> smap \<Rightarrow> 'w \<Rightarrow> (go_error + string) \<times> 'w" where
  "GetCCSIControllerNodeName cl namespace leaseName csiControllerLabel w =
    (case List (pod_client cl) [InNamespace namespace, MatchingLabels csiControllerLabel] w of
       (Inl e, w) \<Rightarrow> (Inl (WrapError ''[GetCCSIControllerNodeName] Failed get csi controller pod: '' e), w)
     | (Inr csiControllerPodList, w) \<Rightarrow>
         if length csiControllerPodList = 0 then (Inr '''', w)
         else
           (case Get (lease_client cl) namespace leaseName w of
              (Inl e, w) \<Rightarrow> (Inl (WrapError (''[GetCCSIControllerNodeName] Failed get lease: '' @ namespace @ ''/'' @ leaseName @ '': '') e), w)
            | (Inr lease, w) \<Rightarrow>
                (case HolderIdentity lease of
                   None \<Rightarrow> (Inl (ErrorString (''[GetCCSIControllerNodeName] HolderIdentity is nil in lease: '' @ leaseName)), w)
                 | Some holder \<Rightarrow> (Inr holder, w))))"

fun collectSnapshots ::
  "'w client \<Rightarrow> string \<Rightarrow> VolumeSnapshot list \<Rightarrow> VolumeSnapshot list \<Rightarrow> 'w \<Rightarrow> (go_error + VolumeSnapshot list) \<times> 'w" where
  "collectSnapshots cw provisioner [] pendingSnapshots w = (Inr pendingSnapshots, w)"
| "collectSnapshots cw provisioner (snapshot # rest) pendingSnapshots w =
     (if ReadyToUse snapshot = Some (Some True) then collectSnapshots cw provisioner rest pendingSnapshots w
      else case SourcePVCName snapshot of
        None \<Rightarrow> collectSnapshots cw provisioner rest pendingSnapshots w
      | Some claimName \<Rightarrow>
          (case Get (pvc_client cw) (Namespace snapshot) claimName w of
             (Inl e, w) \<Rightarrow> (Inl (ErrorString (''[GetPendingVolumeSnapshots] Failed get pvc '' @ Namespace snapshot @ ''/'' @ claimName @
                 '' for snapshot '' @ Namespace snapshot @ ''/'' @ Name snapshot @ '': '' @ Error_msg e)), w)
           | (Inr pvc, w) \<Rightarrow>
               collectSnapshots cw provisioner rest
                 (if map_get (Annotations pvc) provisionerAnnotation = provisioner
                  then pendingSnapshots @ [snapshot] else pendingSnapshots) w))"

fun collectNamespaceSnapshots ::
  "'w client \<Rightarrow> string \<Rightarrow> NamespaceObj list \<Rightarrow> VolumeSnapshot list \<Rightarrow> 'w \<Rightarrow> (go_error + VolumeSnapshot list) \<times> 'w" where
  "collectNamespaceSnapshots cw provisioner [] pendingSnapshots w = (Inr pendingSnapshots, w)"
| "collectNamespaceSnapshots cw provisioner (namespace # namespaces) pendingSnapshots w =
     (case List (vs_client cw) [InNamespace (Name namespace)] w of
        (Inl e, w) \<Rightarrow> (Inl (WrapError (''[GetPendingVolumeSnapshots] Failed get volumesnapshots in namespace '' @ Name namespace @ '': '') e), w)
      | (Inr volumeSnapshots, w) \<Rightarrow>
          (case collectSnapshots cw provisioner volumeSnapshots pendingSnapshots w of
             (Inl e, w) \<Rightarrow> (Inl e, w)
           | (Inr pendingSnapshots, w) \<Rightarrow> collectNamespaceSnapshots cw provisioner namespaces pendingSnapshots w))"

definition GetPendingVolumeSnapshots ::
  "'w client \<Rightarrow> string \<Rightarrow> NamespaceObj list \<Rightarrow> 'w \<Rightarrow> (go_error + VolumeSnapshot list) \<times> 'w" where
  "GetPendingVolumeSnapshots cw provisioner namespaceList w = collectNamespaceSnapshots cw provisioner namespaceList [] w"

fun collectClaims :: "string \<Rightarrow> PersistentVolumeClaim list \<Rightarrow> PersistentVolumeClaim list \<Rightarrow> PersistentVolumeClaim list" where
  "collectClaims provisioner [] pendingPVCs = pendingPVCs"
| "collectClaims provisioner (pvc # rest) pendingPVCs = collectClaims provisioner rest
     (if Phase pvc = ''Pending'' then
        if map_get (Annotations pvc) provisionerAnnotation = provisioner then pendingPVCs @ [pvc] else pendingPVCs
      else pendingPVCs)"

fun collectNamespaceClaims ::
  "'w client \<Rightarrow> string \<Rightarrow> NamespaceObj list \<Rightarrow> PersistentVolumeClaim list \<Rightarrow> 'w \<Rightarrow> (go_error + PersistentVolumeClaim list) \<times> 'w" where
  "collectNamespaceClaims cw provisioner [] pendingPVCs w = (Inr pendingPVCs, w)"
| "collectNamespaceClaims cw provisioner (namespace # namespaces) pendingPVCs w =
     (case List (pvc_client cw) [InNamespace (Name namespace)] w of
        (Inl e, w) \<Rightarrow> (Inl (WrapError (''[GetPendingPersistentVolumeClaims] Failed get persistent volume claims in namespace '' @ Name namespace @ '': '') e), w)
      | (Inr claims, w) \<Rightarrow> collectNamespaceClaims cw provisioner namespaces (collectClaims provisioner claims pendingPVCs) w)"

definition GetPendingPersistentVolumeClaims ::
  "'w client \<Rightarrow> string \<Rightarrow> NamespaceObj list \<Rightarrow> 'w \<Rightarrow> (go_error + PersistentVolumeClaim list) \<times> 'w" where
  "GetPendingPersistentVolumeClaims cw provisioner namespaceList w = collectNamespaceClaims cw provisioner namespaceList [] w"

definition IsCSIControllerRemovable ::
  "'w client \<Rightarrow> string \<Rightarrow> NamespaceObj list \<Rightarrow> 'w \<Rightarrow> (go_error + bool) \<times> 'w" where
  "IsCSIControllerRemovable cw provisioner namespaceList w =
    (case GetPendingVolumeSnapshots cw provisioner namespaceList w of
       (Inl e, w) \<Rightarrow> (Inl (WrapError ''[CheckIfCanRemoveControllerNode] Failed get pending volumesnapshots: '' e), w)
     | (Inr pendingSnapshots, w) \<Rightarrow>
         if length pendingSnapshots > 0 then (Inr False, w)
         else
           (case GetPendingPersistentVolumeClaims cw provisioner namespaceList w of
              (Inl e, w) \<Rightarrow> (Inl (WrapError ''[CheckIfCanRemoveControllerNode] Failed get pending persistent volume claims: '' e), w)
            | (Inr pendingPVCs, w) \<Rightarrow>
                if length pendingPVCs > 0 then (Inr False, w) else (Inr True, w)))"

section \<open>Reconciling the labels\<close>

fun addLabelsLoop :: "'w client \<Rightarrow> Node list \<Rightarrow> 'w \<Rightarrow> go_error option \<times> 'w" where
  "addLabelsLoop cl [] w = (None, w)"
| "addLabelsLoop cl (node # rest) w =
     (case AddLabelsToNode cl node nfsNodeLabels w of
        (Some e, w) \<Rightarrow> (Some (WrapError (''[reconcileNodeSelector] Failed add labels '' @ Sprint_smap nfsNodeLabels @
             '' to node: '' @ Name node @ '': '') e), w)
      | (None, w) \<Rightarrow> addLabelsLoop cl rest w)"

fun removeLabelsLoop ::
  "'w client \<Rightarrow> 'w client \<Rightarrow> string \<Rightarrow> NamespaceObj list \<Rightarrow> podsMap \<Rightarrow> Node list \<Rightarrow> 'w \<Rightarrow> go_error option \<times> 'w" where
  "removeLabelsLoop cl cw controllerNodeName namespaceList podsMapWithNFSVolume [] w = (None, w)"
| "removeLabelsLoop cl cw controllerNodeName namespaceList podsMapWithNFSVolume (node # rest) w =
    (let (check, w) = (if Name node = controllerNodeName
           then IsCSIControllerRemovable cw NFSStorageClassProvisioner namespaceList w
           else (Inr True, w))
     in case check of
          Inl e \<Rightarrow> (Some (WrapError ''[reconcileNodeSelector] Failed check if can remove csi-nfs controller node: '' e), w)
        | Inr csiControllerRemovable \<Rightarrow>
            if \<not> csiControllerRemovable
            then removeLabelsLoop cl cw controllerNodeName namespaceList podsMapWithNFSVolume rest w
            else if (case fmlookup podsMapWithNFSVolume (Name node) of None \<Rightarrow> False | Some ps \<Rightarrow> length ps > 0)
            then removeLabelsLoop cl cw controllerNodeName namespaceList podsMapWithNFSVolume rest w
            else
              (case RemoveLabelsFromNode cl node nfsNodeLabels w of
                 (Some e, w) \<Rightarrow> (Some (WrapError (''[reconcileNodeSelector] Failed remove labels '' @ Sprint_smap nfsNodeLabels @
                      '' from node: '' @ Name node @ '': '') e), w)
               | (None, w) \<Rightarrow> removeLabelsLoop cl cw controllerNodeName namespaceList podsMapWithNFSVolume rest w))"

text \<open>The second half of \<open>ReconcileNodeSelector\<close>: take the label from the nodes that lost it.\<close>

definition unlabelNodes :: "'w client \<Rightarrow> 'w client \<Rightarrow> string \<Rightarrow> Node list \<Rightarrow> 'w \<Rightarrow> go_error option \<times> 'w" where
  "unlabelNodes cl cw namespace nodesToRemove w =
    (case GetCCSIControllerNodeName cl namespace csiNFSExternalSnapshotterLeaseName CSIControllerLabel w of
       (Inl e, w) \<Rightarrow> (Some (WrapError ''[reconcileNodeSelector] Failed get csi-nfs controller node name: '' e), w)
     | (Inr controllerNodeName, w) \<Rightarrow>
         (case List (ns_client cl) [] w of
            (Inl e, w) \<Rightarrow> (Some (WrapError ''[reconcileNodeSelector] Failed get namespaces: '' e), w)
          | (Inr namespaceList, w) \<Rightarrow>
              (case GetPodsMapWithNFSVolume cw namespaceList w of
                 (Inl e, w) \<Rightarrow> (Some (WrapError ''[reconcileNodeSelector] Failed get pods with NFS volume: '' e), w)
               | (Inr podsMapWithNFSVolume, w) \<Rightarrow>
                   removeLabelsLoop cl cw controllerNodeName namespaceList podsMapWithNFSVolume nodesToRemove w)))"

definition ReconcileNodeSelector :: "lib \<Rightarrow> 'w client \<Rightarrow> 'w client \<Rightarrow> string \<Rightarrow> 'w \<Rightarrow> go_error option \<times> 'w" where
  "ReconcileNodeSelector L cl cw namespace w =
    (case List (nsc_client cl) [] w of
       (Inl e, w) \<Rightarrow> (Some (WrapError ''[ReconcileNodeSelector] Failed get NFSStorageClasses: '' e), w)
     | (Inr nfsStorageClasses, w) \<Rightarrow>
         (let userNodeSelectorList = GetNodeSelectorFromNFSStorageClasses nfsStorageClasses in
          case GetNodesBySelectorList L cl userNodeSelectorList w of
            (Inl e, w) \<Rightarrow> (Some (WrapError (''[reconcileNodeSelector] Failed get nodes by user node selector list: '' @
                 fmt_selectors L userNodeSelectorList @ '': '') e), w)
          | (Inr selectedNodes, w) \<Rightarrow>
              (case (if length selectedNodes \<noteq> 0 then addLabelsLoop cl selectedNodes w else (None, w)) of
                 (Some e, w) \<Rightarrow> (Some e, w)
               | (None, w) \<Rightarrow>
                   (case GetNodesBySelector cl NFSNodeSelector w of
                      (Inl e, w) \<Rightarrow> (Some (WrapError (''[reconcileNodeSelector] Failed get nodes from Kubernetes by selector: '' @
                           Sprint_smap NFSNodeSelector @ '': '') e), w)
                    | (Inr csiNFSNodes, w) \<Rightarrow>
                        (let nodesToRemove = DiffNodeLists csiNFSNodes selectedNodes in
                         if length nodesToRemove = 0 then (None, w)
                         else unlabelNodes cl cw namespace nodesToRemove w)))))"

section \<open>Reconciling the module pods\<close>

definition isPodMatchLabels :: "lib \<Rightarrow> Pod \<Rightarrow> smap \<Rightarrow> bool" where
  "isPodMatchLabels L pod labelsMap = labels_Matches L (Some labelsMap) (Labels pod)"

fun modulePodsLoop ::
  "lib \<Rightarrow> 'w client \<Rightarrow> smap list \<Rightarrow> string list \<Rightarrow> Pod list \<Rightarrow> Pod list \<Rightarrow> 'w \<Rightarrow> (go_error + Pod list) \<times> 'w" where
  "modulePodsLoop L cl modulePodSelectorList csiNFSNodeNames [] csiControllerPods w = (Inr csiControllerPods, w)"
| "modulePodsLoop L cl modulePodSelectorList csiNFSNodeNames (pod # rest) csiControllerPods w =
    (if NodeName pod = '''' then modulePodsLoop L cl modulePodSelectorList csiNFSNodeNames rest csiControllerPods w
     else if \<not> list_ex (isPodMatchLabels L pod) modulePodSelectorList
     then modulePodsLoop L cl modulePodSelectorList csiNFSNodeNames rest csiControllerPods w
     else if NodeName pod \<in> set csiNFSNodeNames
     then modulePodsLoop L cl modulePodSelectorList csiNFSNodeNames rest csiControllerPods w
     else if isPodMatchLabels L pod CSIControllerLabel
     then modulePodsLoop L cl modulePodSelectorList csiNFSNodeNames rest (csiControllerPods @ [pod]) w
     else
       (case Delete (pod_client cl) pod w of
          (Some e, w) \<Rightarrow> (Inl (WrapError (''[ReconcileModulePods] Failed delete pod '' @ Namespace pod @ ''/'' @ Name pod @ '': '') e), w)
        | (None, w) \<Rightarrow> modulePodsLoop L cl modulePodSelectorList csiNFSNodeNames rest csiControllerPods w))"

fun deletePodsLoop :: "'w client \<Rightarrow> Pod list \<Rightarrow> 'w \<Rightarrow> go_error option \<times> 'w" where
  "deletePodsLoop cl [] w = (None, w)"
| "deletePodsLoop cl (pod # rest) w =
     (case Delete (pod_client cl) pod w of
        (Some e, w) \<Rightarrow> (Some (WrapError (''[ReconcileModulePods] Failed remove csi-nfs controller pod '' @ Namespace pod @ ''/'' @ Name pod @ '': '') e), w)
      | (None, w) \<Rightarrow> deletePodsLoop cl rest w)"

definition evictControllerPods :: "'w client \<Rightarrow> 'w client \<Rightarrow> Pod list \<Rightarrow> 'w \<Rightarrow> go_error option \<times> 'w" where
  "evictControllerPods cl cw csiControllerPods w =
    (case List (ns_client cl) [] w of
       (Inl e, w) \<Rightarrow> (Some (WrapError ''[ReconcileModulePods] Failed get namespaces: '' e), w)
     | (Inr namespaceList, w) \<Rightarrow>
         (case IsCSIControllerRemovable cw NFSStorageClassProvisioner namespaceList w of
            (Inl e, w) \<Rightarrow> (Some (WrapError ''[ReconcileModulePods] Failed check if can remove csi-nfs controller node: '' e), w)
          | (Inr csiControllerRemovable, w) \<Rightarrow>
              if csiControllerRemovable then deletePodsLoop cl csiControllerPods w else (None, w)))"

definition ReconcileModulePods ::
  "lib \<Rightarrow> 'w client \<Rightarrow> 'w client \<Rightarrow> string \<Rightarrow> smap \<Rightarrow> smap list \<Rightarrow> 'w \<Rightarrow> go_error option \<times> 'w" where
  "ReconcileModulePods L cl cw moduleNamespace nodeSelector modulePodSelectorList w =
    (case List (pod_client cl) [InNamespace moduleNamespace] w of
       (Inl e, w) \<Rightarrow> (Some (WrapError ''[ReconcileModulePods] Failed get module pods: '' e), w)
     | (Inr modulePods, w) \<Rightarrow>
         (case GetNodesBySelector cl nodeSelector w of
            (Inl e, w) \<Rightarrow> (Some (WrapError (''[ReconcileModulePods] Failed get nodes from Kubernetes by selector: '' @
                 Sprint_smap nodeSelector @ '': '') e), w)
          | (Inr csiNFSNodes, w) \<Rightarrow>
              (case modulePodsLoop L cl modulePodSelectorList (map Name csiNFSNodes) modulePods [] w of
                 (Inl e, w) \<Rightarrow> (Some e, w)
               | (Inr csiControllerPods, w) \<Rightarrow>
                   if length csiControllerPods = 0 then (None, w)
                   else evictControllerPods cl cw csiControllerPods w)))"

text \<open>One turn of the loop of \<open>RunNodeSelectorReconciler\<close>; both errors are only logged.\<close>

definition nodeSelectorTurn :: "lib \<Rightarrow> 'w client \<Rightarrow> 'w client \<Rightarrow> string \<Rightarrow> 'w \<Rightarrow> 'w" where
  "nodeSelectorTurn L cl cw namespace w =
    (let (_, w) = ReconcileNodeSelector L cl cw namespace w;
         (_, w) = ReconcileModulePods L cl cw namespace NFSNodeSelector ModulePodSelectorList w
     in w)"

end
