(* ===== verification/Node_Effects.thy ===== *)
theory Node_Effects
  imports Node_Selector Memory_API
begin

text \<open>
  What the node selector reconciler computes and writes, under the laws of its two clients: which nodes
  are wanted, which are protected from losing the label, and the labels that every node carries when
  \<open>ReconcileNodeSelector\<close> succeeds; and which pods \<open>ReconcileModulePods\<close> deletes.
\<close>

section \<open>Label maps\<close>

interpretation add_label: range_loop add_label_body
  by unfold_locales (auto simp: add_label_body_def fmupd_reorder_neq split: prod.splits)

interpretation remove_label: range_loop remove_label_body
  by unfold_locales (auto simp: remove_label_body_def fmdrop_comm split: prod.splits)

lemma fmupd_same: "fmlookup m k = Some v \<Longrightarrow> fmupd k v m = m"
  by (intro fmap_ext) auto

lemma add_lookup: "fmlookup (m ++\<^sub>f n) x = (case fmlookup n x of None \<Rightarrow> fmlookup m x | Some y \<Rightarrow> Some y)"
  by (auto simp: fmlookup_dom_iff split: option.splits)

lemma fold_add_label:
  assumes "distinct (map fst es)"
  shows "fold (\<lambda>(k, v). add_label_body k v) es (m, a) =
    (m ++\<^sub>f fmap_of_list es, a \<or> (\<exists>(k, v) \<in> set es. fmlookup m k \<noteq> Some v))"
  using assms
proof (induction es arbitrary: m a)
  case (Cons e es)
  obtain k v where e: "e = (k, v)" by fastforce
  let ?m = "fmupd k v m"
  have "fold (\<lambda>(k, v). add_label_body k v) (e # es) (m, a) =
      fold (\<lambda>(k, v). add_label_body k v) es (?m, a \<or> fmlookup m k \<noteq> Some v)"
    by (auto simp: e add_label_body_def fmupd_same)
  also have "\<dots> = (?m ++\<^sub>f fmap_of_list es, (a \<or> fmlookup m k \<noteq> Some v) \<or> (\<exists>(k, v) \<in> set es. fmlookup ?m k \<noteq> Some v))"
    using Cons by simp
  also have "?m ++\<^sub>f fmap_of_list es = m ++\<^sub>f fmap_of_list (e # es)"
  proof (rule fmap_ext)
    fix x
    have "map_of es k = None" using Cons.prems by (simp add: e map_of_eq_None_iff)
    then show "fmlookup (?m ++\<^sub>f fmap_of_list es) x = fmlookup (m ++\<^sub>f fmap_of_list (e # es)) x"
      unfolding add_lookup fmlookup_of_list e by (simp split: option.split)
  qed
  also have "(\<exists>(k, v) \<in> set es. fmlookup ?m k \<noteq> Some v) \<longleftrightarrow> (\<exists>(k, v) \<in> set es. fmlookup m k \<noteq> Some v)"
    using Cons.prems e by (force simp: image_iff)
  finally show ?case by (auto simp: e)
qed simp

lemma fmap_of_list_enumerates: "enumerates es m \<Longrightarrow> fmap_of_list es = m"
  by (intro fmap_ext) (simp add: enumerates_def fmlookup_of_list)

lemma AddLabelsIfNeeded_spec:
  "smap_of (fst (AddLabelsIfNeeded l labels)) = smap_of l ++\<^sub>f labels"
  "\<not> snd (AddLabelsIfNeeded l labels) \<Longrightarrow> smap_of l ++\<^sub>f labels = smap_of l"
proof -
  let ?es = "go_range labels"
  have d: "distinct (map fst ?es)" and es: "fmap_of_list ?es = labels"
    using enumerates_go_range [of labels] by (auto simp: enumerates_def fmap_of_list_enumerates)
  show "smap_of (fst (AddLabelsIfNeeded l labels)) = smap_of l ++\<^sub>f labels"
    by (cases l) (simp_all add: AddLabelsIfNeeded_def fold_add_label [OF d] es smap_of_def)
  assume "\<not> snd (AddLabelsIfNeeded l labels)"
  then obtain m where l: "l = Some m" and same: "\<forall>(k, v) \<in> set ?es. fmlookup m k = Some v"
    by (cases l) (auto simp: AddLabelsIfNeeded_def fold_add_label [OF d])
  have "fmlookup (m ++\<^sub>f labels) k = fmlookup m k" for k
    using same enumerates_set [OF enumerates_go_range, of labels]
    by (cases "fmlookup labels k") (auto simp: fmlookup_dom_iff)
  then show "smap_of l ++\<^sub>f labels = smap_of l" by (simp add: l smap_of_def fmap_ext)
qed

lemma fold_remove_label:
  "fold (\<lambda>(k, v). remove_label_body k v) es (m, a) =
    (fmdrop_set (fst ` set es) m, a \<or> (\<exists>k \<in> fst ` set es. fmlookup m k \<noteq> None))"
proof (induction es arbitrary: m a)
  case (Cons e es)
  obtain k v where e: "e = (k, v)" by fastforce
  show ?case
  proof (cases "fmlookup m k")
    case None
    then have "fmdrop_set (insert k S) m = fmdrop_set S m" for S by (intro fmap_ext) auto
    with None Cons show ?thesis by (simp add: e remove_label_body_def)
  next
    case (Some v')
    have "fmdrop_set S (fmdrop k m) = fmdrop_set (insert k S) m" for S by (intro fmap_ext) auto
    with Some Cons show ?thesis by (simp add: e remove_label_body_def)
  qed
qed simp

lemma RemoveLabelsIfNeeded_spec:
  "smap_of (fst (RemoveLabelsIfNeeded l labels)) = fmdrop_set (fmdom' labels) (smap_of l)"
  "\<not> snd (RemoveLabelsIfNeeded l labels) \<Longrightarrow> fmdrop_set (fmdom' labels) (smap_of l) = smap_of l"
proof -
  have es: "fst ` set (go_range labels) = fmdom' labels"
    using enumerates_set [OF enumerates_go_range, of labels] by (force simp: fmlookup_dom'_iff image_iff)
  show "smap_of (fst (RemoveLabelsIfNeeded l labels)) = fmdrop_set (fmdom' labels) (smap_of l)"
    by (cases l) (simp_all add: RemoveLabelsIfNeeded_def fold_remove_label es smap_of_def)
  assume "\<not> snd (RemoveLabelsIfNeeded l labels)"
  then show "fmdrop_set (fmdom' labels) (smap_of l) = smap_of l"
    by (cases l) (auto simp: RemoveLabelsIfNeeded_def fold_remove_label es smap_of_def intro!: fmap_ext)
qed

section \<open>Specification\<close>

definition nfs_node :: "Node \<Rightarrow> bool" where
  "nfs_node x \<longleftrightarrow> fmlookup (smap_of (Labels x)) NFSNodeLabelKey = Some ''''"

text \<open>\<open>relabelled x m y\<close>: the node \<open>y\<close> is \<open>x\<close> with labels \<open>m\<close>, up to metadata the server owns.\<close>

definition relabelled :: "Node \<Rightarrow> smap \<Rightarrow> Node \<Rightarrow> bool" where
  "relabelled x m y \<longleftrightarrow> same_object (x\<lparr>Labels := Labels y\<rparr>) y \<and> smap_of (Labels y) = m \<and>
     DeletionTimestamp y = DeletionTimestamp x"

definition marked :: "Node \<Rightarrow> Node \<Rightarrow> bool" where
  "marked x y \<longleftrightarrow> relabelled x (fmupd NFSNodeLabelKey '''' (smap_of (Labels x))) y"

definition unmarked :: "Node \<Rightarrow> Node \<Rightarrow> bool" where
  "unmarked x y \<longleftrightarrow> relabelled x (fmdrop NFSNodeLabelKey (smap_of (Labels x))) y"

definition selector_of :: "NFSStorageClass \<Rightarrow> LabelSelector option" where
  "selector_of nsc = Option.bind (WorkloadNodes (Spec nsc)) NodeSelector"

text \<open>A node is wanted if a selector of some NFSStorageClass matches it; as soon as there is none, or one
  of them has no selector, the Linux nodes are wanted.\<close>

definition wanted :: "cluster \<Rightarrow> Node \<Rightarrow> bool" where
  "wanted c x \<longleftrightarrow>
     (if (\<exists>k nsc. nscs c k = Some nsc) \<and> (\<forall>k nsc. nscs c k = Some nsc \<longrightarrow> selector_of nsc \<noteq> None)
      then \<exists>k nsc s. nscs c k = Some nsc \<and> selector_of nsc = Some s \<and> selector_matches s (smap_of (Labels x))
      else selector_matches DefaultNodeSelector (smap_of (Labels x)))"

definition nfs_claim :: "PersistentVolumeClaim \<Rightarrow> bool" where
  "nfs_claim p \<longleftrightarrow> map_get (Annotations p) provisionerAnnotation = NFSStorageClassProvisioner"

definition uses_nfs :: "cluster \<Rightarrow> Pod \<Rightarrow> bool" where
  "uses_nfs c pod \<longleftrightarrow> (\<exists>v \<in> set (Volumes pod). \<exists>q p. PersistentVolumeClaim v = Some q \<and>
     pvcs c (Namespace pod, q) = Some p \<and> nfs_claim p)"

definition nfs_pod_on :: "cluster \<Rightarrow> string \<Rightarrow> bool" where
  "nfs_pod_on c n \<longleftrightarrow> (\<exists>k pod. pods c k = Some pod \<and> nss c ('''', Namespace pod) \<noteq> None \<and>
     NodeName pod = n \<and> uses_nfs c pod)"

definition pending_snapshot :: "cluster \<Rightarrow> bool" where
  "pending_snapshot c \<longleftrightarrow> (\<exists>k v q p. vss c k = Some v \<and> nss c ('''', Namespace v) \<noteq> None \<and>
     ReadyToUse v \<noteq> Some (Some True) \<and> SourcePVCName v = Some q \<and>
     pvcs c (Namespace v, q) = Some p \<and> nfs_claim p)"

definition pending_claim :: "cluster \<Rightarrow> bool" where
  "pending_claim c \<longleftrightarrow> (\<exists>k p. pvcs c k = Some p \<and> nss c ('''', Namespace p) \<noteq> None \<and>
     Phase p = ''Pending'' \<and> nfs_claim p)"

definition controller_busy :: "cluster \<Rightarrow> bool" where
  "controller_busy c \<longleftrightarrow> pending_snapshot c \<or> pending_claim c"

text \<open>The node that holds the controller's lease, or the empty name if no controller pod runs.\<close>

definition controller_node :: "cluster \<Rightarrow> string \<Rightarrow> string \<Rightarrow> bool" where
  "controller_node c ns n \<longleftrightarrow>
     (if \<exists>k p. pods c k = Some p \<and> Namespace p = ns \<and> CSIControllerLabel \<subseteq>\<^sub>f smap_of (Labels p)
      then \<exists>l. leases c (ns, csiNFSExternalSnapshotterLeaseName) = Some l \<and> HolderIdentity l = Some n
      else n = '''')"

definition protected :: "cluster \<Rightarrow> string \<Rightarrow> string \<Rightarrow> bool" where
  "protected c ns n \<longleftrightarrow> (controller_node c ns n \<and> controller_busy c) \<or> nfs_pod_on c n"

section \<open>Changes of nodes\<close>

definition nodes_rel :: "(key \<Rightarrow> Node \<Rightarrow> Node \<Rightarrow> bool) \<Rightarrow> cluster \<Rightarrow> cluster \<Rightarrow> bool" where
  "nodes_rel P c c' \<longleftrightarrow> c' = nodes_update (\<lambda>_. nodes c') c \<and> (\<forall>k. rel_option (P k) (nodes c k) (nodes c' k))"

lemma nodes_rel_refl: "(\<And>k x. P k x x) \<Longrightarrow> nodes_rel P c c"
  by (auto simp: nodes_rel_def intro: option.rel_refl)

lemma nodes_rel_trans:
  assumes "nodes_rel P c c1" and "nodes_rel Q c1 c2" and "\<And>k x y z. P k x y \<Longrightarrow> Q k y z \<Longrightarrow> R k x z"
  shows "nodes_rel R c c2"
proof -
  have "c2 = nodes_update (\<lambda>_. nodes c2) c"
    using assms(1,2) unfolding nodes_rel_def by (metis (no_types, lifting) cluster.surjective cluster.update_convs(6))
  moreover have "rel_option (R k) (nodes c k) (nodes c2 k)" for k
  proof -
    have "rel_option (P k) (nodes c k) (nodes c1 k)" "rel_option (Q k) (nodes c1 k) (nodes c2 k)"
      using assms(1,2) unfolding nodes_rel_def by blast+
    then show ?thesis
      by (cases "nodes c k"; cases "nodes c1 k"; cases "nodes c2 k") (auto intro: assms(3))
  qed
  ultimately show ?thesis by (simp add: nodes_rel_def)
qed

lemma nodes_rel_at:
  assumes "nodes_rel P c c'" and "nodes c k = Some x"
  obtains y where "nodes c' k = Some y" "P k x y"
proof -
  from assms have "rel_option (P k) (Some x) (nodes c' k)" unfolding nodes_rel_def by metis
  then show thesis using that by (cases "nodes c' k") auto
qed

lemma nodes_rel_mono: "nodes_rel P c c' \<Longrightarrow> (\<And>k x y. P k x y \<Longrightarrow> Q k x y) \<Longrightarrow> nodes_rel Q c c'"
  unfolding nodes_rel_def by (metis (mono_tags, lifting) option.rel_mono_strong)

lemma nodes_rel_update:
  assumes "nodes c k = Some x" and "R x y"
  shows "nodes_rel (\<lambda>k' x y. if k' = k then R x y else y = x) c (nodes_update (\<lambda>s. s(k := Some y)) c)"
  using assms by (auto simp: nodes_rel_def intro: option.rel_refl)

lemma nodes_rel_others:
  "nodes_rel P c c' \<Longrightarrow> nscs c' = nscs c \<and> nss c' = nss c \<and> pods c' = pods c \<and> leases c' = leases c \<and>
     pvcs c' = pvcs c \<and> vss c' = vss c"
  unfolding nodes_rel_def
  by (metis (no_types, lifting) cluster.select_convs cluster.surjective cluster.update_convs(6))

section \<open>Writing labels\<close>

text \<open>The common shape of the two attempts.\<close>

definition relabelAttempt ::
  "'w client \<Rightarrow> (smap option \<Rightarrow> smap option \<times> bool) \<Rightarrow> string \<Rightarrow> 'w \<Rightarrow> go_error option \<times> 'w" where
  "relabelAttempt cl g name w =
    (case Get (node_client cl) '''' name w of
       (Inl e, w) \<Rightarrow> (Some e, w)
     | (Inr x, w) \<Rightarrow>
         (if snd (g (Labels x))
          then (case Update (node_client cl) (x\<lparr>Labels := fst (g (Labels x))\<rparr>) w of ((err, _), w) \<Rightarrow> (err, w))
          else (None, w)))"

lemma attempts_relabel:
  "addLabelsAttempt cl n labels = relabelAttempt cl (\<lambda>l. AddLabelsIfNeeded l labels) n"
  "removeLabelsAttempt cl n labels = relabelAttempt cl (\<lambda>l. RemoveLabelsIfNeeded l labels) n"
  by (auto simp: fun_eq_iff addLabelsAttempt_def removeLabelsAttempt_def relabelAttempt_def Let_def
      split: prod.splits sum.splits)

definition alive :: "cluster \<Rightarrow> bool" where
  "alive c \<longleftrightarrow> (\<forall>k x. nodes c k = Some x \<longrightarrow> DeletionTimestamp x = None \<or> fins x \<noteq> [])"

lemma relabelled_refl: "relabelled x (smap_of (Labels x)) x"
  by (simp add: relabelled_def)

lemma relabelled_meta:
  assumes "relabelled x m y"
  shows "Name y = Name x" "fins y = fins x" "DeletionTimestamp y = DeletionTimestamp x"
  using assms same_object_meta [of "x\<lparr>Labels := Labels y\<rparr>" y]
  by (simp_all add: relabelled_def fins_def)

lemma nodes_rel_alive:
  assumes "nodes_rel P c c'" and "alive c" and "\<And>k x y. P k x y \<Longrightarrow> \<exists>m. relabelled x m y"
  shows "alive c'"
proof -
  have "DeletionTimestamp y = None \<or> fins y \<noteq> []" if "nodes c' k = Some y" for k y
  proof -
    from assms(1) have "rel_option (P k) (nodes c k) (nodes c' k)" unfolding nodes_rel_def by blast
    with that obtain x where x: "nodes c k = Some x" "P k x y" by (cases "nodes c k") auto
    with assms(2,3) relabelled_meta show ?thesis unfolding alive_def by metis
  qed
  then show ?thesis by (auto simp: alive_def)
qed

context kube_laws
begin

lemma attempt_conflict:
  assumes "relabelAttempt cl g n w = (Some (StatusError ''Conflict'' m), w')"
  shows "view w' = view w"
proof -
  obtain r w1 where g: "Get (node_client cl) '''' n w = (r, w1)" by fastforce
  note v1 = node.get_view [OF g]
  show ?thesis
  proof (cases r)
    case (Inr x)
    obtain e x' w2 where u: "Update (node_client cl) (x\<lparr>Labels := fst (g (Labels x))\<rparr>) w1 = ((e, x'), w2)"
      by (metis surj_pair)
    from assms g Inr u v1 node.update_conflict [of _ w1 m x' w2] show ?thesis
      by (auto simp: relabelAttempt_def split: if_splits)
  qed (use assms g v1 in \<open>auto simp: relabelAttempt_def\<close>)
qed

lemma attempt_ok:
  assumes att: "relabelAttempt cl g n w = (None, w')" and stored: "nodes (view w) ('''', n) = Some x"
    and alive: "DeletionTimestamp x = None \<or> fins x \<noteq> []"
    and skip: "\<And>l. \<not> snd (g l) \<Longrightarrow> smap_of (fst (g l)) = smap_of l"
  shows "\<exists>y. relabelled x (smap_of (fst (g (Labels x)))) y \<and>
    view w' = nodes_update (\<lambda>s. s(('''', n) := Some y)) (view w)"
proof -
  obtain r w1 where g: "Get (node_client cl) '''' n w = (r, w1)" by fastforce
  note v1 = node.get_view [OF g]
  from att g obtain x0 where r: "r = Inr x0" by (cases r) (auto simp: relabelAttempt_def)
  with node.get_ok [of "''''" n w x0 w1] g stored have x0: "x0 = x" by simp
  show ?thesis
  proof (cases "snd (g (Labels x))")
    case True
    let ?x = "x\<lparr>Labels := fst (g (Labels x))\<rparr>"
    obtain e y w2 where u: "Update (node_client cl) ?x w1 = ((e, y), w2)" by (metis surj_pair)
    with att g r x0 True have u: "Update (node_client cl) ?x w1 = ((None, y), w')"
      by (auto simp: relabelAttempt_def)
    have k: "ckey ?x = ('''', n)" using node.keyed [OF stored] by (simp add: ckey_def)
    from node.update_ok [OF u] v1 stored k have same: "same_object (wire_meta ?x) y"
      and dt: "DeletionTimestamp y = DeletionTimestamp x"
      and v: "view w' = nodes_update (\<lambda>s. s(('''', n) := (if DeletionTimestamp x \<noteq> None \<and> fins y = [] then None else Some y))) (view w)"
      by auto
    have "fins y = fins ?x" using same_object_meta(6) [OF same] by simp
    then have "fins y = fins x" by (simp add: fins_def)
    moreover have "relabelled x (smap_of (fst (g (Labels x)))) y"
    proof -
      have w: "wire_meta ?x = x\<lparr>Labels := omit_map (fst (g (Labels x)))\<rparr>"
      proof -
        have "wire_meta ?x = (wire_meta x)\<lparr>Labels := omit_map (fst (g (Labels x)))\<rparr>" by (simp add: wire_meta_def)
        with node.stored_wire [OF stored] show ?thesis by simp
      qed
      have "Labels y = omit_map (fst (g (Labels x)))" using same_object_meta(3) [OF same] by (simp add: w)
      with same dt show ?thesis by (simp add: relabelled_def w)
    qed
    ultimately show ?thesis using v alive by auto
  next
    case False
    with att g r x0 have "w' = w1" by (auto simp: relabelAttempt_def)
    moreover have "relabelled x (smap_of (fst (g (Labels x)))) x" using skip [OF False] relabelled_refl by simp
    ultimately show ?thesis using v1 stored by (auto simp: fun_upd_idem)
  qed
qed

lemma retried_ok:
  assumes "retried (relabelAttempt cl g n) w r w'" and "r = None"
    and "nodes (view w) ('''', n) = Some x" and "DeletionTimestamp x = None \<or> fins x \<noteq> []"
    and "\<And>l. \<not> snd (g l) \<Longrightarrow> smap_of (fst (g l)) = smap_of l"
  shows "\<exists>y. relabelled x (smap_of (fst (g (Labels x)))) y \<and>
    view w' = nodes_update (\<lambda>s. s(('''', n) := Some y)) (view w)"
  using assms
proof (induction rule: retried.induct)
  case (last_run w r w')
  then show ?case using attempt_ok by blast
next
  case (another_run w m w1 r w')
  with attempt_conflict [OF another_run(1)] show ?case by simp
qed

lemma attempt_writes:
  assumes "relabelAttempt cl g n w = (r, w')"
  shows "\<exists>s. view w' = nodes_update (\<lambda>_. s) (view w)"
proof -
  obtain r1 w1 where g: "Get (node_client cl) '''' n w = (r1, w1)" by fastforce
  note v1 = node.get_view [OF g]
  have self: "\<exists>s. c = nodes_update (\<lambda>_. s) c" for c :: cluster by (rule exI [of _ "nodes c"]) simp
  show ?thesis
  proof (cases r1)
    case (Inr x)
    obtain e x' w2 where u: "Update (node_client cl) (x\<lparr>Labels := fst (g (Labels x))\<rparr>) w1 = ((e, x'), w2)"
      by (metis surj_pair)
    from node.update_frame [OF u] obtain v where
      "view w2 = nodes_update (\<lambda>s. s(ckey (x\<lparr>Labels := fst (g (Labels x))\<rparr>) := v)) (view w1)" by blast
    then have "view w2 = nodes_update (\<lambda>_. nodes (view w2)) (view w)" using v1 by simp
    with assms g Inr u v1 self [of "view w"] show ?thesis
      by (auto simp: relabelAttempt_def split: if_splits)
  qed (use assms g v1 self in \<open>auto simp: relabelAttempt_def\<close>)
qed

lemma retried_writes:
  assumes "retried (relabelAttempt cl g n) w r w'"
  shows "\<exists>s. view w' = nodes_update (\<lambda>_. s) (view w)"
  using assms
proof (induction rule: retried.induct)
  case (last_run w r w')
  then show ?case by (rule attempt_writes)
next
  case (another_run w m w1 r w')
  with attempt_conflict [OF another_run(1)] show ?case by simp
qed

lemma AddLabelsToNode_ok:
  assumes ok: "AddLabelsToNode cl node labels w = (None, w')" and stored: "nodes (view w) (ckey node) = Some node"
    and alive: "alive (view w)"
  shows "\<exists>y. relabelled node (smap_of (Labels node) ++\<^sub>f labels) y \<and>
    view w' = nodes_update (\<lambda>s. s(ckey node := Some y)) (view w)"
proof (cases "snd (AddLabelsIfNeeded (Labels node) labels)")
  case True
  with ok have "RetryOnConflict cl (relabelAttempt cl (\<lambda>l. AddLabelsIfNeeded l labels) (Name node)) w = (None, w')"
    by (auto simp: AddLabelsToNode_def attempts_relabel split: prod.splits)
  from retried_ok [OF retry [OF this], of node] stored alive AddLabelsIfNeeded_spec show ?thesis
    by (auto simp: ckey_def alive_def)
next
  case False
  with ok have "w' = w" by (auto simp: AddLabelsToNode_def split: prod.splits)
  with AddLabelsIfNeeded_spec(2) [OF False] relabelled_refl [of node] stored show ?thesis
    by (auto simp: fun_upd_idem)
qed

lemma RemoveLabelsFromNode_ok:
  assumes ok: "RemoveLabelsFromNode cl node labels w = (None, w')" and stored: "nodes (view w) (ckey node) = Some node"
    and alive: "alive (view w)"
  shows "\<exists>y. relabelled node (fmdrop_set (fmdom' labels) (smap_of (Labels node))) y \<and>
    view w' = nodes_update (\<lambda>s. s(ckey node := Some y)) (view w)"
proof (cases "snd (RemoveLabelsIfNeeded (Labels node) labels)")
  case True
  with ok have "RetryOnConflict cl (relabelAttempt cl (\<lambda>l. RemoveLabelsIfNeeded l labels) (Name node)) w = (None, w')"
    by (auto simp: RemoveLabelsFromNode_def attempts_relabel split: prod.splits)
  from retried_ok [OF retry [OF this], of node] stored alive RemoveLabelsIfNeeded_spec show ?thesis
    by (auto simp: ckey_def alive_def)
next
  case False
  with ok have "w' = w" by (auto simp: RemoveLabelsFromNode_def split: prod.splits)
  with RemoveLabelsIfNeeded_spec(2) [OF False] relabelled_refl [of node] stored show ?thesis
    by (auto simp: fun_upd_idem)
qed

end

section \<open>Choosing nodes\<close>

lemma collectSelectors_spec:
  "collectSelectors items acc =
     (if \<forall>n \<in> set items. selector_of n \<noteq> None then acc @ map (the \<circ> selector_of) items else [DefaultNodeSelector])"
  by (induction items arbitrary: acc) (auto simp: selector_of_def split: option.splits)

lemma GetNodeSelector_spec:
  "set (GetNodeSelectorFromNFSStorageClasses items) =
     (if items \<noteq> [] \<and> (\<forall>n \<in> set items. selector_of n \<noteq> None) then (the \<circ> selector_of) ` set items
      else {DefaultNodeSelector})"
  by (auto simp: GetNodeSelectorFromNFSStorageClasses_def collectSelectors_spec)

lemma addNewNodes_spec:
  assumes "\<And>x y. x \<in> set xs \<union> set acc \<Longrightarrow> y \<in> set xs \<union> set acc \<Longrightarrow> Name x = Name y \<Longrightarrow> x = y"
    and "distinct (map Name acc)"
  shows "set (addNewNodes xs acc) = set acc \<union> set xs \<and> distinct (map Name (addNewNodes xs acc))"
  using assms
proof (induction xs arbitrary: acc)
  case (Cons x xs)
  let ?acc = "if Name x \<notin> Name ` set acc then acc @ [x] else acc"
  have set: "set ?acc = insert x (set acc)"
  proof (cases "Name x \<in> Name ` set acc")
    case True
    then obtain y where y: "y \<in> set acc" "Name x = Name y" by blast
    have "x = y" by (rule Cons.prems(1)) (use y in simp_all)
    with y True show ?thesis by (simp add: insert_absorb)
  qed simp
  have "set (addNewNodes xs ?acc) = set ?acc \<union> set xs \<and> distinct (map Name (addNewNodes xs ?acc))"
  proof (rule Cons.IH)
    show "x' = y" if "x' \<in> set xs \<union> set ?acc" "y \<in> set xs \<union> set ?acc" "Name x' = Name y" for x' y
      using Cons.prems(1) that unfolding set by auto
    show "distinct (map Name ?acc)" using Cons.prems(2) by auto
  qed
  then show ?case unfolding set by simp
qed simp

lemma ContainsNode_iff: "ContainsNode xs n \<longleftrightarrow> n \<in> Name ` set xs"
  by (induction xs) auto

lemma DiffNodeLists_eq: "DiffNodeLists xs ys = filter (\<lambda>x. Name x \<notin> Name ` set ys) xs"
  by (induction xs) (simp_all add: ContainsNode_iff)

locale node_env = w: kube_laws cl view + r: kube_laws cw view + lib_laws L
  for cl :: "'w client" and cw :: "'w client" and view :: "'w \<Rightarrow> cluster" and L :: lib

interpretation memory_nodes: node_env mem_client mem_client mem_view std_lib
  by (rule node_env.intro) unfold_locales

context node_env
begin

lemma selectNodes_ok:
  assumes "selectNodes L cl sels acc w = (Inr xs, w')"
    and "\<And>x. x \<in> set acc \<Longrightarrow> nodes (view w) (ckey x) = Some x" and "distinct (map Name acc)"
  shows "view w' = view w \<and> distinct (map Name xs) \<and>
    (\<forall>x. x \<in> set xs \<longleftrightarrow> x \<in> set acc \<or> (nodes (view w) (ckey x) = Some x \<and>
      (\<exists>s \<in> set sels. selector_matches s (smap_of (Labels x)))))"
  using assms
proof (induction sels arbitrary: acc w)
  case (Cons s sels)
  from Cons.prems(1) obtain P where P: "LabelSelectorAsSelector L s = Inr P"
    by (cases "LabelSelectorAsSelector L s") auto
  obtain l w1 where l: "List (node_client cl) [MatchingSelector P] w = (l, w1)" by fastforce
  from Cons.prems(1) P l obtain ys where ys: "l = Inr ys" by (cases l) auto
  have v1: "view w1 = view w" using w.node.list_view [OF l] .
  have mem: "y \<in> set ys \<longleftrightarrow> nodes (view w) (ckey y) = Some y \<and> selector_matches s (smap_of (Labels y))" for y
    using w.node.list_mem [OF l [unfolded ys], of y] AsSelector_Inr_matches [OF P] by simp
  have uniq: "x = y" if "x \<in> set ys \<union> set acc" "y \<in> set ys \<union> set acc" "Name x = Name y" for x y
  proof -
    have "nodes (view w) (ckey x) = Some x" "nodes (view w) (ckey y) = Some y"
      using that(1,2) mem Cons.prems(2) by blast+
    with that(3) show ?thesis by (simp add: ckey_def)
  qed
  note new = addNewNodes_spec [OF uniq Cons.prems(3)]
  have "selectNodes L cl sels (addNewNodes ys acc) w1 = (Inr xs, w')"
    using Cons.prems(1) P l ys by simp
  moreover have "nodes (view w1) (ckey x) = Some x" if "x \<in> set (addNewNodes ys acc)" for x
    using that new mem Cons.prems(2) v1 by auto
  ultimately have IH: "view w' = view w1 \<and> distinct (map Name xs) \<and>
    (\<forall>x. x \<in> set xs \<longleftrightarrow> x \<in> set (addNewNodes ys acc) \<or> (nodes (view w1) (ckey x) = Some x \<and>
      (\<exists>s \<in> set sels. selector_matches s (smap_of (Labels x)))))"
    using new by (intro Cons.IH) auto
  have "x \<in> set (addNewNodes ys acc) \<longleftrightarrow> x \<in> set acc \<or>
      nodes (view w) (ckey x) = Some x \<and> selector_matches s (smap_of (Labels x))" for x
    using new mem by blast
  with IH show ?case unfolding v1 by (metis list.set_intros set_ConsD)
qed auto

lemma selected_wanted:
  assumes list: "List (nsc_client cl) [] w = (Inr nscList, w1)"
    and sel: "GetNodesBySelectorList L cl (GetNodeSelectorFromNFSStorageClasses nscList) w1 = (Inr xs, w2)"
  shows "view w2 = view w \<and> distinct (map Name xs) \<and>
    (\<forall>x. x \<in> set xs \<longleftrightarrow> nodes (view w) (ckey x) = Some x \<and> wanted (view w) x)"
proof -
  have v1: "view w1 = view w" using w.nsc.list_view [OF list] .
  have mem: "n \<in> set nscList \<longleftrightarrow> nscs (view w) (ckey n) = Some n" for n
    using w.nsc.list_mem [OF list, of n] by simp
  have stored: "nscs (view w) k = Some n \<Longrightarrow> n \<in> set nscList" for k n
    using mem w.nsc.keyed [of w k n] by simp
  have ne: "nscList \<noteq> [] \<longleftrightarrow> (\<exists>k n. nscs (view w) k = Some n)"
    using mem stored by (metis list.set_intros(1) neq_Nil_conv empty_iff list.set(1))
  have all: "(\<forall>n \<in> set nscList. selector_of n \<noteq> None) \<longleftrightarrow> (\<forall>k n. nscs (view w) k = Some n \<longrightarrow> selector_of n \<noteq> None)"
    using mem stored by blast
  have "(\<exists>s \<in> set (GetNodeSelectorFromNFSStorageClasses nscList). selector_matches s (smap_of (Labels x))) \<longleftrightarrow> wanted (view w) x" for x
  proof (cases "nscList \<noteq> [] \<and> (\<forall>n \<in> set nscList. selector_of n \<noteq> None)")
    case True
    then have sels: "set (GetNodeSelectorFromNFSStorageClasses nscList) = (the \<circ> selector_of) ` set nscList"
      by (simp add: GetNodeSelector_spec)
    have "wanted (view w) x \<longleftrightarrow> (\<exists>k nsc s. nscs (view w) k = Some nsc \<and> selector_of nsc = Some s \<and> selector_matches s (smap_of (Labels x)))"
      using True unfolding ne all wanted_def by simp
    also have "\<dots> \<longleftrightarrow> (\<exists>n \<in> set nscList. selector_matches (the (selector_of n)) (smap_of (Labels x)))"
      using True mem stored by (metis option.sel option.collapse)
    finally show ?thesis unfolding sels by simp
  next
    case False
    have "wanted (view w) x \<longleftrightarrow> selector_matches DefaultNodeSelector (smap_of (Labels x))"
      using False unfolding ne all wanted_def by argo
    moreover have "set (GetNodeSelectorFromNFSStorageClasses nscList) = {DefaultNodeSelector}"
      unfolding GetNodeSelector_spec using False by argo
    ultimately show ?thesis by simp
  qed
  with selectNodes_ok [OF sel [unfolded GetNodesBySelectorList_def]] v1 show ?thesis by simp
qed

end

section \<open>Reading workloads\<close>

definition has_pods :: "podsMap \<Rightarrow> string \<Rightarrow> bool" where
  "has_pods m n \<longleftrightarrow> (case fmlookup m n of None \<Rightarrow> False | Some ps \<Rightarrow> length ps > 0)"

lemma has_pods_append: "has_pods (appendPod m pod) n \<longleftrightarrow> has_pods m n \<or> NodeName pod = n"
  by (auto simp: has_pods_def appendPod_def split: option.splits)

context node_env
begin

lemma podUsesNFS_ok:
  assumes "podUsesNFS cw pod vs w = (Inr b, w')"
  shows "view w' = view w \<and> (b \<longleftrightarrow> (\<exists>v \<in> set vs. \<exists>q p. PersistentVolumeClaim v = Some q \<and>
    pvcs (view w) (Namespace pod, q) = Some p \<and> nfs_claim p))"
  using assms
proof (induction vs arbitrary: w)
  case (Cons v vs)
  show ?case
  proof (cases "PersistentVolumeClaim v")
    case None
    with Cons show ?thesis by simp
  next
    case (Some q)
    obtain g w1 where g: "Get (pvc_client cw) (Namespace pod) q w = (g, w1)" by fastforce
    with Cons.prems Some obtain p where p: "g = Inr p" by (cases g) auto
    note view = r.pvc.get_view [OF g] and stored = r.pvc.get_ok [OF g [unfolded p]]
    show ?thesis
    proof (cases "nfs_claim p")
      case True
      with Cons.prems Some g p have "b" "w' = w1" by (auto simp: nfs_claim_def)
      with view stored True Some show ?thesis by auto
    next
      case False
      with Cons.prems Some g p have "podUsesNFS cw pod vs w1 = (Inr b, w')" by (simp add: nfs_claim_def)
      from Cons.IH [OF this] view stored False Some show ?thesis by auto
    qed
  qed
qed simp

lemma collectPods_ok:
  assumes "collectPods cw ps m w = (Inr m', w')"
  shows "view w' = view w \<and>
    (\<forall>n. has_pods m' n \<longleftrightarrow> has_pods m n \<or> (\<exists>pod \<in> set ps. NodeName pod = n \<and> uses_nfs (view w) pod))"
  using assms
proof (induction ps arbitrary: m w)
  case (Cons pod ps)
  obtain u w1 where u: "podUsesNFS cw pod (Volumes pod) w = (u, w1)" by fastforce
  with Cons.prems obtain b where b: "u = Inr b" by (cases u) auto
  from podUsesNFS_ok [OF u [unfolded b]] have v: "view w1 = view w" and b_iff: "b \<longleftrightarrow> uses_nfs (view w) pod"
    by (simp_all add: uses_nfs_def)
  from Cons.prems u b have "collectPods cw ps (if b then appendPod m pod else m) w1 = (Inr m', w')" by simp
  from Cons.IH [OF this] v b_iff show ?case by (auto simp: has_pods_append)
qed simp

lemma collectNamespacePods_ok:
  assumes "collectNamespacePods cw nsl m w = (Inr m', w')" and "\<And>n. n \<in> set nsl \<Longrightarrow> Name n \<noteq> ''''"
  shows "view w' = view w \<and>
    (\<forall>n. has_pods m' n \<longleftrightarrow> has_pods m n \<or> (\<exists>k pod. pods (view w) k = Some pod \<and>
      Namespace pod \<in> Name ` set nsl \<and> NodeName pod = n \<and> uses_nfs (view w) pod))"
  using assms
proof (induction nsl arbitrary: m w)
  case (Cons ns nsl)
  obtain l w1 where l: "List (pod_client cw) [InNamespace (Name ns)] w = (l, w1)" by fastforce
  with Cons.prems(1) obtain ps where ps: "l = Inr ps" by (cases l) auto
  have v1: "view w1 = view w" using r.pod.list_view [OF l] .
  have mem: "pod \<in> set ps \<longleftrightarrow> pods (view w) (nkey pod) = Some pod \<and> Namespace pod = Name ns" for pod
    using r.pod.list_mem [OF l [unfolded ps], of pod] Cons.prems(2) by simp
  obtain c w2 where c: "collectPods cw ps m w1 = (c, w2)" by fastforce
  with Cons.prems(1) l ps obtain m1 where m1: "c = Inr m1" by (cases c) auto
  from collectPods_ok [OF c [unfolded m1]] v1 have v2: "view w2 = view w" and
    here: "has_pods m1 n \<longleftrightarrow> has_pods m n \<or> (\<exists>pod \<in> set ps. NodeName pod = n \<and> uses_nfs (view w) pod)" for n
    by auto
  from Cons.prems(1) l ps c m1 have "collectNamespacePods cw nsl m1 w2 = (Inr m', w')" by simp
  from Cons.IH [OF this] Cons.prems(2) v2 have v: "view w' = view w" and
    rest: "has_pods m' n \<longleftrightarrow> has_pods m1 n \<or> (\<exists>k pod. pods (view w) k = Some pod \<and>
      Namespace pod \<in> Name ` set nsl \<and> NodeName pod = n \<and> uses_nfs (view w) pod)" for n
    by auto
  have ex: "(\<exists>pod \<in> set ps. P pod) \<longleftrightarrow> (\<exists>k pod. pods (view w) k = Some pod \<and> Namespace pod = Name ns \<and> P pod)" for P
    using mem r.pod.keyed by (metis (no_types, lifting))
  have "has_pods m' n \<longleftrightarrow> has_pods m n \<or> (\<exists>k pod. pods (view w) k = Some pod \<and>
      Namespace pod \<in> Name ` set (ns # nsl) \<and> NodeName pod = n \<and> uses_nfs (view w) pod)" for n
    unfolding rest here ex list.set image_insert insert_iff by blast
  with v show ?case by blast
qed simp

lemma namespace_names:
  assumes "List (ns_client cl) [] w = (Inr nsl, w1)"
  shows "n \<in> Name ` set nsl \<longleftrightarrow> nss (view w) ('''', n) \<noteq> None"
proof -
  have "nss (view w) ('''', n) = Some x \<Longrightarrow> x \<in> set nsl \<and> Name x = n" for x
    using w.ns.list_mem [OF assms, of x] w.ns.keyed [of w "('''', n)" x] by (simp add: ckey_def)
  moreover have "x \<in> set nsl \<Longrightarrow> nss (view w) ('''', Name x) = Some x" for x
    using w.ns.list_mem [OF assms, of x] by (simp add: ckey_def)
  ultimately show ?thesis by fastforce
qed

lemma pods_map_ok:
  assumes "GetPodsMapWithNFSVolume cw nsl w = (Inr m, w')" and "\<And>n. n \<in> set nsl \<Longrightarrow> Name n \<noteq> ''''"
    and "\<And>n. n \<in> Name ` set nsl \<longleftrightarrow> nss (view w) ('''', n) \<noteq> None"
  shows "view w' = view w \<and> (\<forall>n. has_pods m n \<longleftrightarrow> nfs_pod_on (view w) n)"
proof -
  have "\<not> has_pods fmempty n" for n by (simp add: has_pods_def)
  with collectNamespacePods_ok [OF assms(1) [unfolded GetPodsMapWithNFSVolume_def] assms(2)] show ?thesis
    unfolding assms(3) nfs_pod_on_def by (auto simp del: not_None_eq)
qed

lemma controller_name_ok:
  assumes "GetCCSIControllerNodeName cl ns csiNFSExternalSnapshotterLeaseName CSIControllerLabel w = (Inr n, w')"
    and "ns \<noteq> ''''"
  shows "view w' = view w \<and> (\<forall>m. controller_node (view w) ns m \<longleftrightarrow> m = n)"
proof -
  obtain l w1 where l: "List (pod_client cl) [InNamespace ns, MatchingLabels CSIControllerLabel] w = (l, w1)" by fastforce
  with assms(1) obtain ps where ps: "l = Inr ps"
    by (cases l) (auto simp: GetCCSIControllerNodeName_def)
  have v1: "view w1 = view w" using w.pod.list_view [OF l] .
  have mem: "p \<in> set ps \<longleftrightarrow> pods (view w) (nkey p) = Some p \<and> Namespace p = ns \<and> CSIControllerLabel \<subseteq>\<^sub>f smap_of (Labels p)" for p
    using w.pod.list_mem [OF l [unfolded ps], of p] assms(2) by simp
  have "ps \<noteq> [] \<longleftrightarrow> (\<exists>p. p \<in> set ps)" by (cases ps) auto
  then have ex: "ps \<noteq> [] \<longleftrightarrow> (\<exists>k p. pods (view w) k = Some p \<and> Namespace p = ns \<and> CSIControllerLabel \<subseteq>\<^sub>f smap_of (Labels p))"
    using mem w.pod.keyed by metis
  show ?thesis
  proof (cases "ps = []")
    case True
    with assms(1) l ps have "n = ''''" "w' = w1" by (auto simp: GetCCSIControllerNodeName_def)
    with True v1 ex show ?thesis unfolding controller_node_def by auto
  next
    case False
    obtain g w2 where g: "Get (lease_client cl) ns csiNFSExternalSnapshotterLeaseName w1 = (g, w2)" by fastforce
    from assms(1) l ps False g obtain le where le: "g = Inr le" "HolderIdentity le = Some n" "w' = w2"
      by (cases g) (auto simp: GetCCSIControllerNodeName_def split: option.splits)
    from w.lease.get_ok [OF g [unfolded le(1)]] w.lease.get_view [OF g] v1 le False ex show ?thesis
      unfolding controller_node_def by auto
  qed
qed

lemma collectSnapshots_ok:
  assumes "collectSnapshots cw prov xs acc w = (Inr ys, w')"
  shows "view w' = view w \<and> (ys \<noteq> [] \<longleftrightarrow> acc \<noteq> [] \<or> (\<exists>v \<in> set xs. ReadyToUse v \<noteq> Some (Some True) \<and>
    (\<exists>q p. SourcePVCName v = Some q \<and> pvcs (view w) (Namespace v, q) = Some p \<and>
      map_get (Annotations p) provisionerAnnotation = prov)))"
  using assms
proof (induction xs arbitrary: acc w)
  case (Cons v xs)
  show ?case
  proof (cases "ReadyToUse v = Some (Some True) \<or> SourcePVCName v = None")
    case True
    with Cons.prems have "collectSnapshots cw prov xs acc w = (Inr ys, w')"
      by (auto split: if_splits)
    from Cons.IH [OF this] True show ?thesis by auto
  next
    case False
    then obtain q where q: "ReadyToUse v \<noteq> Some (Some True)" "SourcePVCName v = Some q" by auto
    obtain g w1 where g: "Get (pvc_client cw) (Namespace v) q w = (g, w1)" by fastforce
    with Cons.prems q obtain p where p: "g = Inr p" by (cases g) auto
    note view = r.pvc.get_view [OF g] and stored = r.pvc.get_ok [OF g [unfolded p]]
    from Cons.prems q g p have "collectSnapshots cw prov xs
        (if map_get (Annotations p) provisionerAnnotation = prov then acc @ [v] else acc) w1 = (Inr ys, w')"
      by simp
    from Cons.IH [OF this] view stored q show ?thesis by auto
  qed
qed simp

lemma collectClaims_ne:
  "collectClaims prov xs acc \<noteq> [] \<longleftrightarrow> acc \<noteq> [] \<or> (\<exists>p \<in> set xs. Phase p = ''Pending'' \<and>
     map_get (Annotations p) provisionerAnnotation = prov)"
  by (induction xs arbitrary: acc) auto

lemma collectNamespaceSnapshots_ok:
  assumes "collectNamespaceSnapshots cw prov nsl acc w = (Inr ys, w')" and "\<And>n. n \<in> set nsl \<Longrightarrow> Name n \<noteq> ''''"
  shows "view w' = view w \<and> (ys \<noteq> [] \<longleftrightarrow> acc \<noteq> [] \<or> (\<exists>k v. vss (view w) k = Some v \<and>
    Namespace v \<in> Name ` set nsl \<and> ReadyToUse v \<noteq> Some (Some True) \<and>
    (\<exists>q p. SourcePVCName v = Some q \<and> pvcs (view w) (Namespace v, q) = Some p \<and>
      map_get (Annotations p) provisionerAnnotation = prov)))"
  using assms
proof (induction nsl arbitrary: acc w)
  case (Cons ns nsl)
  obtain l w1 where l: "List (vs_client cw) [InNamespace (Name ns)] w = (l, w1)" by fastforce
  with Cons.prems(1) obtain xs where xs: "l = Inr xs" by (cases l) auto
  have v1: "view w1 = view w" using r.vs.list_view [OF l] .
  have mem: "v \<in> set xs \<longleftrightarrow> vss (view w) (nkey v) = Some v \<and> Namespace v = Name ns" for v
    using r.vs.list_mem [OF l [unfolded xs], of v] Cons.prems(2) by simp
  have ex: "(\<exists>v \<in> set xs. P v) \<longleftrightarrow> (\<exists>k v. vss (view w) k = Some v \<and> Namespace v = Name ns \<and> P v)" for P
    using mem r.vs.keyed by (metis (no_types, lifting))
  obtain c w2 where c: "collectSnapshots cw prov xs acc w1 = (c, w2)" by fastforce
  with Cons.prems(1) l xs obtain acc1 where acc1: "c = Inr acc1" by (cases c) auto
  note here = collectSnapshots_ok [OF c [unfolded acc1], unfolded v1 ex]
  from Cons.prems(1) l xs c acc1 have "collectNamespaceSnapshots cw prov nsl acc1 w2 = (Inr ys, w')" by simp
  note rest = Cons.IH [OF this Cons.prems(2)]
  show ?case
    using here rest unfolding list.set image_insert insert_iff by (simp, blast)
qed simp

lemma collectNamespaceClaims_ok:
  assumes "collectNamespaceClaims cw prov nsl acc w = (Inr ys, w')" and "\<And>n. n \<in> set nsl \<Longrightarrow> Name n \<noteq> ''''"
  shows "view w' = view w \<and> (ys \<noteq> [] \<longleftrightarrow> acc \<noteq> [] \<or> (\<exists>k p. pvcs (view w) k = Some p \<and>
    Namespace p \<in> Name ` set nsl \<and> Phase p = ''Pending'' \<and>
    map_get (Annotations p) provisionerAnnotation = prov))"
  using assms
proof (induction nsl arbitrary: acc w)
  case (Cons ns nsl)
  obtain l w1 where l: "List (pvc_client cw) [InNamespace (Name ns)] w = (l, w1)" by fastforce
  with Cons.prems(1) obtain xs where xs: "l = Inr xs" by (cases l) auto
  have v1: "view w1 = view w" using r.pvc.list_view [OF l] .
  have mem: "p \<in> set xs \<longleftrightarrow> pvcs (view w) (nkey p) = Some p \<and> Namespace p = Name ns" for p
    using r.pvc.list_mem [OF l [unfolded xs], of p] Cons.prems(2) by simp
  have ex: "(\<exists>p \<in> set xs. P p) \<longleftrightarrow> (\<exists>k p. pvcs (view w) k = Some p \<and> Namespace p = Name ns \<and> P p)" for P
    using mem r.pvc.keyed by (metis (no_types, lifting))
  note here = collectClaims_ne [of prov xs acc, unfolded ex]
  from Cons.prems(1) l xs have "collectNamespaceClaims cw prov nsl (collectClaims prov xs acc) w1 = (Inr ys, w')" by simp
  note rest = Cons.IH [OF this Cons.prems(2), unfolded v1]
  show ?case
    using here rest unfolding list.set image_insert insert_iff by (simp, blast)
qed simp

lemma removable_ok:
  assumes "IsCSIControllerRemovable cw NFSStorageClassProvisioner nsl w = (Inr b, w')"
    and names: "\<And>n. n \<in> set nsl \<Longrightarrow> Name n \<noteq> ''''"
    and nss: "\<And>n. n \<in> Name ` set nsl \<longleftrightarrow> nss (view w) ('''', n) \<noteq> None"
  shows "view w' = view w \<and> (b \<longleftrightarrow> \<not> controller_busy (view w))"
proof -
  obtain s w1 where s: "GetPendingVolumeSnapshots cw NFSStorageClassProvisioner nsl w = (s, w1)" by fastforce
  with assms(1) obtain vs where vs: "s = Inr vs" by (cases s) (auto simp: IsCSIControllerRemovable_def)
  from collectNamespaceSnapshots_ok [OF s [unfolded vs GetPendingVolumeSnapshots_def] names]
  have v1: "view w1 = view w" and snap: "vs \<noteq> [] \<longleftrightarrow> pending_snapshot (view w)"
    unfolding nss pending_snapshot_def nfs_claim_def by blast+
  show ?thesis
  proof (cases "vs = []")
    case False
    with assms(1) s vs have "b = False" "w' = w1" by (auto simp: IsCSIControllerRemovable_def)
    with False snap v1 show ?thesis by (simp add: controller_busy_def)
  next
    case True
    obtain c w2 where c: "GetPendingPersistentVolumeClaims cw NFSStorageClassProvisioner nsl w1 = (c, w2)" by fastforce
    with assms(1) s vs True obtain ps where ps: "c = Inr ps" by (cases c) (auto simp: IsCSIControllerRemovable_def)
    from collectNamespaceClaims_ok [OF c [unfolded ps GetPendingPersistentVolumeClaims_def] names]
    have v2: "view w2 = view w" and claim: "ps \<noteq> [] \<longleftrightarrow> pending_claim (view w)"
      unfolding v1 nss pending_claim_def nfs_claim_def by blast+
    from assms(1) s vs True c ps have "b = (ps = [])" "w' = w2"
      by (auto simp: IsCSIControllerRemovable_def split: if_splits)
    with True snap claim v2 show ?thesis by (auto simp: controller_busy_def)
  qed
qed

end

end
