(* ===== verification/Node_Properties.thy ===== *)
theory Node_Properties
  imports Node_Effects Reconcile_Effects
begin

text \<open>
  The outcome of \<open>ReconcileNodeSelector\<close> and \<open>ReconcileModulePods\<close>, as properties with witnesses that run
  them against the in-memory API server.
\<close>

section \<open>The label loops\<close>

lemma add_nfs_label: "m ++\<^sub>f nfsNodeLabels = fmupd NFSNodeLabelKey '''' m"
  by (simp add: nfsNodeLabels_def)

lemma drop_nfs_label: "fmdrop_set (fmdom' nfsNodeLabels) m = fmdrop NFSNodeLabelKey m"
  by (simp add: nfsNodeLabels_def fmdrop_set_single)

lemma nodes_rel_specs:
  assumes "nodes_rel P c c'"
  shows "controller_busy c' = controller_busy c" "nfs_pod_on c' = nfs_pod_on c"
    "controller_node c' = controller_node c" "nss c' = nss c"
proof -
  have eq: "nss c' = nss c" "pods c' = pods c" "leases c' = leases c" "pvcs c' = pvcs c" "vss c' = vss c"
    using nodes_rel_others [OF assms] by blast+
  show "controller_busy c' = controller_busy c" "nfs_pod_on c' = nfs_pod_on c"
    "controller_node c' = controller_node c" "nss c' = nss c"
    unfolding fun_eq_iff controller_busy_def pending_snapshot_def pending_claim_def nfs_pod_on_def
      uses_nfs_def controller_node_def eq by blast+
qed

lemma nodes_rel_kept:
  assumes "nodes_rel P c c'" and "nodes c k = Some x" and "\<And>y. P k x y \<Longrightarrow> y = x"
  shows "nodes c' k = Some x"
proof -
  from assms(1) have "rel_option (P k) (nodes c k) (nodes c' k)" unfolding nodes_rel_def by blast
  with assms(2,3) show ?thesis by (cases "nodes c' k") auto
qed

context node_env
begin

lemma addLabelsLoop_ok:
  assumes "addLabelsLoop cl xs w = (None, w')" and "distinct (map Name xs)"
    and "\<And>x. x \<in> set xs \<Longrightarrow> nodes (view w) (ckey x) = Some x" and "alive (view w)"
  shows "nodes_rel (\<lambda>k x y. if k \<in> ckey ` set xs then marked x y else y = x) (view w) (view w') \<and> alive (view w')"
  using assms
proof (induction xs arbitrary: w)
  case Nil
  then show ?case by (auto intro: nodes_rel_refl)
next
  case (Cons x xs)
  obtain e w1 where a: "AddLabelsToNode cl x nfsNodeLabels w = (e, w1)" by fastforce
  with Cons.prems(1) have e: "e = None" by (cases e) auto
  let ?P = "\<lambda>k' x' y. if k' = ckey x then marked x' y else y = x'"
  from w.AddLabelsToNode_ok [OF a [unfolded e]] Cons.prems(3,4) obtain y where
    y: "marked x y" "view w1 = nodes_update (\<lambda>s. s(ckey x := Some y)) (view w)"
    by (auto simp: marked_def add_nfs_label)
  have P: "nodes_rel ?P (view w) (view w1)"
    unfolding y(2) by (rule nodes_rel_update) (use y Cons.prems(3) in auto)
  have alive: "alive (view w1)"
    by (rule nodes_rel_alive [OF P Cons.prems(4)]) (auto simp: marked_def intro: relabelled_refl split: if_splits)
  have "addLabelsLoop cl xs w1 = (None, w')" using Cons.prems(1) a e by simp
  moreover have "nodes (view w1) (ckey z) = Some z" if "z \<in> set xs" for z
  proof (rule nodes_rel_kept [OF P])
    show "nodes (view w) (ckey z) = Some z" using Cons.prems(3) that by simp
    have "Name z \<in> Name ` set xs" using that by simp
    then have "Name z \<noteq> Name x" using Cons.prems(2) by auto
    then show "(if ckey z = ckey x then marked z y else y = z) \<Longrightarrow> y = z" for y by simp
  qed
  ultimately have rest: "nodes_rel (\<lambda>k x y. if k \<in> ckey ` set xs then marked x y else y = x) (view w1) (view w')"
    and "alive (view w')"
    using Cons.IH [of w1] Cons.prems(2) alive by auto
  have "ckey x \<notin> ckey ` set xs" using Cons.prems(2) by auto
  then have "nodes_rel (\<lambda>k x' y. if k \<in> ckey ` set (x # xs) then marked x' y else y = x') (view w) (view w')"
    by (intro nodes_rel_trans [OF P rest]) (auto split: if_splits)
  with \<open>alive (view w')\<close> show ?case by blast
qed

lemma removeLabelsLoop_ok:
  assumes "removeLabelsLoop cl cw h nsl m xs w = (None, w')" and "distinct (map Name xs)"
    and "\<And>x. x \<in> set xs \<Longrightarrow> nodes (view w) (ckey x) = Some x" and "alive (view w)"
    and names: "\<And>n. n \<in> set nsl \<Longrightarrow> Name n \<noteq> ''''"
    and "\<And>n. n \<in> Name ` set nsl \<longleftrightarrow> nss (view w) ('''', n) \<noteq> None"
    and "\<And>n. has_pods m n \<longleftrightarrow> nfs_pod_on (view w) n"
  shows "nodes_rel (\<lambda>k x y. if k \<in> ckey ` set xs \<and>
      \<not> (snd k = h \<and> controller_busy (view w) \<or> nfs_pod_on (view w) (snd k)) then unmarked x y else y = x)
    (view w) (view w')"
  using assms(1-4,6,7)
proof (induction xs arbitrary: w)
  case Nil
  then show ?case by (auto intro: nodes_rel_refl)
next
  case (Cons x xs)
  define check where "check = (if Name x = h then IsCSIControllerRemovable cw NFSStorageClassProvisioner nsl w else (Inr True, w))"
  obtain c w1 where c: "check = (c, w1)" by fastforce
  with Cons.prems(1) obtain b where b: "c = Inr b"
    by (cases c) (auto simp: check_def Let_def)
  have v1: "view w1 = view w" and b_iff: "b \<longleftrightarrow> \<not> (Name x = h \<and> controller_busy (view w))"
    using c [unfolded b check_def] removable_ok [OF _ names Cons.prems(5), of b w1] by (auto split: if_splits)
  let ?keep = "Name x = h \<and> controller_busy (view w) \<or> nfs_pod_on (view w) (Name x)"
  let ?P = "\<lambda>k' x' y. if k' = ckey x \<and> \<not> ?keep then unmarked x' y else y = x'"
  have "\<exists>w2. nodes_rel ?P (view w) (view w2) \<and> removeLabelsLoop cl cw h nsl m xs w2 = (None, w')"
  proof (cases ?keep)
    case True
    with Cons.prems(1,6) c b b_iff have "removeLabelsLoop cl cw h nsl m xs w1 = (None, w')"
      by (auto simp: check_def [symmetric] has_pods_def split: if_splits)
    moreover have "nodes_rel ?P (view w) (view w1)" unfolding v1 by (rule nodes_rel_refl) (simp add: True)
    ultimately show ?thesis by blast
  next
    case False
    obtain e w2 where r: "RemoveLabelsFromNode cl x nfsNodeLabels w1 = (e, w2)" by fastforce
    have hp: "\<not> has_pods m (Name x)" using False Cons.prems(6) by simp
    from False b_iff have "b" by simp
    with Cons.prems(1) c b r hp have e: "e = None" and l: "removeLabelsLoop cl cw h nsl m xs w2 = (None, w')"
      by (cases e; auto simp: check_def [symmetric] has_pods_def)+
    from w.RemoveLabelsFromNode_ok [OF r [unfolded e]] Cons.prems(3,4) v1 obtain y where
      y: "unmarked x y" "view w2 = nodes_update (\<lambda>s. s(ckey x := Some y)) (view w)"
      by (auto simp: unmarked_def drop_nfs_label)
    have "nodes_rel (\<lambda>k' x' y. if k' = ckey x then unmarked x' y else y = x') (view w) (view w2)"
      unfolding y(2) by (rule nodes_rel_update) (use y Cons.prems(3) in auto)
    then have "nodes_rel ?P (view w) (view w2)" by (rule nodes_rel_mono) (use False in auto)
    with l show ?thesis by blast
  qed
  then obtain w2 where P: "nodes_rel ?P (view w) (view w2)" and l: "removeLabelsLoop cl cw h nsl m xs w2 = (None, w')"
    by blast
  have alive: "alive (view w2)"
    by (rule nodes_rel_alive [OF P Cons.prems(4)]) (auto simp: unmarked_def intro: relabelled_refl split: if_splits)
  have "nodes (view w2) (ckey z) = Some z" if "z \<in> set xs" for z
  proof (rule nodes_rel_kept [OF P])
    show "nodes (view w) (ckey z) = Some z" using Cons.prems(3) that by simp
    have "Name z \<in> Name ` set xs" using that by simp
    then have "Name z \<noteq> Name x" using Cons.prems(2) by auto
    then show "(if ckey z = ckey x \<and> \<not> ?keep then unmarked z y else y = z) \<Longrightarrow> y = z" for y by simp
  qed
  with Cons.IH [OF l] Cons.prems(2,5,6) alive nodes_rel_specs [OF P]
  have rest: "nodes_rel (\<lambda>k x y. if k \<in> ckey ` set xs \<and>
      \<not> (snd k = h \<and> controller_busy (view w) \<or> nfs_pod_on (view w) (snd k)) then unmarked x y else y = x)
    (view w2) (view w')" by simp
  have "ckey x \<notin> ckey ` set xs" using Cons.prems(2) by auto
  then show ?case
    by (intro nodes_rel_trans [OF P rest]) (auto split: if_splits)
qed

lemma unlabelNodes_ok:
  assumes ok: "unlabelNodes cl cw ns xs w = (None, w')" and "distinct (map Name xs)"
    and "\<And>x. x \<in> set xs \<Longrightarrow> nodes (view w) (ckey x) = Some x" and "alive (view w)"
    and ns: "ns \<noteq> ''''" and "nss (view w) ('''', '''') = None"
  shows "nodes_rel (\<lambda>k x y. if k \<in> ckey ` set xs \<and> \<not> protected (view w) ns (snd k) then unmarked x y else y = x)
    (view w) (view w')"
proof -
  obtain c w1 where c: "GetCCSIControllerNodeName cl ns csiNFSExternalSnapshotterLeaseName CSIControllerLabel w = (c, w1)"
    by fastforce
  with ok obtain h where h: "c = Inr h" by (cases c) (auto simp: unlabelNodes_def)
  obtain l w2 where l: "List (ns_client cl) [] w1 = (l, w2)" by fastforce
  with ok c h obtain nsl where nsl: "l = Inr nsl" by (cases l) (auto simp: unlabelNodes_def)
  obtain g w3 where g: "GetPodsMapWithNFSVolume cw nsl w2 = (g, w3)" by fastforce
  with ok c h l nsl obtain m where m: "g = Inr m" by (cases g) (auto simp: unlabelNodes_def)
  from ok c h l nsl g m have loop: "removeLabelsLoop cl cw h nsl m xs w3 = (None, w')"
    by (simp add: unlabelNodes_def)
  from controller_name_ok [OF c [unfolded h] ns] have v1: "view w1 = view w"
    and ctl: "controller_node (view w) ns n \<longleftrightarrow> n = h" for n by auto
  have v2: "view w2 = view w" using w.ns.list_view [OF l] v1 by simp
  have nss: "n \<in> Name ` set nsl \<longleftrightarrow> nss (view w) ('''', n) \<noteq> None" for n
    using namespace_names [OF l [unfolded nsl], of n] v1 by simp
  have names: "n \<in> set nsl \<Longrightarrow> Name n \<noteq> ''''" for n
    using nss [of "''''"] assms(6) by force
  from pods_map_ok [OF g [unfolded m] names] nss v2 have v3: "view w3 = view w"
    and hp: "has_pods m n \<longleftrightarrow> nfs_pod_on (view w) n" for n by auto
  have "nodes_rel (\<lambda>k x y. if k \<in> ckey ` set xs \<and>
      \<not> (snd k = h \<and> controller_busy (view w) \<or> nfs_pod_on (view w) (snd k)) then unmarked x y else y = x)
    (view w) (view w')"
    using removeLabelsLoop_ok [OF loop assms(2) _ _ names] assms(3,4) nss hp unfolding v3 by blast
  then show ?thesis unfolding protected_def ctl .
qed

lemma reconcile_node_selector_ok:
  assumes ok: "ReconcileNodeSelector L cl cw ns w = (None, w')" and alive: "alive (view w)"
    and ns: "ns \<noteq> ''''" and no_ns: "nss (view w) ('''', '''') = None"
  shows "nodes_rel (\<lambda>k x y. if wanted (view w) x then marked x y
      else if nfs_node x \<and> \<not> protected (view w) ns (Name x) then unmarked x y else y = x)
    (view w) (view w')"
proof -
  obtain l w1 where l: "List (nsc_client cl) [] w = (l, w1)" by fastforce
  with ok obtain nscList where nscList: "l = Inr nscList" by (cases l) (auto simp: ReconcileNodeSelector_def)
  let ?sels = "GetNodeSelectorFromNFSStorageClasses nscList"
  obtain g w2 where g: "GetNodesBySelectorList L cl ?sels w1 = (g, w2)" by fastforce
  with ok l nscList obtain xs where xs: "g = Inr xs" by (cases g) (auto simp: ReconcileNodeSelector_def)
  from selected_wanted [OF l [unfolded nscList] g [unfolded xs]] have v2: "view w2 = view w"
    and dist: "distinct (map Name xs)"
    and mem: "x \<in> set xs \<longleftrightarrow> nodes (view w) (ckey x) = Some x \<and> wanted (view w) x" for x by auto
  obtain a w3 where a: "(if length xs \<noteq> 0 then addLabelsLoop cl xs w2 else (None, w2)) = (a, w3)" by fastforce
  with ok l nscList g xs have a0: "a = None" by (cases a) (auto simp: ReconcileNodeSelector_def)
  have "addLabelsLoop cl xs w2 = (None, w3)" using a a0 by (cases xs) (auto split: if_splits)
  from addLabelsLoop_ok [OF this dist] mem alive v2
  have add: "nodes_rel (\<lambda>k x y. if k \<in> ckey ` set xs then marked x y else y = x) (view w) (view w3)"
    and alive3: "alive (view w3)" by auto
  obtain y w4 where y: "GetNodesBySelector cl NFSNodeSelector w3 = (y, w4)" by fastforce
  with ok l nscList g xs a a0 obtain ys where ys: "y = Inr ys" by (cases y) (auto simp: ReconcileNodeSelector_def)
  have v4: "view w4 = view w3" using w.node.list_view [OF y [unfolded GetNodesBySelector_def]] .
  have sel: "NFSNodeSelector \<subseteq>\<^sub>f m \<longleftrightarrow> fmlookup m NFSNodeLabelKey = Some ''''" for m
    by (auto simp: NFSNodeSelector_def fmsubset.rep_eq map_le_def)
  have memy: "x \<in> set ys \<longleftrightarrow> nodes (view w3) (ckey x) = Some x \<and> nfs_node x" for x
    using w.node.list_mem [OF y [unfolded ys GetNodesBySelector_def], of x] by (simp add: sel nfs_node_def)
  have disty: "distinct (map Name ys)"
    using w.node.list_ok [OF y [unfolded ys GetNodesBySelector_def]]
    by (metis (mono_tags, lifting) ckey_simps(1) distinct_map inj_on_def)
  let ?rm = "DiffNodeLists ys xs"
  have rm: "x \<in> set ?rm \<longleftrightarrow> nodes (view w3) (ckey x) = Some x \<and> nfs_node x \<and> Name x \<notin> Name ` set xs" for x
    by (auto simp: DiffNodeLists_eq memy)
  have "nodes_rel (\<lambda>k x y. if k \<in> ckey ` set ?rm \<and> \<not> protected (view w3) ns (snd k) then unmarked x y else y = x)
    (view w3) (view w')"
  proof (cases "?rm = []")
    case True
    with ok l nscList g xs a a0 y ys have "w' = w4" by (simp add: ReconcileNodeSelector_def)
    with True v4 show ?thesis by (auto intro: nodes_rel_refl)
  next
    case False
    with ok l nscList g xs a a0 y ys have u: "unlabelNodes cl cw ns ?rm w4 = (None, w')"
      by (simp add: ReconcileNodeSelector_def)
    show ?thesis
      using unlabelNodes_ok [OF u _ _ _ ns] disty rm alive3 no_ns nodes_rel_specs(4) [OF add]
      unfolding v4 by (simp add: DiffNodeLists_eq distinct_map_filter)
  qed
  note removed = this
  have prot: "protected (view w3) = protected (view w)"
    unfolding protected_def fun_eq_iff nodes_rel_specs [OF add] by blast
  have in_xs: "k \<in> ckey ` set xs \<longleftrightarrow> wanted (view w) x" if "nodes (view w) k = Some x" for k x
  proof -
    have k: "k = ckey x" using w.node.keyed [OF that] by simp
    show ?thesis
    proof
      assume "k \<in> ckey ` set xs"
      then obtain z where z: "z \<in> set xs" "k = ckey z" by blast
      with mem that show "wanted (view w) x" by auto
    next
      assume "wanted (view w) x"
      with that k mem show "k \<in> ckey ` set xs" by blast
    qed
  qed
  let ?R = "\<lambda>k x y. if wanted (view w) x then marked x y
      else if nfs_node x \<and> \<not> protected (view w) ns (Name x) then unmarked x y else y = x"
  have frame: "view w' = nodes_update (\<lambda>_. nodes (view w')) (view w)"
    using nodes_rel_trans [OF add removed, of "\<lambda>_ _ _. True"] unfolding nodes_rel_def by blast
  have "rel_option (?R k) (nodes (view w) k) (nodes (view w') k)" for k
  proof -
    from add have r1: "rel_option (\<lambda>x y. if k \<in> ckey ` set xs then marked x y else y = x) (nodes (view w) k) (nodes (view w3) k)"
      unfolding nodes_rel_def by blast
    from removed have r2: "rel_option (\<lambda>x y. if k \<in> ckey ` set ?rm \<and> \<not> protected (view w) ns (snd k) then unmarked x y else y = x)
        (nodes (view w3) k) (nodes (view w') k)"
      unfolding nodes_rel_def prot by blast
    show ?thesis
    proof (cases "nodes (view w) k")
      case None
      with r1 r2 show ?thesis by (cases "nodes (view w3) k"; cases "nodes (view w') k") auto
    next
      case (Some x)
      with r1 obtain y where y: "nodes (view w3) k = Some y" "if k \<in> ckey ` set xs then marked x y else y = x"
        by (cases "nodes (view w3) k") auto
      with r2 obtain z where z: "nodes (view w') k = Some z"
        "if k \<in> ckey ` set ?rm \<and> \<not> protected (view w) ns (snd k) then unmarked y z else z = y"
        by (cases "nodes (view w') k") auto
      have k: "k = ckey x" "snd k = Name x" using w.node.keyed [OF Some] by auto
      have out: "k \<in> ckey ` set xs \<longleftrightarrow> Name x \<in> Name ` set xs" by (auto simp: k(1) ckey_def)
      have "?R k x z"
      proof (cases "wanted (view w) x")
        case True
        then have "k \<in> ckey ` set xs" using in_xs [OF Some] by simp
        moreover have "k \<notin> ckey ` set ?rm" using rm calculation out by (auto simp: k(1))
        ultimately show ?thesis using y z True by auto
      next
        case False
        then have "k \<notin> ckey ` set xs" using in_xs [OF Some] by simp
        with y out have yx: "y = x" and nx: "Name x \<notin> Name ` set xs" by auto
        have "k \<in> ckey ` set ?rm \<longleftrightarrow> nfs_node x"
        proof
          assume "k \<in> ckey ` set ?rm"
          then obtain u where u: "u \<in> set ?rm" "k = ckey u" by blast
          then have "u = x" using rm [of u] y yx by simp
          with u rm show "nfs_node x" by blast
        next
          assume "nfs_node x"
          then have "x \<in> set ?rm" using rm [of x] y yx nx k by simp
          then show "k \<in> ckey ` set ?rm" using k by blast
        qed
        with False z yx k show ?thesis by auto
      qed
      with Some z show ?thesis by simp
    qed
  qed
  with frame show ?thesis unfolding nodes_rel_def by blast
qed

end

section \<open>Evicting pods\<close>

text \<open>A module pod on a node without the label.\<close>

definition stray :: "cluster \<Rightarrow> string \<Rightarrow> smap \<Rightarrow> smap list \<Rightarrow> Pod \<Rightarrow> bool" where
  "stray c ns nodeSelector sels pod \<longleftrightarrow> Namespace pod = ns \<and> NodeName pod \<noteq> '''' \<and>
     (\<exists>s \<in> set sels. s \<subseteq>\<^sub>f smap_of (Labels pod)) \<and>
     (\<forall>x. nodes c ('''', NodeName pod) = Some x \<longrightarrow> \<not> nodeSelector \<subseteq>\<^sub>f smap_of (Labels x))"

definition controller_pod :: "Pod \<Rightarrow> bool" where
  "controller_pod pod \<longleftrightarrow> CSIControllerLabel \<subseteq>\<^sub>f smap_of (Labels pod)"

definition strays :: "string list \<Rightarrow> smap list \<Rightarrow> Pod \<Rightarrow> bool" where
  "strays names sels p \<longleftrightarrow> NodeName p \<noteq> '''' \<and> (\<exists>s \<in> set sels. s \<subseteq>\<^sub>f smap_of (Labels p)) \<and> NodeName p \<notin> set names"

definition pods_gone :: "key set \<Rightarrow> cluster \<Rightarrow> cluster \<Rightarrow> bool" where
  "pods_gone K c c' \<longleftrightarrow> c' = pods_update (\<lambda>_. pods c') c \<and>
     (\<forall>k. if k \<in> K then \<exists>p. pods c k = Some p \<and> dismissed (fins p) (pods c' k) else pods c' k = pods c k)"

lemma pods_gone_refl: "pods_gone {} c c"
  by (simp add: pods_gone_def)

lemma pods_gone_trans:
  assumes "pods_gone K c c1" and "pods_gone K' c1 c2" and "K \<inter> K' = {}"
  shows "pods_gone (K \<union> K') c c2"
proof -
  have "c2 = pods_update (\<lambda>_. pods c2) c"
    using assms(1,2) unfolding pods_gone_def by (metis (no_types, lifting) cluster.surjective cluster.update_convs(7))
  moreover have "if k \<in> K \<union> K' then \<exists>p. pods c k = Some p \<and> dismissed (fins p) (pods c2 k) else pods c2 k = pods c k" for k
    using assms unfolding pods_gone_def by (metis IntI UnE UnI1 UnI2 empty_iff)
  ultimately show ?thesis by (simp add: pods_gone_def)
qed

lemma pods_gone_specs:
  assumes "pods_gone K c c'"
  shows "controller_busy c' = controller_busy c" "nodes c' = nodes c" "nss c' = nss c"
proof -
  have eq: "nss c' = nss c" "pvcs c' = pvcs c" "vss c' = vss c" "nodes c' = nodes c"
    using assms unfolding pods_gone_def
    by (metis (no_types, lifting) cluster.select_convs(6,8,10,12) cluster.surjective cluster.update_convs(7))+
  show "controller_busy c' = controller_busy c" "nodes c' = nodes c" "nss c' = nss c"
    unfolding controller_busy_def pending_snapshot_def pending_claim_def eq by blast+
qed

context node_env
begin

lemma delete_pod_ok:
  assumes "Delete (pod_client cl) p w = (None, w')" and "pods (view w) (nkey p) = Some p"
  shows "pods_gone {nkey p} (view w) (view w')"
proof -
  obtain v where v: "dismissed (fins p) v" "view w' = pods_update (\<lambda>s. s(nkey p := v)) (view w)"
  proof (cases "fins p = []")
    case True
    with w.pod.delete_ok [OF assms(1)] assms(2) have "view w' = pods_update (\<lambda>s. s(nkey p := None)) (view w)" by auto
    then show thesis by (rule that [rotated]) (simp add: dismissed_def True)
  next
    case False
    with w.pod.delete_ok [OF assms(1)] assms(2) show thesis
      by (auto intro!: that simp: dismissed_def fins_def dest: same_object_meta(6))
  qed
  with assms(2) show ?thesis by (simp add: pods_gone_def)
qed

lemma deletePodsLoop_ok:
  assumes "deletePodsLoop cl ps w = (None, w')" and "distinct (map nkey ps)"
    and "\<And>p. p \<in> set ps \<Longrightarrow> pods (view w) (nkey p) = Some p"
  shows "pods_gone (nkey ` set ps) (view w) (view w')"
  using assms
proof (induction ps arbitrary: w)
  case Nil
  then show ?case by (simp add: pods_gone_refl)
next
  case (Cons p ps)
  obtain e w1 where d: "Delete (pod_client cl) p w = (e, w1)" by fastforce
  with Cons.prems(1) have e: "e = None" by (cases e) auto
  from delete_pod_ok [OF d [unfolded e]] Cons.prems(3) have g: "pods_gone {nkey p} (view w) (view w1)" by simp
  have "pods (view w1) (nkey q) = Some q" if "q \<in> set ps" for q
  proof -
    have "nkey q \<in> nkey ` set ps" using that by blast
    then have "nkey q \<noteq> nkey p" using Cons.prems(2) by auto
    with g Cons.prems(3) [of q] that show ?thesis unfolding pods_gone_def by (metis list.set_intros(2) singletonD)
  qed
  then have "pods_gone (nkey ` set ps) (view w1) (view w')"
    using Cons.IH [of w1] Cons.prems(1,2) d e by simp
  from pods_gone_trans [OF g this] Cons.prems(2) show ?case by simp
qed

lemma modulePodsLoop_ok:
  assumes "modulePodsLoop L cl sels names ps acc w = (Inr cps, w')" and "distinct (map nkey ps)"
    and "\<And>p. p \<in> set ps \<Longrightarrow> pods (view w) (nkey p) = Some p"
  shows "cps = acc @ filter (\<lambda>p. strays names sels p \<and> controller_pod p) ps \<and>
    pods_gone (nkey ` {p \<in> set ps. strays names sels p \<and> \<not> controller_pod p}) (view w) (view w')"
  using assms
proof (induction ps arbitrary: acc w)
  case Nil
  then show ?case by (simp add: pods_gone_refl)
next
  case (Cons p ps)
  have match: "isPodMatchLabels L p s \<longleftrightarrow> s \<subseteq>\<^sub>f smap_of (Labels p)" for s
    by (simp add: isPodMatchLabels_def Matches smap_of_def)
  have st: "strays names sels p \<longleftrightarrow> NodeName p \<noteq> '''' \<and> list_ex (isPodMatchLabels L p) sels \<and> NodeName p \<notin> set names"
    by (simp add: strays_def match list_ex_iff)
  have ct: "controller_pod p \<longleftrightarrow> isPodMatchLabels L p CSIControllerLabel" by (simp add: match controller_pod_def)
  have new: "nkey p \<notin> nkey ` set ps" using Cons.prems(2) by auto
  show ?case
  proof (cases "strays names sels p \<and> \<not> controller_pod p")
    case True
    then have body: "modulePodsLoop L cl sels names (p # ps) acc w =
      (case Delete (pod_client cl) p w of
          (Some e, w) \<Rightarrow> (Inl (WrapError (''[ReconcileModulePods] Failed delete pod '' @ Namespace p @ ''/'' @ Name p @ '': '') e), w)
        | (None, w) \<Rightarrow> modulePodsLoop L cl sels names ps acc w)"
      unfolding st ct by simp
    obtain e w1 where d: "Delete (pod_client cl) p w = (e, w1)" by fastforce
    with Cons.prems(1) body have e: "e = None" and l: "modulePodsLoop L cl sels names ps acc w1 = (Inr cps, w')"
      by (cases e; simp)+
    from delete_pod_ok [OF d [unfolded e]] Cons.prems(3) have g: "pods_gone {nkey p} (view w) (view w1)" by simp
    have "pods (view w1) (nkey q) = Some q" if "q \<in> set ps" for q
      using g Cons.prems(3) [of q] that new unfolding pods_gone_def by (metis imageI list.set_intros(2) singletonD)
    then have IH: "cps = acc @ filter (\<lambda>p. strays names sels p \<and> controller_pod p) ps"
      "pods_gone (nkey ` {p \<in> set ps. strays names sels p \<and> \<not> controller_pod p}) (view w1) (view w')"
      using Cons.IH [OF l] Cons.prems(2) by auto
    have "nkey ` {q \<in> set (p # ps). strays names sels q \<and> \<not> controller_pod q} =
        {nkey p} \<union> nkey ` {q \<in> set ps. strays names sels q \<and> \<not> controller_pod q}"
      using True by auto
    moreover have "{nkey p} \<inter> nkey ` {q \<in> set ps. strays names sels q \<and> \<not> controller_pod q} = {}" using new by auto
    ultimately show ?thesis using pods_gone_trans [OF g IH(2)] IH(1) True by simp
  next
    case False
    then have "modulePodsLoop L cl sels names (p # ps) acc w =
        modulePodsLoop L cl sels names ps (if strays names sels p \<and> controller_pod p then acc @ [p] else acc) w"
      unfolding st ct by auto
    with Cons.prems(1) have l: "modulePodsLoop L cl sels names ps
        (if strays names sels p \<and> controller_pod p then acc @ [p] else acc) w = (Inr cps, w')" by simp
    have "{q \<in> set (p # ps). strays names sels q \<and> \<not> controller_pod q} =
        {q \<in> set ps. strays names sels q \<and> \<not> controller_pod q}"
      using False by auto
    with Cons.IH [OF l] Cons.prems(2,3) show ?thesis by auto
  qed
qed

lemma evictControllerPods_ok:
  assumes ok: "evictControllerPods cl cw ps w = (None, w')" and dist: "distinct (map nkey ps)"
    and stored: "\<And>p. p \<in> set ps \<Longrightarrow> pods (view w) (nkey p) = Some p" and no_ns: "nss (view w) ('''', '''') = None"
  shows "pods_gone (if controller_busy (view w) then {} else nkey ` set ps) (view w) (view w')"
proof -
  obtain l w1 where l: "List (ns_client cl) [] w = (l, w1)" by fastforce
  with ok obtain nsl where nsl: "l = Inr nsl" by (cases l) (auto simp: evictControllerPods_def)
  obtain r w2 where r: "IsCSIControllerRemovable cw NFSStorageClassProvisioner nsl w1 = (r, w2)" by fastforce
  with ok l nsl obtain b where b: "r = Inr b" by (cases r) (auto simp: evictControllerPods_def)
  have v1: "view w1 = view w" using w.ns.list_view [OF l] .
  have nss: "n \<in> Name ` set nsl \<longleftrightarrow> nss (view w) ('''', n) \<noteq> None" for n
    using namespace_names [OF l [unfolded nsl], of n] .
  have names: "n \<in> set nsl \<Longrightarrow> Name n \<noteq> ''''" for n using nss [of "''''"] no_ns by force
  from removable_ok [OF r [unfolded b] names] nss v1 have v2: "view w2 = view w" and busy: "b \<longleftrightarrow> \<not> controller_busy (view w)"
    by auto
  show ?thesis
  proof (cases b)
    case True
    with ok l nsl r b have "deletePodsLoop cl ps w2 = (None, w')" by (simp add: evictControllerPods_def)
    from deletePodsLoop_ok [OF this dist] stored v2 True busy show ?thesis by simp
  next
    case False
    with ok l nsl r b have "w' = w2" by (simp add: evictControllerPods_def)
    with False busy v2 show ?thesis by (simp add: pods_gone_refl)
  qed
qed

text \<open>The pods and nodes that the turn lists, in terms of the cluster.\<close>

lemma listed_strays:
  assumes l: "List (pod_client cl) [InNamespace ns] w = (Inr ps, w1)" and g: "GetNodesBySelector cl nodeSelector w1 = (Inr xs, w2)"
    and ns: "ns \<noteq> ''''"
  shows "\<And>p. p \<in> set ps \<longleftrightarrow> pods (view w) (nkey p) = Some p \<and> Namespace p = ns" and "distinct (map nkey ps)"
    and "view w2 = view w"
    and "\<And>P. nkey ` {p \<in> set ps. strays (map Name xs) sels p \<and> P p} =
      {k. \<exists>p. pods (view w) k = Some p \<and> stray (view w) ns nodeSelector sels p \<and> P p}"
proof -
  have v1: "view w1 = view w" using w.pod.list_view [OF l] .
  show "view w2 = view w" using w.node.list_view [OF g [unfolded GetNodesBySelector_def]] v1 by simp
  show pmem: "p \<in> set ps \<longleftrightarrow> pods (view w) (nkey p) = Some p \<and> Namespace p = ns" for p
    using w.pod.list_mem [OF l, of p] ns by auto
  show "distinct (map nkey ps)" using w.pod.list_ok [OF l] by blast
  have nmem: "x \<in> set xs \<longleftrightarrow> nodes (view w) (ckey x) = Some x \<and> nodeSelector \<subseteq>\<^sub>f smap_of (Labels x)" for x
    using w.node.list_mem [OF g [unfolded GetNodesBySelector_def], of x] v1 by simp
  have on: "n \<in> Name ` set xs \<longleftrightarrow> (\<exists>x. nodes (view w) ('''', n) = Some x \<and> nodeSelector \<subseteq>\<^sub>f smap_of (Labels x))" for n
  proof
    assume "n \<in> Name ` set xs"
    then show "\<exists>x. nodes (view w) ('''', n) = Some x \<and> nodeSelector \<subseteq>\<^sub>f smap_of (Labels x)"
      using nmem by (auto simp: ckey_def)
  next
    assume "\<exists>x. nodes (view w) ('''', n) = Some x \<and> nodeSelector \<subseteq>\<^sub>f smap_of (Labels x)"
    then obtain x where x: "nodes (view w) ('''', n) = Some x" "nodeSelector \<subseteq>\<^sub>f smap_of (Labels x)" by blast
    with w.node.keyed [OF x(1)] have "x \<in> set xs" "Name x = n" by (simp_all add: nmem ckey_def)
    then show "n \<in> Name ` set xs" by blast
  qed
  have st: "p \<in> set ps \<and> strays (map Name xs) sels p \<longleftrightarrow> pods (view w) (nkey p) = Some p \<and> stray (view w) ns nodeSelector sels p" for p
    by (auto simp: strays_def stray_def pmem on)
  show "nkey ` {p \<in> set ps. strays (map Name xs) sels p \<and> P p} =
      {k. \<exists>p. pods (view w) k = Some p \<and> stray (view w) ns nodeSelector sels p \<and> P p}" (is "?A = ?S") for P
  proof
    show "?A \<subseteq> ?S" using st by blast
    show "?S \<subseteq> ?A"
    proof
      fix k assume "k \<in> ?S"
      then obtain p where p: "pods (view w) k = Some p" "stray (view w) ns nodeSelector sels p" "P p" by blast
      then have "k = nkey p" using w.pod.keyed by metis
      with p st show "k \<in> ?A" by blast
    qed
  qed
qed

lemma reconcile_module_pods_ok:
  assumes ok: "ReconcileModulePods L cl cw ns nodeSelector sels w = (None, w')"
    and ns: "ns \<noteq> ''''" and no_ns: "nss (view w) ('''', '''') = None"
  shows "pods_gone {k. \<exists>p. pods (view w) k = Some p \<and> stray (view w) ns nodeSelector sels p \<and>
      (controller_pod p \<longrightarrow> \<not> controller_busy (view w))} (view w) (view w')"
proof -
  obtain l w1 where l: "List (pod_client cl) [InNamespace ns] w = (l, w1)" by fastforce
  with ok obtain ps where ps: "l = Inr ps" by (cases l) (auto simp: ReconcileModulePods_def)
  obtain g w2 where g: "GetNodesBySelector cl nodeSelector w1 = (g, w2)" by fastforce
  with ok l ps obtain xs where xs: "g = Inr xs" by (cases g) (auto simp: ReconcileModulePods_def)
  obtain m w3 where m: "modulePodsLoop L cl sels (map Name xs) ps [] w2 = (m, w3)" by fastforce
  with ok l ps g xs obtain cps where cps: "m = Inr cps" by (cases m) (auto simp: ReconcileModulePods_def)
  note listed = listed_strays [OF l [unfolded ps] g [unfolded xs] ns]
  note pmem = listed(1) and dist = listed(2) and v2 = listed(3) and img = listed(4) [of sels]
  let ?S = "\<lambda>P. {k. \<exists>p. pods (view w) k = Some p \<and> stray (view w) ns nodeSelector sels p \<and> P p}"
  from modulePodsLoop_ok [OF m [unfolded cps] dist] pmem v2
  have cps': "cps = filter (\<lambda>p. strays (map Name xs) sels p \<and> controller_pod p) ps"
    and g1: "pods_gone (?S (\<lambda>p. \<not> controller_pod p)) (view w) (view w3)"
    unfolding img by auto
  have "pods_gone (if controller_busy (view w3) then {} else nkey ` set cps) (view w3) (view w')"
  proof (cases "cps = []")
    case True
    with ok l ps g xs m cps have "w' = w3" by (simp add: ReconcileModulePods_def)
    with True show ?thesis by (simp add: pods_gone_refl)
  next
    case False
    with ok l ps g xs m cps have e: "evictControllerPods cl cw cps w3 = (None, w')" by (simp add: ReconcileModulePods_def)
    have "pods (view w3) (nkey p) = Some p" if "p \<in> set cps" for p
    proof -
      have p: "pods (view w) (nkey p) = Some p" "controller_pod p" using that cps' pmem by auto
      then have "nkey p \<notin> ?S (\<lambda>p. \<not> controller_pod p)" by simp
      with g1 have "pods (view w3) (nkey p) = pods (view w) (nkey p)" unfolding pods_gone_def by meson
      with p show ?thesis by simp
    qed
    then show ?thesis
      using evictControllerPods_ok [OF e] dist no_ns pods_gone_specs(3) [OF g1] by (simp add: cps' distinct_map_filter)
  qed
  moreover have "nkey ` set cps = ?S controller_pod" using img [of controller_pod] by (simp add: cps' conj_assoc)
  ultimately have g2: "pods_gone (if controller_busy (view w) then {} else ?S controller_pod) (view w3) (view w')"
    by (simp only: pods_gone_specs(1) [OF g1])
  have "?S (\<lambda>p. \<not> controller_pod p) \<inter> (if controller_busy (view w) then {} else ?S controller_pod) = {}" by auto
  from pods_gone_trans [OF g1 g2 this] show ?thesis
    by (rule back_subst [where P = "\<lambda>K. pods_gone K _ _"]) auto
qed

end

section \<open>Sample nodes and pods\<close>

definition sample_node :: "string \<Rightarrow> (string \<times> string) list \<Rightarrow> Node" where
  "sample_node name labels = \<lparr>Name = name, Namespace = '''', Labels = Some (fmap_of_list labels), Annotations = None,
     Finalizers = None, ResourceVersion = ''1'', DeletionTimestamp = None, ManagedFields = None,
     OtherMeta = '''', NodeRest = ''''\<rparr>"

definition sample_pod :: "string \<Rightarrow> string \<Rightarrow> string \<Rightarrow> (string \<times> string) list \<Rightarrow> string option \<Rightarrow> Pod" where
  "sample_pod ns name node labels claim = \<lparr>Name = name, Namespace = ns, Labels = Some (fmap_of_list labels), Annotations = None,
     Finalizers = None, ResourceVersion = ''1'', DeletionTimestamp = None, ManagedFields = None,
     OtherMeta = '''', NodeName = node, Volumes = [\<lparr>VolumeName' = ''data'', PersistentVolumeClaim = claim\<rparr>]\<rparr>"

definition sample_ns :: "string \<Rightarrow> NamespaceObj" where
  "sample_ns name = \<lparr>Name = name, Namespace = '''', Labels = None, Annotations = None,
     Finalizers = None, ResourceVersion = ''1'', DeletionTimestamp = None, ManagedFields = None,
     OtherMeta = '''', NamespaceRest = ''''\<rparr>"

definition sample_claim :: "string \<Rightarrow> string \<Rightarrow> string \<Rightarrow> PersistentVolumeClaim" where
  "sample_claim ns name phase = \<lparr>Name = name, Namespace = ns, Labels = None,
     Annotations = Some (fmap_of_list [(provisionerAnnotation, NFSStorageClassProvisioner)]),
     Finalizers = None, ResourceVersion = ''1'', DeletionTimestamp = None, ManagedFields = None,
     OtherMeta = '''', StorageClassName = Some ''nfs'', VolumeName = '''', Phase = phase\<rparr>"

text \<open>Node \<open>a\<close> is to be labelled; \<open>b\<close> is labelled and runs a pod on an NFS volume; \<open>c\<close> is labelled and idle, with
  a module pod left on it.\<close>

definition node_world :: "Pod list \<Rightarrow> mem" where
  "node_world ps = mem_empty\<lparr>
     m_nodes := [sample_node ''a'' [(''kubernetes.io/os'', ''linux'')], sample_node ''b'' [(NFSNodeLabelKey, '''')],
       sample_node ''c'' [(NFSNodeLabelKey, '''')]],
     m_nss := [sample_ns ''app'', sample_ns ''d8-csi-nfs''], m_pvcs := [sample_claim ''app'' ''vol'' ''Bound''],
     m_pods := sample_pod ''app'' ''web'' ''b'' [] (Some ''vol'') # ps\<rparr>"

lemma node_world_laws:
  "alive (mem_view (node_world ps))" "nss (mem_view (node_world ps)) ('''', '''') = None"
  by (auto simp: alive_def mem_view_def node_world_def mem_empty_def stored_def ckey_def wire_meta_def sample_node_def
      sample_ns_def split: if_splits)

section \<open>Properties\<close>

text \<open>C6: Node labels. When a turn of the node-selector reconciler succeeds, every node selected by the
  NFSStorageClasses (the Linux nodes as soon as one of them selects nothing) carries the label, a labelled node
  that is no longer selected has lost it unless a pod on it uses an NFS volume or it holds the controller's lease
  while volumes or snapshots are pending, and no other node, no other label and nothing else has changed.\<close>

theorem node_labels_converge:
  assumes "node_env cl cw view L"
    and "ReconcileNodeSelector L cl cw ns w = (None, w')" and "alive (view w)"
    and "ns \<noteq> ''''" and "nss (view w) ('''', '''') = None"
  shows "nodes_rel (\<lambda>k x y. if wanted (view w) x then marked x y
      else if nfs_node x \<and> \<not> protected (view w) ns (Name x) then unmarked x y else y = x)
    (view w) (view w')"
  by (rule node_env.reconcile_node_selector_ok [OF assms])

theorem node_labels_converge_witness:
  "\<exists>w'. ReconcileNodeSelector std_lib mem_client mem_client ''d8-csi-nfs'' (node_world []) = (None, w') \<and>
     (\<exists>y. nodes (mem_view w') ('''', ''a'') = Some y \<and> nfs_node y)"
proof -
  let ?w = "node_world []"
  have "fst (ReconcileNodeSelector std_lib mem_client mem_client ''d8-csi-nfs'' ?w) = None" by code_simp
  then obtain w' where w': "ReconcileNodeSelector std_lib mem_client mem_client ''d8-csi-nfs'' ?w = (None, w')"
    by (metis prod.collapse)
  have a: "nodes (mem_view ?w) ('''', ''a'') = Some (sample_node ''a'' [(''kubernetes.io/os'', ''linux'')])"
    by (simp add: mem_view_def node_world_def mem_empty_def stored_def ckey_def wire_meta_def sample_node_def)
  have want: "wanted (mem_view ?w) (sample_node ''a'' [(''kubernetes.io/os'', ''linux'')])"
    by (simp add: wanted_def mem_view_def node_world_def mem_empty_def stored_def sample_node_def
        DefaultNodeSelector_def selector_matches_def smap_of_def fmsubset.rep_eq)
  have ns: "''d8-csi-nfs'' \<noteq> ''''" by simp
  obtain y where y: "nodes (mem_view w') ('''', ''a'') = Some y"
    and m: "marked (sample_node ''a'' [(''kubernetes.io/os'', ''linux'')]) y"
    using nodes_rel_at [OF node_labels_converge [OF memory_nodes.node_env_axioms w' node_world_laws(1) ns node_world_laws(2)] a]
      want by (metis (no_types, lifting))
  from m have "nfs_node y" by (simp add: marked_def relabelled_def nfs_node_def)
  with y w' show ?thesis by blast
qed



end
