(* ===== verification/Node_History.thy ===== *)
theory Node_History
  imports Node_Properties
begin

text \<open>
  The node-selector loop while other clients write between any two of its calls. The world then has a history: the clusters that the
  reads of the turn may still show and the node updates and pod deletions that it has sent. The locale \<open>seen_kind\<close> says that a read shows one moment of
  that history, \<open>shared_api\<close> that the reconciler's client may answer from a cache while its reader shows moments of the turn, and
  nothing is assumed of what happens in between. What the reconciler reads justifies what it writes (\<open>justified_write\<close>); that it writes nothing else is shown in theory Node_Races.
\<close>

section \<open>Histories\<close>

datatype sent_write = Updated Node | Deleted Pod

text \<open>\<open>quiet\<close>: a call that sends no write; the moments seen so far stay known.\<close>

definition quiet :: "('w \<Rightarrow> cluster set) \<Rightarrow> ('w \<Rightarrow> cluster set) \<Rightarrow> ('w \<Rightarrow> sent_write list) \<Rightarrow> 'w \<Rightarrow> 'w \<Rightarrow> bool" where
  "quiet shown past sent w w' \<longleftrightarrow> shown w \<subseteq> shown w' \<and> past w \<subseteq> past w' \<and> sent w' = sent w"

lemma quiet_refl [simp]: "quiet shown past sent w w"
  by (simp add: quiet_def)

lemma quiet_trans [trans]: "quiet shown past sent w w1 \<Longrightarrow> quiet shown past sent w1 w2 \<Longrightarrow> quiet shown past sent w w2"
  by (auto simp: quiet_def)

locale seen_kind =
  fixes api :: "('w, 'm ObjectMeta_scheme) kind_client"
    and shown past :: "'w \<Rightarrow> cluster set"
    and sent :: "'w \<Rightarrow> sent_write list"
    and seen :: "'w \<Rightarrow> cluster set"
    and sel :: "cluster \<Rightarrow> 'm ObjectMeta_scheme store"
    and key :: "'m ObjectMeta_scheme \<Rightarrow> key"
  assumes get_quiet: "Get api ns n w = (gr, w') \<Longrightarrow> quiet shown past sent w w'"
    and get_seen: "Get api ns n w = (Inr x, w') \<Longrightarrow> \<exists>c \<in> seen w'. sel c (ns, n) = Some x"
    and list_quiet: "List api opts w = (lr, w') \<Longrightarrow> quiet shown past sent w w'"
    and list_seen: "List api opts w = (Inr xs, w') \<Longrightarrow>
      \<exists>c \<in> seen w'. \<forall>x. x \<in> set xs \<longleftrightarrow> sel c (key x) = Some x \<and> options_match opts x"
    and keyed_seen: "c \<in> seen w \<Longrightarrow> sel c k = Some x \<Longrightarrow> key x = k"

locale shared_api = lib_laws L
  for cl cw :: "'w client" and shown past :: "'w \<Rightarrow> cluster set" and sent :: "'w \<Rightarrow> sent_write list" and L :: lib +
  assumes nsc_seen: "seen_kind (nsc_client cl) shown past sent shown nscs ckey"
    and node_seen: "seen_kind (node_client cl) shown past sent shown nodes ckey"
    and cpod_seen: "seen_kind (pod_client cl) shown past sent shown pods nkey"
    and ns_seen: "seen_kind (ns_client cl) shown past sent shown nss ckey"
    and lease_seen: "seen_kind (lease_client cl) shown past sent shown leases nkey"
    and pod_seen: "seen_kind (pod_client cw) shown past sent past pods nkey"
    and pvc_seen: "seen_kind (pvc_client cw) shown past sent past pvcs nkey"
    and vs_seen: "seen_kind (vs_client cw) shown past sent past vss nkey"
    and update_sent: "Update (node_client cl) x w = (u, w') \<Longrightarrow>
      shown w \<subseteq> shown w' \<and> past w \<subseteq> past w' \<and> sent w' = sent w @ [Updated x]"
    and delete_sent: "Delete (pod_client cl) p w = (d, w') \<Longrightarrow>
      shown w \<subseteq> shown w' \<and> past w \<subseteq> past w' \<and> sent w' = sent w @ [Deleted p]"
    and retry_runs: "RetryOnConflict cl f w = (r, w') \<Longrightarrow> retried f w r w'"

sublocale shared_api \<subseteq> nsc: seen_kind "nsc_client cl" shown past sent shown nscs ckey by (rule nsc_seen)
sublocale shared_api \<subseteq> node: seen_kind "node_client cl" shown past sent shown nodes ckey by (rule node_seen)
sublocale shared_api \<subseteq> cpod: seen_kind "pod_client cl" shown past sent shown pods nkey by (rule cpod_seen)
sublocale shared_api \<subseteq> ns: seen_kind "ns_client cl" shown past sent shown nss ckey by (rule ns_seen)
sublocale shared_api \<subseteq> lease: seen_kind "lease_client cl" shown past sent shown leases nkey by (rule lease_seen)
sublocale shared_api \<subseteq> pod: seen_kind "pod_client cw" shown past sent past pods nkey by (rule pod_seen)
sublocale shared_api \<subseteq> pvc: seen_kind "pvc_client cw" shown past sent past pvcs nkey by (rule pvc_seen)
sublocale shared_api \<subseteq> vs: seen_kind "vs_client cw" shown past sent past vss nkey by (rule vs_seen)

section \<open>What justifies a write\<close>

text \<open>The selectors that the NFSStorageClasses of one moment ask for.\<close>

definition demanded :: "cluster \<Rightarrow> LabelSelector set" where
  "demanded c =
     (if (\<exists>k nsc. nscs c k = Some nsc) \<and> (\<forall>k nsc. nscs c k = Some nsc \<longrightarrow> selector_of nsc \<noteq> None)
      then {s. \<exists>k nsc. nscs c k = Some nsc \<and> selector_of nsc = Some s} else {DefaultNodeSelector})"

lemma wanted_demanded: "wanted c x \<longleftrightarrow> (\<exists>s \<in> demanded c. selector_matches s (smap_of (Labels x)))"
proof (cases "(\<exists>k nsc. nscs c k = Some nsc) \<and> (\<forall>k nsc. nscs c k = Some nsc \<longrightarrow> selector_of nsc \<noteq> None)")
  case True
  then show ?thesis unfolding wanted_def demanded_def by simp blast
next
  case False
  then show ?thesis unfolding wanted_def demanded_def by (simp only: if_False) simp
qed

definition seen_wanted :: "cluster set \<Rightarrow> string \<Rightarrow> bool" where
  "seen_wanted H n \<longleftrightarrow> (\<exists>c0 \<in> H. \<exists>s \<in> demanded c0. \<exists>c \<in> H. \<exists>x. nodes c ('''', n) = Some x \<and>
     selector_matches s (smap_of (Labels x)))"

text \<open>The nodes are listed once per selector, each time at a moment of its own.\<close>

definition seen_unwanted :: "cluster set \<Rightarrow> string \<Rightarrow> bool" where
  "seen_unwanted H n \<longleftrightarrow> (\<exists>c \<in> H. \<exists>x. nodes c ('''', n) = Some x \<and> nfs_node x) \<and>
     (\<exists>c0 \<in> H. \<forall>s \<in> demanded c0. \<exists>c \<in> H. \<forall>x. nodes c ('''', n) = Some x \<longrightarrow> \<not> selector_matches s (smap_of (Labels x)))"

definition seen_foreign :: "cluster set \<Rightarrow> string \<Rightarrow> string \<Rightarrow> bool" where
  "seen_foreign P N q \<longleftrightarrow> (\<exists>c \<in> P. \<exists>p. pvcs c (N, q) = Some p \<and> \<not> nfs_claim p)"

text \<open>The pods of namespace \<open>N\<close> were listed at a moment when those on node \<open>n\<close> had only claims that were each read as somebody else's.\<close>

definition seen_no_pod :: "cluster set \<Rightarrow> string \<Rightarrow> string \<Rightarrow> bool" where
  "seen_no_pod P n N \<longleftrightarrow> (\<exists>c \<in> P. \<forall>k pod. pods c k = Some pod \<and> Namespace pod = N \<and> NodeName pod = n \<longrightarrow>
     (\<forall>v \<in> set (Volumes pod). \<forall>q. PersistentVolumeClaim v = Some q \<longrightarrow> seen_foreign P N q))"

definition seen_no_snapshot :: "cluster set \<Rightarrow> string \<Rightarrow> bool" where
  "seen_no_snapshot P N \<longleftrightarrow> (\<exists>c \<in> P. \<forall>k v q. vss c k = Some v \<and> Namespace v = N \<and> ReadyToUse v \<noteq> Some (Some True) \<and>
     SourcePVCName v = Some q \<longrightarrow> seen_foreign P N q)"

definition seen_no_claim :: "cluster set \<Rightarrow> string \<Rightarrow> bool" where
  "seen_no_claim P N \<longleftrightarrow> (\<exists>c \<in> P. \<forall>k p. pvcs c k = Some p \<and> Namespace p = N \<and> Phase p = ''Pending'' \<longrightarrow> \<not> nfs_claim p)"

definition seen_controller :: "cluster set \<Rightarrow> string \<Rightarrow> string \<Rightarrow> bool" where
  "seen_controller H ns h \<longleftrightarrow>
     (\<exists>c \<in> H. h = '''' \<and> (\<forall>k p. pods c k = Some p \<and> Namespace p = ns \<longrightarrow> \<not> CSIControllerLabel \<subseteq>\<^sub>f smap_of (Labels p))) \<or>
     (\<exists>c \<in> H. \<exists>l. leases c (ns, csiNFSExternalSnapshotterLeaseName) = Some l \<and> HolderIdentity l = Some h)"

definition seen_unprotected :: "cluster set \<Rightarrow> cluster set \<Rightarrow> string \<Rightarrow> string \<Rightarrow> bool" where
  "seen_unprotected H P ns n \<longleftrightarrow> (\<exists>c0 \<in> H. \<exists>h. seen_controller H ns h \<and>
     (\<forall>N. nss c0 ('''', N) \<noteq> None \<longrightarrow> seen_no_pod P n N \<and> (n = h \<longrightarrow> seen_no_snapshot P N \<and> seen_no_claim P N)))"

text \<open>An update sent for a node takes the node as it was read and either adds the label to a node seen wanted, or drops it from a
  labelled node seen unwanted and unprotected.\<close>

definition justified :: "cluster set \<Rightarrow> cluster set \<Rightarrow> string \<Rightarrow> Node \<Rightarrow> bool" where
  "justified H P ns y \<longleftrightarrow> (\<exists>c \<in> H. \<exists>x. nodes c ('''', Name y) = Some x \<and> y = x\<lparr>Labels := Labels y\<rparr> \<and>
     (smap_of (Labels y) = fmupd NFSNodeLabelKey '''' (smap_of (Labels x)) \<and> seen_wanted H (Name y) \<or>
      smap_of (Labels y) = fmdrop NFSNodeLabelKey (smap_of (Labels x)) \<and> seen_unwanted H (Name y) \<and>
        seen_unprotected H P ns (Name y)))"

text \<open>A pod is deleted as it was read: one of the module's own, on a node seen without the label, and a controller pod only if nothing
  was seen pending.\<close>

definition seen_stray :: "cluster set \<Rightarrow> string \<Rightarrow> Pod \<Rightarrow> bool" where
  "seen_stray H ns p \<longleftrightarrow> (\<exists>c \<in> H. pods c (nkey p) = Some p) \<and> (ns = '''' \<or> Namespace p = ns) \<and> NodeName p \<noteq> '''' \<and>
     (\<exists>s \<in> set ModulePodSelectorList. s \<subseteq>\<^sub>f smap_of (Labels p)) \<and>
     (\<exists>c \<in> H. \<forall>x. nodes c ('''', NodeName p) = Some x \<longrightarrow> \<not> nfs_node x)"

definition seen_idle :: "cluster set \<Rightarrow> cluster set \<Rightarrow> bool" where
  "seen_idle H P \<longleftrightarrow> (\<exists>c0 \<in> H. \<forall>N. nss c0 ('''', N) \<noteq> None \<longrightarrow> seen_no_snapshot P N \<and> seen_no_claim P N)"

fun justified_write :: "cluster set \<Rightarrow> cluster set \<Rightarrow> string \<Rightarrow> sent_write \<Rightarrow> bool" where
  "justified_write H P ns (Updated y) \<longleftrightarrow> justified H P ns y"
| "justified_write H P ns (Deleted p) \<longleftrightarrow> seen_stray H ns p \<and> (controller_pod p \<longrightarrow> seen_idle H P)"

text \<open>Whatever is seen stays seen.\<close>

lemma seen_wanted_mono: "seen_wanted H n \<Longrightarrow> H \<subseteq> H' \<Longrightarrow> seen_wanted H' n"
  unfolding seen_wanted_def by blast

lemma seen_unwanted_mono: "seen_unwanted H n \<Longrightarrow> H \<subseteq> H' \<Longrightarrow> seen_unwanted H' n"
  unfolding seen_unwanted_def by blast

lemma seen_foreign_mono: "seen_foreign P N q \<Longrightarrow> P \<subseteq> P' \<Longrightarrow> seen_foreign P' N q"
  unfolding seen_foreign_def by blast

lemma seen_no_pod_mono: "seen_no_pod P n N \<Longrightarrow> P \<subseteq> P' \<Longrightarrow> seen_no_pod P' n N"
  unfolding seen_no_pod_def by (meson seen_foreign_mono subset_iff)

lemma seen_no_snapshot_mono: "seen_no_snapshot P N \<Longrightarrow> P \<subseteq> P' \<Longrightarrow> seen_no_snapshot P' N"
  unfolding seen_no_snapshot_def by (meson seen_foreign_mono subset_iff)

lemma seen_no_claim_mono: "seen_no_claim P N \<Longrightarrow> P \<subseteq> P' \<Longrightarrow> seen_no_claim P' N"
  unfolding seen_no_claim_def by blast

lemma seen_controller_mono: "seen_controller H ns h \<Longrightarrow> H \<subseteq> H' \<Longrightarrow> seen_controller H' ns h"
  unfolding seen_controller_def by blast

lemma seen_unprotected_mono: "seen_unprotected H P ns n \<Longrightarrow> H \<subseteq> H' \<Longrightarrow> P \<subseteq> P' \<Longrightarrow> seen_unprotected H' P' ns n"
  unfolding seen_unprotected_def
  by (meson seen_controller_mono seen_no_pod_mono seen_no_snapshot_mono seen_no_claim_mono subset_iff)

lemma justified_mono: "justified H P ns y \<Longrightarrow> H \<subseteq> H' \<Longrightarrow> P \<subseteq> P' \<Longrightarrow> justified H' P' ns y"
  unfolding justified_def by (meson seen_wanted_mono seen_unwanted_mono seen_unprotected_mono subset_iff)

lemma seen_stray_mono: "seen_stray H ns p \<Longrightarrow> H \<subseteq> H' \<Longrightarrow> seen_stray H' ns p"
  unfolding seen_stray_def by blast

lemma seen_idle_mono: "seen_idle H P \<Longrightarrow> H \<subseteq> H' \<Longrightarrow> P \<subseteq> P' \<Longrightarrow> seen_idle H' P'"
  unfolding seen_idle_def by (meson seen_no_snapshot_mono seen_no_claim_mono subset_iff)

lemma justified_write_mono: "justified_write H P ns x \<Longrightarrow> H \<subseteq> H' \<Longrightarrow> P \<subseteq> P' \<Longrightarrow> justified_write H' P' ns x"
  by (cases x) (auto intro: justified_mono seen_stray_mono seen_idle_mono)

section \<open>Reading\<close>

context shared_api
begin

abbreviation calm :: "'w \<Rightarrow> 'w \<Rightarrow> bool" where
  "calm \<equiv> quiet shown past sent"

lemma calm_mono: "calm w w' \<Longrightarrow> shown w \<subseteq> shown w'" "calm w w' \<Longrightarrow> past w \<subseteq> past w'"
  by (simp_all add: quiet_def)

lemma addNewNodes_members: "set (addNewNodes xs acc) \<subseteq> set acc \<union> set xs"
proof (induction xs arbitrary: acc)
  case (Cons x xs)
  from Cons.IH [of acc] Cons.IH [of "acc @ [x]"] show ?case by (simp only: addNewNodes.simps split: if_split) auto
qed simp

lemma addNewNodes_names: "Name ` set (addNewNodes xs acc) = Name ` (set acc \<union> set xs)"
  by (induction xs arbitrary: acc) (auto split: if_splits)

lemma selectNodes_calm: "selectNodes L cl sels acc w = (r, w') \<Longrightarrow> calm w w'"
proof (induction sels arbitrary: acc w)
  case (Cons s sels)
  then show ?case
    by (auto split: sum.splits prod.splits) (metis node.list_quiet quiet_trans)+
qed simp

lemma selectNodes_seen:
  assumes "selectNodes L cl sels acc w = (Inr xs, w')"
  shows "(\<forall>x \<in> set xs. x \<in> set acc \<or> (\<exists>s \<in> set sels. \<exists>c \<in> shown w'. nodes c (ckey x) = Some x \<and> selector_matches s (smap_of (Labels x)))) \<and>
    Name ` set acc \<subseteq> Name ` set xs \<and>
    (\<forall>s \<in> set sels. \<exists>c \<in> shown w'. \<forall>x. nodes c (ckey x) = Some x \<and> selector_matches s (smap_of (Labels x)) \<longrightarrow> Name x \<in> Name ` set xs)"
  using assms
proof (induction sels arbitrary: acc w)
  case (Cons s sels)
  from Cons.prems obtain P where P: "LabelSelectorAsSelector L s = Inr P"
    by (cases "LabelSelectorAsSelector L s") auto
  obtain l w1 where l: "List (node_client cl) [MatchingSelector P] w = (l, w1)" by fastforce
  from Cons.prems P l obtain ys where ys: "l = Inr ys" by (cases l) auto
  from node.list_seen [OF l [unfolded ys]] AsSelector_Inr_matches [OF P] obtain c where c: "c \<in> shown w1"
    and mem: "\<And>x. x \<in> set ys \<longleftrightarrow> nodes c (ckey x) = Some x \<and> selector_matches s (smap_of (Labels x))"
    by auto
  have rest: "selectNodes L cl sels (addNewNodes ys acc) w1 = (Inr xs, w')" using Cons.prems P l ys by simp
  have c': "c \<in> shown w'" using c calm_mono(1) [OF selectNodes_calm [OF rest]] by blast
  note IH = Cons.IH [OF rest]
  have names: "Name ` (set acc \<union> set ys) \<subseteq> Name ` set xs" using IH unfolding addNewNodes_names by blast
  show ?case
  proof (intro conjI ballI)
    fix x assume "x \<in> set xs"
    with IH addNewNodes_members [of ys acc] consider "x \<in> set acc" | "x \<in> set ys" |
      "\<exists>s \<in> set sels. \<exists>c \<in> shown w'. nodes c (ckey x) = Some x \<and> selector_matches s (smap_of (Labels x))"
      by blast
    then show "x \<in> set acc \<or> (\<exists>s \<in> set (s # sels). \<exists>c \<in> shown w'. nodes c (ckey x) = Some x \<and> selector_matches s (smap_of (Labels x)))"
    proof cases
      case 2
      with c' show ?thesis unfolding mem by auto
    qed simp_all
  next
    show "Name ` set acc \<subseteq> Name ` set xs" using names by blast
  next
    fix s' assume "s' \<in> set (s # sels)"
    then consider "s' = s" | "s' \<in> set sels" by auto
    then show "\<exists>c \<in> shown w'. \<forall>x. nodes c (ckey x) = Some x \<and> selector_matches s' (smap_of (Labels x)) \<longrightarrow> Name x \<in> Name ` set xs"
    proof cases
      case 1
      with c' mem names show ?thesis by blast
    qed (use IH in blast)
  qed
qed simp

text \<open>The namespaces of the cluster, the pods on a node and the claims of a pod, each read at a moment of its own.\<close>

lemma podUsesNFS_calm: "podUsesNFS cw pod vs w = (r, w') \<Longrightarrow> calm w w'"
proof (induction vs arbitrary: w)
  case (Cons v vs)
  then show ?case
    by (auto split: option.splits sum.splits prod.splits if_splits) (metis pvc.get_quiet quiet_trans)+
qed simp

lemma collectPods_calm: "collectPods cw ps m w = (r, w') \<Longrightarrow> calm w w'"
proof (induction ps arbitrary: m w)
  case (Cons p ps)
  then show ?case
    by (auto split: sum.splits prod.splits) (metis podUsesNFS_calm quiet_trans)+
qed simp

lemma collectNamespacePods_calm: "collectNamespacePods cw nsl m w = (r, w') \<Longrightarrow> calm w w'"
proof (induction nsl arbitrary: m w)
  case (Cons n nsl)
  then show ?case
    by (auto split: sum.splits prod.splits) (metis pod.list_quiet collectPods_calm quiet_trans)+
qed simp

lemma get_foreign:
  "Get (pvc_client cw) N q w = (Inr p, w') \<Longrightarrow> \<not> nfs_claim p \<Longrightarrow> seen_foreign (past w') N q"
  unfolding seen_foreign_def using pvc.get_seen by blast

lemma podUsesNFS_seen:
  assumes "podUsesNFS cw pod vs w = (Inr False, w')"
  shows "\<forall>v \<in> set vs. \<forall>q. PersistentVolumeClaim v = Some q \<longrightarrow> seen_foreign (past w') (Namespace pod) q"
  using assms
proof (induction vs arbitrary: w)
  case (Cons v vs)
  show ?case
  proof (cases "PersistentVolumeClaim v")
    case None
    with Cons show ?thesis by simp
  next
    case (Some q)
    obtain g w1 where g: "Get (pvc_client cw) (Namespace pod) q w = (g, w1)" by fastforce
    with Cons.prems Some obtain p where p: "g = Inr p" by (cases g) auto
    from Cons.prems Some g p have nfs: "\<not> nfs_claim p" and rest: "podUsesNFS cw pod vs w1 = (Inr False, w')"
      by (auto simp: nfs_claim_def split: if_splits)
    have "seen_foreign (past w') (Namespace pod) q"
      by (rule seen_foreign_mono [OF get_foreign [OF g [unfolded p] nfs] calm_mono(2) [OF podUsesNFS_calm [OF rest]]])
    with Cons.IH [OF rest] Some show ?thesis by simp
  qed
qed simp

lemma collectPods_seen:
  assumes "collectPods cw ps m w = (Inr m', w')" and "\<not> has_pods m' n"
  shows "\<not> has_pods m n \<and> (\<forall>pod \<in> set ps. NodeName pod = n \<longrightarrow>
    (\<forall>v \<in> set (Volumes pod). \<forall>q. PersistentVolumeClaim v = Some q \<longrightarrow> seen_foreign (past w') (Namespace pod) q))"
  using assms(1)
proof (induction ps arbitrary: m w)
  case (Cons pod ps)
  obtain u w1 where u: "podUsesNFS cw pod (Volumes pod) w = (u, w1)" by fastforce
  with Cons.prems obtain b where b: "u = Inr b" by (cases u) auto
  from Cons.prems u b have rest: "collectPods cw ps (if b then appendPod m pod else m) w1 = (Inr m', w')" by simp
  note IH = Cons.IH [OF rest] and mono = calm_mono(2) [OF collectPods_calm [OF rest]]
  show ?case
  proof (cases b)
    case True
    with IH show ?thesis by (simp add: has_pods_append)
  next
    case False
    with u b have "podUsesNFS cw pod (Volumes pod) w = (Inr False, w1)" by simp
    from podUsesNFS_seen [OF this] seen_foreign_mono [OF _ mono]
    have "\<forall>v \<in> set (Volumes pod). \<forall>q. PersistentVolumeClaim v = Some q \<longrightarrow> seen_foreign (past w') (Namespace pod) q"
      by blast
    with IH False show ?thesis by simp
  qed
qed (use assms(2) in simp)

lemma collectNamespacePods_seen:
  assumes "collectNamespacePods cw nsl m w = (Inr m', w')" and "\<not> has_pods m' n"
  shows "\<not> has_pods m n \<and> (\<forall>N \<in> Name ` set nsl. seen_no_pod (past w') n N)"
  using assms(1)
proof (induction nsl arbitrary: m w)
  case (Cons ns nsl)
  obtain l w1 where l: "List (pod_client cw) [InNamespace (Name ns)] w = (l, w1)" by fastforce
  with Cons.prems obtain ps where ps: "l = Inr ps" by (cases l) auto
  obtain g w2 where g: "collectPods cw ps m w1 = (g, w2)" by fastforce
  with Cons.prems l ps obtain m1 where m1: "g = Inr m1" by (cases g) auto
  from Cons.prems l ps g m1 have rest: "collectNamespacePods cw nsl m1 w2 = (Inr m', w')" by simp
  note mono1 = calm_mono(2) [OF collectPods_calm [OF g]] and mono2 = calm_mono(2) [OF collectNamespacePods_calm [OF rest]]
  from Cons.IH [OF rest] have none: "\<not> has_pods m1 n" and IH: "\<forall>N \<in> Name ` set nsl. seen_no_pod (past w') n N" by auto
  from collectPods_seen [OF g [unfolded m1] none] have m: "\<not> has_pods m n"
    and clean: "\<And>pod v q. pod \<in> set ps \<Longrightarrow> NodeName pod = n \<Longrightarrow> v \<in> set (Volumes pod) \<Longrightarrow> PersistentVolumeClaim v = Some q \<Longrightarrow>
      seen_foreign (past w2) (Namespace pod) q" by auto
  from pod.list_seen [OF l [unfolded ps]] obtain c where c: "c \<in> past w1"
    and mem: "\<And>p. p \<in> set ps \<longleftrightarrow> pods c (nkey p) = Some p \<and> (Name ns = '''' \<or> Namespace p = Name ns)"
    by auto
  have "p \<in> set ps" if "pods c k = Some p" "Namespace p = Name ns" for k p
    using that pod.keyed_seen [OF c that(1)] mem by simp
  with clean have "seen_no_pod (past w2) n (Name ns)"
    using c mono1 unfolding seen_no_pod_def by (metis subsetD)
  then have "seen_no_pod (past w') n (Name ns)" by (rule seen_no_pod_mono [OF _ mono2])
  with m IH show ?case by simp
qed (use assms(2) in simp)

lemma collectSnapshots_calm: "collectSnapshots cw p vs acc w = (r, w') \<Longrightarrow> calm w w'"
proof (induction vs arbitrary: acc w)
  case (Cons v vs)
  then show ?case
    by (auto split: option.splits sum.splits prod.splits if_splits) (metis pvc.get_quiet quiet_trans)+
qed simp

lemma collectNamespaceSnapshots_calm: "collectNamespaceSnapshots cw p nsl acc w = (r, w') \<Longrightarrow> calm w w'"
proof (induction nsl arbitrary: acc w)
  case (Cons n nsl)
  then show ?case
    by (auto split: sum.splits prod.splits) (metis vs.list_quiet collectSnapshots_calm quiet_trans)+
qed simp

lemma collectNamespaceClaims_calm: "collectNamespaceClaims cw p nsl acc w = (r, w') \<Longrightarrow> calm w w'"
proof (induction nsl arbitrary: acc w)
  case (Cons n nsl)
  then show ?case
    by (auto split: sum.splits prod.splits) (metis pvc.list_quiet quiet_trans)+
qed simp

lemma removable_calm: "IsCSIControllerRemovable cw p nsl w = (r, w') \<Longrightarrow> calm w w'"
  by (auto simp: IsCSIControllerRemovable_def GetPendingVolumeSnapshots_def GetPendingPersistentVolumeClaims_def
      split: sum.splits prod.splits if_splits)
    (metis collectNamespaceSnapshots_calm collectNamespaceClaims_calm quiet_trans)+

lemma collectSnapshots_seen:
  assumes "collectSnapshots cw NFSStorageClassProvisioner vs acc w = (Inr [], w')"
  shows "acc = [] \<and> (\<forall>v \<in> set vs. \<forall>q. ReadyToUse v \<noteq> Some (Some True) \<and> SourcePVCName v = Some q \<longrightarrow>
    seen_foreign (past w') (Namespace v) q)"
  using assms
proof (induction vs arbitrary: acc w)
  case (Cons v vs)
  consider "ReadyToUse v = Some (Some True) \<or> SourcePVCName v = None" |
    q where "ReadyToUse v \<noteq> Some (Some True)" "SourcePVCName v = Some q"
    by (cases "SourcePVCName v") auto
  then show ?case
  proof cases
    case 1
    with Cons.prems have "collectSnapshots cw NFSStorageClassProvisioner vs acc w = (Inr [], w')" by (auto split: if_splits)
    from Cons.IH [OF this] 1 show ?thesis by auto
  next
    case (2 q)
    obtain g w1 where g: "Get (pvc_client cw) (Namespace v) q w = (g, w1)" by fastforce
    with Cons.prems 2 obtain p where p: "g = Inr p" by (cases g) auto
    from Cons.prems 2 g p have rest:
      "collectSnapshots cw NFSStorageClassProvisioner vs (if nfs_claim p then acc @ [v] else acc) w1 = (Inr [], w')"
      by (simp add: nfs_claim_def)
    from Cons.IH [OF rest] have nfs: "\<not> nfs_claim p" by auto
    have "seen_foreign (past w') (Namespace v) q"
      by (rule seen_foreign_mono [OF get_foreign [OF g [unfolded p] nfs] calm_mono(2) [OF collectSnapshots_calm [OF rest]]])
    with Cons.IH [OF rest] nfs 2 show ?thesis by auto
  qed
qed simp

lemma collectNamespaceSnapshots_seen:
  assumes "collectNamespaceSnapshots cw NFSStorageClassProvisioner nsl acc w = (Inr [], w')"
  shows "acc = [] \<and> (\<forall>N \<in> Name ` set nsl. seen_no_snapshot (past w') N)"
  using assms
proof (induction nsl arbitrary: acc w)
  case (Cons ns nsl)
  obtain l w1 where l: "List (vs_client cw) [InNamespace (Name ns)] w = (l, w1)" by fastforce
  with Cons.prems obtain xs where xs: "l = Inr xs" by (cases l) auto
  obtain g w2 where g: "collectSnapshots cw NFSStorageClassProvisioner xs acc w1 = (g, w2)" by fastforce
  with Cons.prems l xs obtain ys where ys: "g = Inr ys" by (cases g) auto
  from Cons.prems l xs g ys have rest: "collectNamespaceSnapshots cw NFSStorageClassProvisioner nsl ys w2 = (Inr [], w')" by simp
  note mono1 = calm_mono(2) [OF collectSnapshots_calm [OF g]] and mono2 = calm_mono(2) [OF collectNamespaceSnapshots_calm [OF rest]]
  from Cons.IH [OF rest] have "ys = []" and IH: "\<forall>N \<in> Name ` set nsl. seen_no_snapshot (past w') N" by auto
  from collectSnapshots_seen [OF g [unfolded ys \<open>ys = []\<close>]] have acc: "acc = []"
    and clean: "\<And>v q. v \<in> set xs \<Longrightarrow> ReadyToUse v \<noteq> Some (Some True) \<Longrightarrow> SourcePVCName v = Some q \<Longrightarrow>
      seen_foreign (past w2) (Namespace v) q" by auto
  from vs.list_seen [OF l [unfolded xs]] obtain c where c: "c \<in> past w1"
    and mem: "\<And>v. v \<in> set xs \<longleftrightarrow> vss c (nkey v) = Some v \<and> (Name ns = '''' \<or> Namespace v = Name ns)"
    by auto
  have "v \<in> set xs" if "vss c k = Some v" "Namespace v = Name ns" for k v
    using that vs.keyed_seen [OF c that(1)] mem by simp
  with clean have "seen_no_snapshot (past w2) (Name ns)"
    using c mono1 unfolding seen_no_snapshot_def by (metis subsetD)
  then have "seen_no_snapshot (past w') (Name ns)" by (rule seen_no_snapshot_mono [OF _ mono2])
  with acc IH show ?case by simp
qed simp

lemma collectClaims_nil:
  "collectClaims NFSStorageClassProvisioner ps acc = [] \<longleftrightarrow> acc = [] \<and> (\<forall>p \<in> set ps. Phase p = ''Pending'' \<longrightarrow> \<not> nfs_claim p)"
  by (induction ps arbitrary: acc) (auto simp: nfs_claim_def)

lemma collectNamespaceClaims_seen:
  assumes "collectNamespaceClaims cw NFSStorageClassProvisioner nsl acc w = (Inr [], w')"
  shows "acc = [] \<and> (\<forall>N \<in> Name ` set nsl. seen_no_claim (past w') N)"
  using assms
proof (induction nsl arbitrary: acc w)
  case (Cons ns nsl)
  obtain l w1 where l: "List (pvc_client cw) [InNamespace (Name ns)] w = (l, w1)" by fastforce
  with Cons.prems obtain xs where xs: "l = Inr xs" by (cases l) auto
  from Cons.prems l xs have rest: "collectNamespaceClaims cw NFSStorageClassProvisioner nsl
      (collectClaims NFSStorageClassProvisioner xs acc) w1 = (Inr [], w')" by simp
  note mono = calm_mono(2) [OF collectNamespaceClaims_calm [OF rest]]
  from Cons.IH [OF rest] have acc: "acc = []" and clean: "\<And>p. p \<in> set xs \<Longrightarrow> Phase p = ''Pending'' \<Longrightarrow> \<not> nfs_claim p"
    and IH: "\<forall>N \<in> Name ` set nsl. seen_no_claim (past w') N"
    by (auto simp: collectClaims_nil)
  from pvc.list_seen [OF l [unfolded xs]] obtain c where c: "c \<in> past w1"
    and mem: "\<And>p. p \<in> set xs \<longleftrightarrow> pvcs c (nkey p) = Some p \<and> (Name ns = '''' \<or> Namespace p = Name ns)"
    by auto
  have "p \<in> set xs" if "pvcs c k = Some p" "Namespace p = Name ns" for k p
    using that pvc.keyed_seen [OF c that(1)] mem by simp
  with clean c have "seen_no_claim (past w1) (Name ns)" unfolding seen_no_claim_def by blast
  then have "seen_no_claim (past w') (Name ns)" by (rule seen_no_claim_mono [OF _ mono])
  with acc IH show ?case by simp
qed simp

lemma removable_seen:
  assumes "IsCSIControllerRemovable cw NFSStorageClassProvisioner nsl w = (Inr True, w')" and "N \<in> Name ` set nsl"
  shows "seen_no_snapshot (past w') N \<and> seen_no_claim (past w') N"
proof -
  obtain s w1 where s: "collectNamespaceSnapshots cw NFSStorageClassProvisioner nsl [] w = (s, w1)" by fastforce
  obtain p where p: "collectNamespaceClaims cw NFSStorageClassProvisioner nsl [] w1 = (p, w')" and "s = Inr []" "p = Inr []"
    using assms(1) s
    by (auto simp: IsCSIControllerRemovable_def GetPendingVolumeSnapshots_def GetPendingPersistentVolumeClaims_def
        split: sum.splits prod.splits if_splits)
  then have "\<forall>N \<in> Name ` set nsl. seen_no_snapshot (past w1) N" "\<forall>N \<in> Name ` set nsl. seen_no_claim (past w') N"
    using collectNamespaceSnapshots_seen collectNamespaceClaims_seen s by blast+
  with assms(2) seen_no_snapshot_mono calm_mono(2) [OF collectNamespaceClaims_calm [OF p]] show ?thesis by blast
qed

lemma controller_name_calm: "GetCCSIControllerNodeName cl ns lease labels w = (r, w') \<Longrightarrow> calm w w'"
  by (auto simp: GetCCSIControllerNodeName_def split: sum.splits prod.splits if_splits option.splits)
    (metis cpod.list_quiet lease.get_quiet quiet_trans)+

lemma controller_name_seen:
  assumes "GetCCSIControllerNodeName cl ns csiNFSExternalSnapshotterLeaseName CSIControllerLabel w = (Inr h, w')"
  shows "seen_controller (shown w') ns h"
proof -
  obtain l w1 where l: "List (pod_client cl) [InNamespace ns, MatchingLabels CSIControllerLabel] w = (l, w1)" by fastforce
  with assms obtain ps where ps: "l = Inr ps" by (cases l) (auto simp: GetCCSIControllerNodeName_def)
  from cpod.list_seen [OF l [unfolded ps]] obtain c where c: "c \<in> shown w1"
    and mem: "\<And>p. p \<in> set ps \<longleftrightarrow> pods c (nkey p) = Some p \<and> (ns = '''' \<or> Namespace p = ns) \<and> CSIControllerLabel \<subseteq>\<^sub>f smap_of (Labels p)"
    by auto
  show ?thesis
  proof (cases "ps = []")
    case True
    with assms l ps have "h = ''''" "w' = w1" by (auto simp: GetCCSIControllerNodeName_def)
    moreover have "\<not> CSIControllerLabel \<subseteq>\<^sub>f smap_of (Labels p)" if "pods c k = Some p" "Namespace p = ns" for k p
      using mem [of p] that cpod.keyed_seen [OF c that(1)] True by simp
    ultimately show ?thesis using c unfolding seen_controller_def by blast
  next
    case False
    then obtain x where "Get (lease_client cl) ns csiNFSExternalSnapshotterLeaseName w1 = (Inr x, w')" "HolderIdentity x = Some h"
      using assms l ps by (auto simp: GetCCSIControllerNodeName_def split: sum.splits prod.splits option.splits)
    then show ?thesis using lease.get_seen unfolding seen_controller_def by blast
  qed
qed

lemma selectors_demanded:
  assumes "List (nsc_client cl) [] w = (Inr items, w')"
  obtains c where "c \<in> shown w'" "set (GetNodeSelectorFromNFSStorageClasses items) = demanded c"
proof -
  from nsc.list_seen [OF assms] obtain c where c: "c \<in> shown w'" and mem: "\<And>x. x \<in> set items \<longleftrightarrow> nscs c (ckey x) = Some x"
    by auto
  have stored: "x \<in> set items" if "nscs c k = Some x" for k x
    using that nsc.keyed_seen [OF c that] mem by simp
  have ne: "items \<noteq> [] \<longleftrightarrow> (\<exists>k x. nscs c k = Some x)"
    using mem stored by (metis list.set_intros(1) neq_Nil_conv empty_iff list.set(1))
  have all: "(\<forall>x \<in> set items. selector_of x \<noteq> None) \<longleftrightarrow> (\<forall>k x. nscs c k = Some x \<longrightarrow> selector_of x \<noteq> None)"
    using mem stored by blast
  have "(the \<circ> selector_of) ` set items = {s. \<exists>k x. nscs c k = Some x \<and> selector_of x = Some s}"
    if "\<forall>x \<in> set items. selector_of x \<noteq> None"
  proof -
    have "s \<in> (the \<circ> selector_of) ` set items \<longleftrightarrow> (\<exists>x \<in> set items. selector_of x = Some s)" for s
      using that by (force simp: image_iff)
    then show ?thesis using mem stored by blast
  qed
  then have "set (GetNodeSelectorFromNFSStorageClasses items) = demanded c"
    unfolding GetNodeSelector_spec demanded_def ne [symmetric] all [symmetric] by auto
  with c that show thesis by blast
qed

end

end
