(* ===== verification/Node_Races.thy ===== *)
theory Node_Races
  imports Node_History
begin

text \<open>
  The writes of a turn of the node-selector loop under concurrency: each loop sends only writes that the history justifies (\<open>good\<close>).
  A server in memory that others write to before each call satisfies \<open>shared_api\<close>; on it a pod that lands at the wrong moment is missed.
\<close>

section \<open>Writing\<close>

context shared_api
begin


abbreviation good :: "string \<Rightarrow> 'w \<Rightarrow> bool" where
  "good ns w \<equiv> \<forall>y \<in> set (sent w). justified_write (shown w) (past w) ns y"

abbreviation grows :: "'w \<Rightarrow> 'w \<Rightarrow> bool" where
  "grows w w' \<equiv> shown w \<subseteq> shown w' \<and> past w \<subseteq> past w'"

lemma good_calm: "good ns w \<Longrightarrow> calm w w' \<Longrightarrow> good ns w'"
  unfolding quiet_def by (metis justified_write_mono)

lemma calm_grows: "calm w w' \<Longrightarrow> grows w w'"
  by (simp add: quiet_def)

lemma attempt_good:
  assumes a: "relabelAttempt cl g n w = (r, w')" and good: "good ns w" and w: "H0 \<subseteq> shown w" "P0 \<subseteq> past w"
    and J: "\<And>H c x. H0 \<subseteq> H \<Longrightarrow> c \<in> H \<Longrightarrow> nodes c ('''', n) = Some x \<Longrightarrow> Name x = n \<Longrightarrow>
      justified H P0 ns (x\<lparr>Labels := fst (g (Labels x))\<rparr>)"
  shows "good ns w' \<and> grows w w'"
proof -
  obtain r1 w1 where get: "Get (node_client cl) '''' n w = (r1, w1)" by fastforce
  note quiet = node.get_quiet [OF get]
  consider "w' = w1" | x y e where "r1 = Inr x" "y = x\<lparr>Labels := fst (g (Labels x))\<rparr>"
    "Update (node_client cl) y w1 = (e, w')"
    using a get by (auto simp: relabelAttempt_def split: sum.splits prod.splits if_splits)
  then show ?thesis
  proof cases
    case 1
    with good_calm [OF good quiet] calm_grows [OF quiet] show ?thesis by simp
  next
    case (2 x y e)
    from node.get_seen [OF get [unfolded 2]] obtain c where c: "c \<in> shown w1" "nodes c ('''', n) = Some x" by blast
    have n: "Name x = n" using node.keyed_seen [OF c] by (simp add: ckey_def)
    note u = update_sent [OF 2(3)]
    have H0: "H0 \<subseteq> shown w'" and P0: "P0 \<subseteq> past w'" and c': "c \<in> shown w'"
      using w u calm_mono [OF quiet] c(1) by blast+
    have "justified (shown w') (past w') ns y"
      unfolding 2(2) by (rule justified_mono [OF J [OF H0 c' c(2) n] subset_refl P0])
    moreover have "\<forall>y \<in> set (sent w1). justified_write (shown w') (past w') ns y"
      using good_calm [OF good quiet] u justified_write_mono by blast
    ultimately show ?thesis using u calm_grows [OF quiet] by auto
  qed
qed

lemma retried_good:
  assumes "retried (relabelAttempt cl g n) w r w'" and "good ns w" and "H0 \<subseteq> shown w" "P0 \<subseteq> past w"
    and J: "\<And>H c x. H0 \<subseteq> H \<Longrightarrow> c \<in> H \<Longrightarrow> nodes c ('''', n) = Some x \<Longrightarrow> Name x = n \<Longrightarrow>
      justified H P0 ns (x\<lparr>Labels := fst (g (Labels x))\<rparr>)"
  shows "good ns w' \<and> grows w w'"
  using assms(1-4)
proof (induction rule: retried.induct)
  case (last_run w r w')
  then show ?case using attempt_good J by blast
next
  case (another_run w m w1 r w')
  have 1: "good ns w1 \<and> grows w w1" by (rule attempt_good [OF another_run(1,4-6)]) (rule J)
  then have w1: "good ns w1" "H0 \<subseteq> shown w1" "P0 \<subseteq> past w1" using another_run(5,6) by auto
  from another_run(3) [OF w1] 1 show ?case by auto
qed

lemma label_maps:
  "m ++\<^sub>f nfsNodeLabels = fmupd NFSNodeLabelKey '''' m"
  "fmdrop_set (fmdom' nfsNodeLabels) m = fmdrop NFSNodeLabelKey m"
  by (auto simp: nfsNodeLabels_def intro!: fmap_ext)

lemma addLabelsLoop_good:
  assumes "addLabelsLoop cl xs w = (r, w')" and "good ns w" and "\<And>x. x \<in> set xs \<Longrightarrow> seen_wanted (shown w) (Name x)"
  shows "good ns w' \<and> grows w w'"
  using assms
proof (induction xs arbitrary: w)
  case (Cons x xs)
  obtain e w1 where a: "AddLabelsToNode cl x nfsNodeLabels w = (e, w1)" by fastforce
  have J: "justified H (past w) ns (y\<lparr>Labels := fst (AddLabelsIfNeeded (Labels y) nfsNodeLabels)\<rparr>)"
    if "shown w \<subseteq> H" "c \<in> H" "nodes c ('''', Name x) = Some y" "Name y = Name x" for H c y
  proof -
    have "seen_wanted H (Name x)" using seen_wanted_mono [OF Cons.prems(3) that(1)] by simp
    with that show ?thesis unfolding justified_def
      by (intro bexI [of _ c] exI [of _ y]) (simp_all add: AddLabelsIfNeeded_spec(1) label_maps)
  qed
  have 1: "good ns w1 \<and> grows w w1"
  proof (cases "snd (AddLabelsIfNeeded (Labels x) nfsNodeLabels)")
    case True
    with a have "RetryOnConflict cl (relabelAttempt cl (\<lambda>l. AddLabelsIfNeeded l nfsNodeLabels) (Name x)) w = (e, w1)"
      by (auto simp: AddLabelsToNode_def attempts_relabel split: prod.splits)
    from retry_runs [OF this] show ?thesis by (rule retried_good [OF _ Cons.prems(2) subset_refl subset_refl]) (rule J)
  next
    case False
    with a Cons.prems(2) show ?thesis by (auto simp: AddLabelsToNode_def split: prod.splits)
  qed
  show ?case
  proof (cases e)
    case None
    with Cons.prems(1) a have loop: "addLabelsLoop cl xs w1 = (r, w')" by simp
    have seen: "seen_wanted (shown w1) (Name y)" if "y \<in> set xs" for y
      using seen_wanted_mono [OF Cons.prems(3) [of y]] that 1 by simp
    have "good ns w1" using 1 by blast
    from Cons.IH [OF loop this seen] have "good ns w' \<and> grows w1 w'" by blast
    with 1 show ?thesis by auto
  qed (use Cons.prems(1) a 1 in simp)
qed simp

text \<open>Taking the label from one node; \<open>seen_unprotected\<close> holds by what was read up to \<open>w\<close>.\<close>

lemma RemoveLabelsFromNode_good:
  assumes rm: "RemoveLabelsFromNode cl x nfsNodeLabels w = (e, w')" and good: "good ns w"
    and seen: "seen_unwanted (shown w) (Name x)" "seen_unprotected (shown w) (past w) ns (Name x)"
  shows "good ns w' \<and> grows w w'"
proof (cases "snd (RemoveLabelsIfNeeded (Labels x) nfsNodeLabels)")
  case True
  have J: "justified H (past w) ns (y\<lparr>Labels := fst (RemoveLabelsIfNeeded (Labels y) nfsNodeLabels)\<rparr>)"
    if "shown w \<subseteq> H" "c \<in> H" "nodes c ('''', Name x) = Some y" "Name y = Name x" for H c y
  proof -
    have "seen_unwanted H (Name x)" "seen_unprotected H (past w) ns (Name x)"
      using seen_unwanted_mono [OF seen(1) that(1)] seen_unprotected_mono [OF seen(2) that(1) subset_refl] .
    with that show ?thesis unfolding justified_def
      by (intro bexI [of _ c] exI [of _ y]) (simp_all add: RemoveLabelsIfNeeded_spec(1) label_maps)
  qed
  from True rm have "RetryOnConflict cl (relabelAttempt cl (\<lambda>l. RemoveLabelsIfNeeded l nfsNodeLabels) (Name x)) w = (e, w')"
    by (auto simp: RemoveLabelsFromNode_def attempts_relabel split: prod.splits)
  from retry_runs [OF this] show ?thesis by (rule retried_good [OF _ good subset_refl subset_refl]) (rule J)
next
  case False
  with rm good show ?thesis by (auto simp: RemoveLabelsFromNode_def split: prod.splits)
qed

lemma removeLabelsLoop_good:
  assumes "removeLabelsLoop cl cw h nsl m xs w = (r, w')" and "good ns w"
    and "\<And>x. x \<in> set xs \<Longrightarrow> seen_unwanted (shown w) (Name x)"
    and "c0 \<in> shown w" and names: "\<And>N. nss c0 ('''', N) \<noteq> None \<Longrightarrow> N \<in> Name ` set nsl"
    and "seen_controller (shown w) ns h"
    and "\<And>n N. \<not> has_pods m n \<Longrightarrow> N \<in> Name ` set nsl \<Longrightarrow> seen_no_pod (past w) n N"
  shows "good ns w' \<and> grows w w'"
  using assms(1-4,6,7)
proof (induction xs arbitrary: w)
  case (Cons x xs)
  define check where "check = (if Name x = h then IsCSIControllerRemovable cw NFSStorageClassProvisioner nsl w else (Inr True, w))"
  obtain c w1 where c: "check = (c, w1)" by fastforce
  have quiet: "calm w w1" using c removable_calm by (auto simp: check_def split: if_splits)
  have good1: "good ns w1" by (rule good_calm [OF Cons.prems(2) quiet])
  have next_good: "good ns w' \<and> grows w w'"
    if l: "removeLabelsLoop cl cw h nsl m xs w2 = (r, w')" and good: "good ns w2" and g: "grows w w2" for w2
  proof -
    have "good ns w' \<and> grows w2 w'"
    proof (rule Cons.IH [OF l good])
      show "seen_unwanted (shown w2) (Name y)" if "y \<in> set xs" for y
        using seen_unwanted_mono [OF Cons.prems(3) [of y]] that g by simp
      show "c0 \<in> shown w2" using Cons.prems(4) g by blast
      show "seen_controller (shown w2) ns h" using seen_controller_mono [OF Cons.prems(5)] g by blast
      show "seen_no_pod (past w2) n N" if "\<not> has_pods m n" "N \<in> Name ` set nsl" for n N
        using seen_no_pod_mono [OF Cons.prems(6) [OF that]] g by blast
    qed
    with g show ?thesis by auto
  qed
  consider (stop) "w' = w1" | (skip) "removeLabelsLoop cl cw h nsl m xs w1 = (r, w')" |
    (remove) e w2 where "c = Inr True" "\<not> has_pods m (Name x)" "RemoveLabelsFromNode cl x nfsNodeLabels w1 = (e, w2)"
      "w' = w2 \<or> removeLabelsLoop cl cw h nsl m xs w2 = (r, w')"
    using Cons.prems(1) c
    by (auto simp: check_def [symmetric] has_pods_def split: sum.splits if_splits prod.splits option.splits)
  then show ?case
  proof cases
    case stop
    with good1 calm_grows [OF quiet] show ?thesis by simp
  next
    case skip
    from next_good [OF this good1 calm_grows [OF quiet]] show ?thesis .
  next
    case (remove e w2)
    have "seen_no_pod (past w1) (Name x) N \<and> (Name x = h \<longrightarrow> seen_no_snapshot (past w1) N \<and> seen_no_claim (past w1) N)"
      if "nss c0 ('''', N) \<noteq> None" for N
      using seen_no_pod_mono [OF Cons.prems(6) [OF remove(2) names [OF that]] calm_mono(2) [OF quiet]]
        removable_seen [OF _ names [OF that], of w w1] c remove(1)
      by (auto simp: check_def)
    moreover have "seen_controller (shown w1) ns h" "c0 \<in> shown w1"
      using seen_controller_mono [OF Cons.prems(5) calm_mono(1) [OF quiet]] Cons.prems(4) calm_mono(1) [OF quiet] by blast+
    ultimately have prot: "seen_unprotected (shown w1) (past w1) ns (Name x)" unfolding seen_unprotected_def by blast
    have unw: "seen_unwanted (shown w1) (Name x)" using seen_unwanted_mono [OF Cons.prems(3) calm_mono(1) [OF quiet]] by simp
    from RemoveLabelsFromNode_good [OF remove(3) good1 unw prot] have 2: "good ns w2" "grows w w2"
      using calm_grows [OF quiet] by auto
    from remove(4) show ?thesis
    proof
      assume "w' = w2"
      with 2 show ?thesis by simp
    qed (rule next_good [OF _ 2])
  qed
qed simp

lemma namespaces_seen:
  assumes l: "List (ns_client cl) [] w = (Inr nsl, w')"
  shows "\<exists>c0 \<in> shown w'. \<forall>N. nss c0 ('''', N) \<noteq> None \<longrightarrow> N \<in> Name ` set nsl"
proof -
  from ns.list_seen [OF l] obtain c0 where c0: "c0 \<in> shown w'" and mem: "\<And>x. x \<in> set nsl \<longleftrightarrow> nss c0 (ckey x) = Some x" by auto
  have "N \<in> Name ` set nsl" if "nss c0 ('''', N) \<noteq> None" for N
  proof -
    from that obtain x where x: "nss c0 ('''', N) = Some x" by blast
    from ns.keyed_seen [OF c0 x] have "Name x = N" by (simp add: ckey_def)
    with x mem [of x] show ?thesis by (auto simp: ckey_def)
  qed
  with c0 show ?thesis by blast
qed

lemma unlabelNodes_good:
  assumes u: "unlabelNodes cl cw ns xs w = (r, w')" and good: "good ns w"
    and unw: "\<And>x. x \<in> set xs \<Longrightarrow> seen_unwanted (shown w) (Name x)"
  shows "good ns w'"
proof -
  obtain c w1 where c: "GetCCSIControllerNodeName cl ns csiNFSExternalSnapshotterLeaseName CSIControllerLabel w = (c, w1)"
    by fastforce
  obtain l w2 where l: "List (ns_client cl) [] w1 = (l, w2)" by fastforce
  note q1 = controller_name_calm [OF c] and q2 = ns.list_quiet [OF l]
  have g1: "good ns w1" by (rule good_calm [OF good q1])
  have g2: "good ns w2" by (rule good_calm [OF g1 q2])
  consider "w' = w1" | "w' = w2" | h nsl where "c = Inr h" "l = Inr nsl"
    using u c l by (cases c; cases l) (auto simp: unlabelNodes_def)
  then show ?thesis
  proof cases
    case (3 h nsl)
    obtain g w3 where g: "GetPodsMapWithNFSVolume cw nsl w2 = (g, w3)" by fastforce
    note q3 = collectNamespacePods_calm [OF g [unfolded GetPodsMapWithNFSVolume_def]]
    have g3: "good ns w3" by (rule good_calm [OF g2 q3])
    show ?thesis
    proof (cases g)
      case (Inl e)
      with u c l g 3 g3 show ?thesis by (simp add: unlabelNodes_def)
    next
      case (Inr m)
      with u c l g 3 have loop: "removeLabelsLoop cl cw h nsl m xs w3 = (r, w')" by (simp add: unlabelNodes_def)
      from namespaces_seen [OF l [unfolded 3]] obtain c0 where c0: "c0 \<in> shown w2"
        and names: "\<And>N. nss c0 ('''', N) \<noteq> None \<Longrightarrow> N \<in> Name ` set nsl" by blast
      note H = calm_mono(1) [OF q1] calm_mono(1) [OF q2] calm_mono(1) [OF q3]
      have "good ns w' \<and> grows w3 w'"
      proof (rule removeLabelsLoop_good [OF loop g3 _ _ names])
        show "seen_unwanted (shown w3) (Name x)" if "x \<in> set xs" for x
          using seen_unwanted_mono [OF unw [OF that]] H by blast
        show "c0 \<in> shown w3" using c0 H by blast
        show "seen_controller (shown w3) ns h"
          using seen_controller_mono [OF controller_name_seen [OF c [unfolded 3]]] H by blast
        show "seen_no_pod (past w3) n N" if "\<not> has_pods m n" "N \<in> Name ` set nsl" for n N
          using collectNamespacePods_seen [OF g [unfolded GetPodsMapWithNFSVolume_def Inr] that(1)] that(2) by blast
      qed
      then show ?thesis by blast
    qed
  qed (simp_all add: g1 g2)
qed

lemma selection_seen:
  assumes l: "List (nsc_client cl) [] w = (Inr items, w1)"
    and g: "GetNodesBySelectorList L cl (GetNodeSelectorFromNFSStorageClasses items) w1 = (Inr xs, w2)"
  shows "\<And>x. x \<in> set xs \<Longrightarrow> seen_wanted (shown w2) (Name x)"
    and "\<And>n. n \<notin> Name ` set xs \<Longrightarrow> \<exists>c0 \<in> shown w2. \<forall>s \<in> demanded c0. \<exists>c \<in> shown w2. \<forall>x.
      nodes c ('''', n) = Some x \<longrightarrow> \<not> selector_matches s (smap_of (Labels x))"
proof -
  from selectors_demanded [OF l] obtain c0 where c0: "c0 \<in> shown w1"
    and d: "set (GetNodeSelectorFromNFSStorageClasses items) = demanded c0" by blast
  have c0': "c0 \<in> shown w2" using c0 calm_mono(1) [OF selectNodes_calm [OF g [unfolded GetNodesBySelectorList_def]]] by blast
  note sel = selectNodes_seen [OF g [unfolded GetNodesBySelectorList_def]]
  show "seen_wanted (shown w2) (Name x)" if x: "x \<in> set xs" for x
  proof -
    from sel x obtain s c where "s \<in> demanded c0" "c \<in> shown w2" "nodes c (ckey x) = Some x" "selector_matches s (smap_of (Labels x))"
      unfolding d by auto
    with c0' show ?thesis unfolding seen_wanted_def ckey_def by blast
  qed
  show "\<exists>c0 \<in> shown w2. \<forall>s \<in> demanded c0. \<exists>c \<in> shown w2. \<forall>x. nodes c ('''', n) = Some x \<longrightarrow>
      \<not> selector_matches s (smap_of (Labels x))" if n: "n \<notin> Name ` set xs" for n
  proof (rule bexI [OF _ c0'], rule ballI)
    fix s assume "s \<in> demanded c0"
    from bspec [OF conjunct2 [OF conjunct2 [OF sel]] this [folded d]] obtain c where c: "c \<in> shown w2"
      and all: "\<And>x. nodes c (ckey x) = Some x \<Longrightarrow> selector_matches s (smap_of (Labels x)) \<Longrightarrow> Name x \<in> Name ` set xs"
      by blast
    have "\<not> selector_matches s (smap_of (Labels x))" if x: "nodes c ('''', n) = Some x" for x
    proof -
      have "ckey x = ('''', n)" by (rule node.keyed_seen [OF c x])
      then have "nodes c (ckey x) = Some x" "Name x = n" using x by (simp_all add: ckey_def)
      with all n show ?thesis by blast
    qed
    with c show "\<exists>c \<in> shown w2. \<forall>x. nodes c ('''', n) = Some x \<longrightarrow> \<not> selector_matches s (smap_of (Labels x))" by blast
  qed
qed

lemma unwanted_nodes_seen:
  assumes y: "GetNodesBySelector cl NFSNodeSelector w3 = (Inr ys, w4)" and H: "H \<subseteq> shown w3"
    and unw: "\<And>n. n \<notin> Name ` set xs \<Longrightarrow> \<exists>c0 \<in> H. \<forall>s \<in> demanded c0. \<exists>c \<in> H. \<forall>x.
      nodes c ('''', n) = Some x \<longrightarrow> \<not> selector_matches s (smap_of (Labels x))"
    and x: "x \<in> set (DiffNodeLists ys xs)"
  shows "seen_unwanted (shown w4) (Name x)"
proof -
  note y' = y [unfolded GetNodesBySelector_def]
  from node.list_seen [OF y'] obtain c where c: "c \<in> shown w4"
    and mem: "\<And>x. x \<in> set ys \<longleftrightarrow> nodes c (ckey x) = Some x \<and> NFSNodeSelector \<subseteq>\<^sub>f smap_of (Labels x)" by auto
  from x have n: "nodes c ('''', Name x) = Some x" "NFSNodeSelector \<subseteq>\<^sub>f smap_of (Labels x)" "Name x \<notin> Name ` set xs"
    using mem [of x] by (auto simp: DiffNodeLists_eq ckey_def)
  have "nfs_node x" using n(2) by (auto simp: nfs_node_def NFSNodeSelector_def fmsubset.rep_eq map_le_def)
  moreover have "H \<subseteq> shown w4" using H calm_mono(1) [OF node.list_quiet [OF y']] by blast
  ultimately show ?thesis using c n(1) unw [OF n(3)] unfolding seen_unwanted_def by blast
qed

lemma reconcile_node_selector_good:
  assumes r: "ReconcileNodeSelector L cl cw ns w = (r, w')" and good: "good ns w"
  shows "good ns w'"
proof -
  obtain l w1 where l: "List (nsc_client cl) [] w = (l, w1)" by fastforce
  have g1: "good ns w1" by (rule good_calm [OF good nsc.list_quiet [OF l]])
  show ?thesis
  proof (cases l)
    case (Inl e)
    with r l g1 show ?thesis by (simp add: ReconcileNodeSelector_def)
  next
    case (Inr items)
    let ?sels = "GetNodeSelectorFromNFSStorageClasses items"
    obtain g w2 where g: "GetNodesBySelectorList L cl ?sels w1 = (g, w2)" by fastforce
    have g2: "good ns w2" by (rule good_calm [OF g1 selectNodes_calm [OF g [unfolded GetNodesBySelectorList_def]]])
    show ?thesis
    proof (cases g)
      case (Inl e)
      with r l Inr g g2 show ?thesis by (simp add: ReconcileNodeSelector_def Let_def)
    next
      case sel: (Inr xs)
      note seen = selection_seen [OF l [unfolded Inr] g [unfolded sel]]
      obtain e w3 where e: "(if length xs \<noteq> 0 then addLabelsLoop cl xs w2 else (None, w2)) = (e, w3)" by fastforce
      have "good ns w3 \<and> grows w2 w3"
      proof (cases "length xs \<noteq> 0")
        case True
        with e have "addLabelsLoop cl xs w2 = (e, w3)" by simp
        from addLabelsLoop_good [OF this g2 seen(1)] show ?thesis .
      qed (use e g2 in simp)
      then have g3: "good ns w3" and H3: "shown w2 \<subseteq> shown w3" by blast+
      show ?thesis
      proof (cases e)
        case (Some err)
        with r l Inr g sel e have "w' = w3" by (auto simp: ReconcileNodeSelector_def)
        with g3 show ?thesis by simp
      next
        case None
        obtain y w4 where y: "GetNodesBySelector cl NFSNodeSelector w3 = (y, w4)" by fastforce
        have g4: "good ns w4" by (rule good_calm [OF g3 node.list_quiet [OF y [unfolded GetNodesBySelector_def]]])
        consider "w' = w4" | ys where "y = Inr ys" "unlabelNodes cl cw ns (DiffNodeLists ys xs) w4 = (r, w')"
          using r l Inr g sel e None y by (cases y) (auto simp: ReconcileNodeSelector_def Let_def split: if_splits)
        then show ?thesis
        proof cases
          case (2 ys)
          from unlabelNodes_good [OF 2(2) g4] unwanted_nodes_seen [OF y [unfolded 2] H3 seen(2)] show ?thesis by blast
        qed (simp add: g4)
      qed
    qed
  qed
qed

text \<open>The second half of a turn.\<close>

lemma delete_good:
  assumes "Delete (pod_client cl) p w = (d, w')" and "good ns w" and "justified_write (shown w) (past w) ns (Deleted p)"
  shows "good ns w' \<and> grows w w'"
  using delete_sent [OF assms(1)] assms(2,3) justified_write_mono by (metis UnE list.set(1) list.set(2) set_append singletonD)

lemma modulePodsLoop_good:
  assumes "modulePodsLoop L cl ModulePodSelectorList names ps acc w = (r, w')" and "good ns w"
    and "\<And>p. p \<in> set ps \<Longrightarrow> strays names ModulePodSelectorList p \<Longrightarrow> seen_stray (shown w) ns p"
  shows "good ns w' \<and> grows w w' \<and>
    (\<forall>cps. r = Inr cps \<longrightarrow> set cps \<subseteq> set acc \<union> {p \<in> set ps. strays names ModulePodSelectorList p})"
  using assms
proof (induction ps arbitrary: acc w)
  case (Cons p ps)
  have match: "isPodMatchLabels L p s \<longleftrightarrow> s \<subseteq>\<^sub>f smap_of (Labels p)" for s
    by (simp add: isPodMatchLabels_def Matches smap_of_def)
  have st: "strays names ModulePodSelectorList p \<longleftrightarrow>
      NodeName p \<noteq> '''' \<and> list_ex (isPodMatchLabels L p) ModulePodSelectorList \<and> NodeName p \<notin> set names"
    by (simp add: strays_def match list_ex_iff)
  have ct: "controller_pod p \<longleftrightarrow> isPodMatchLabels L p CSIControllerLabel" by (simp add: match controller_pod_def)
  have next_good: "good ns w' \<and> grows w w' \<and>
      (\<forall>cps. r = Inr cps \<longrightarrow> set cps \<subseteq> set acc \<union> {q \<in> set (p # ps). strays names ModulePodSelectorList q})"
    if l: "modulePodsLoop L cl ModulePodSelectorList names ps acc' w1 = (r, w')" and good: "good ns w1" and g: "grows w w1"
      and acc: "set acc' \<subseteq> set acc \<union> {q \<in> {p}. strays names ModulePodSelectorList q}" for acc' w1
  proof -
    have "seen_stray (shown w1) ns q" if "q \<in> set ps" "strays names ModulePodSelectorList q" for q
      using seen_stray_mono [OF Cons.prems(3) [of q]] that g by simp
    note IH = Cons.IH [OF l good this]
    have "{q \<in> {p}. strays names ModulePodSelectorList q} \<union> {q \<in> set ps. strays names ModulePodSelectorList q} \<subseteq>
      {q \<in> set (p # ps). strays names ModulePodSelectorList q}" by auto
    with IH acc have "\<forall>cps. r = Inr cps \<longrightarrow> set cps \<subseteq> set acc \<union> {q \<in> set (p # ps). strays names ModulePodSelectorList q}" by blast
    with IH g show ?thesis by auto
  qed
  consider (stay) "modulePodsLoop L cl ModulePodSelectorList names ps acc w = (r, w')" |
    (keep) "strays names ModulePodSelectorList p" "modulePodsLoop L cl ModulePodSelectorList names ps (acc @ [p]) w = (r, w')" |
    (gone) d w1 where "strays names ModulePodSelectorList p" "\<not> controller_pod p" "Delete (pod_client cl) p w = (d, w1)"
      "(\<exists>e. r = Inl e \<and> w' = w1) \<or> modulePodsLoop L cl ModulePodSelectorList names ps acc w1 = (r, w')"
    using Cons.prems(1) unfolding st ct
    by (auto split: if_splits prod.splits option.splits)
  then show ?case
  proof cases
    case stay
    then show ?thesis by (rule next_good) (use Cons.prems(2) in auto)
  next
    case keep
    show ?thesis by (rule next_good [OF keep(2)]) (use Cons.prems(2) keep(1) in auto)
  next
    case (gone d w1)
    have "justified_write (shown w) (past w) ns (Deleted p)" using gone(1,2) Cons.prems(3) by simp
    from delete_good [OF gone(3) Cons.prems(2) this] have 1: "good ns w1" "grows w w1" by blast+
    from gone(4) show ?thesis
    proof
      assume "\<exists>e. r = Inl e \<and> w' = w1"
      with 1 show ?thesis by auto
    next
      assume "modulePodsLoop L cl ModulePodSelectorList names ps acc w1 = (r, w')"
      then show ?thesis by (rule next_good [OF _ 1]) blast
    qed
  qed
qed auto

lemma deletePodsLoop_good:
  assumes "deletePodsLoop cl ps w = (r, w')" and "good ns w"
    and "\<And>p. p \<in> set ps \<Longrightarrow> justified_write (shown w) (past w) ns (Deleted p)"
  shows "good ns w'"
  using assms
proof (induction ps arbitrary: w)
  case (Cons p ps)
  obtain d w1 where d: "Delete (pod_client cl) p w = (d, w1)" by fastforce
  have "justified_write (shown w) (past w) ns (Deleted p)" by (rule Cons.prems(3)) simp
  from delete_good [OF d Cons.prems(2) this] have 1: "good ns w1" "grows w w1" by blast+
  show ?case
  proof (cases d)
    case None
    with Cons.prems(1) d have "deletePodsLoop cl ps w1 = (r, w')" by simp
    then show ?thesis
    proof (rule Cons.IH [OF _ 1(1)])
      show "justified_write (shown w1) (past w1) ns (Deleted q)" if "q \<in> set ps" for q
        using justified_write_mono [OF Cons.prems(3) [of q]] that 1(2) by (simp only: list.set_intros)
    qed
  qed (use Cons.prems(1) d 1 in simp)
qed simp

lemma evictControllerPods_good:
  assumes e: "evictControllerPods cl cw ps w = (r, w')" and good: "good ns w"
    and stray: "\<And>p. p \<in> set ps \<Longrightarrow> seen_stray (shown w) ns p"
  shows "good ns w'"
proof -
  obtain l w1 where l: "List (ns_client cl) [] w = (l, w1)" by fastforce
  note q1 = ns.list_quiet [OF l]
  have g1: "good ns w1" by (rule good_calm [OF good q1])
  show ?thesis
  proof (cases l)
    case (Inl err)
    with e l g1 show ?thesis by (simp add: evictControllerPods_def)
  next
    case (Inr nsl)
    obtain c w2 where c: "IsCSIControllerRemovable cw NFSStorageClassProvisioner nsl w1 = (c, w2)" by fastforce
    note q2 = removable_calm [OF c]
    have g2: "good ns w2" by (rule good_calm [OF g1 q2])
    consider "w' = w2" | "c = Inr True" "deletePodsLoop cl ps w2 = (r, w')"
      using e l Inr c by (auto simp: evictControllerPods_def split: sum.splits if_splits)
    then show ?thesis
    proof cases
      case 2
      from namespaces_seen [OF l [unfolded Inr]] obtain c0 where c0: "c0 \<in> shown w1"
        and names: "\<And>N. nss c0 ('''', N) \<noteq> None \<Longrightarrow> N \<in> Name ` set nsl" by blast
      have "c0 \<in> shown w2" using c0 calm_mono(1) [OF q2] by blast
      with removable_seen [OF c [unfolded 2] names] have idle: "seen_idle (shown w2) (past w2)" unfolding seen_idle_def by blast
      have "shown w \<subseteq> shown w2" using calm_mono(1) [OF q1] calm_mono(1) [OF q2] by blast
      have "justified_write (shown w2) (past w2) ns (Deleted p)" if "p \<in> set ps" for p
        using seen_stray_mono [OF stray [OF that] \<open>shown w \<subseteq> shown w2\<close>] idle by simp
      from deletePodsLoop_good [OF 2(2) g2 this] show ?thesis .
    qed (simp add: g2)
  qed
qed

lemma stray_seen:
  assumes l: "List (pod_client cl) [InNamespace ns] w = (Inr ps, w1)" and g: "GetNodesBySelector cl NFSNodeSelector w1 = (Inr xs, w2)"
    and p: "p \<in> set ps" "strays (map Name xs) ModulePodSelectorList p"
  shows "seen_stray (shown w2) ns p"
proof -
  note g' = g [unfolded GetNodesBySelector_def]
  from cpod.list_seen [OF l] p(1) obtain c where c: "c \<in> shown w1" "pods c (nkey p) = Some p" "ns = '''' \<or> Namespace p = ns" by auto
  from node.list_seen [OF g'] obtain c' where c': "c' \<in> shown w2"
    and mem: "\<And>x. x \<in> set xs \<longleftrightarrow> nodes c' (ckey x) = Some x \<and> NFSNodeSelector \<subseteq>\<^sub>f smap_of (Labels x)" by auto
  have "\<not> nfs_node x" if x: "nodes c' ('''', NodeName p) = Some x" for x
  proof
    assume "nfs_node x"
    then have "NFSNodeSelector \<subseteq>\<^sub>f smap_of (Labels x)" by (auto simp: nfs_node_def NFSNodeSelector_def fmsubset.rep_eq map_le_def)
    moreover have k: "ckey x = ('''', NodeName p)" by (rule node.keyed_seen [OF c' x])
    ultimately have "x \<in> set xs" using x mem by simp
    moreover have "Name x = NodeName p" using k by (simp add: ckey_def)
    ultimately have "NodeName p \<in> Name ` set xs" by force
    with p(2) show False by (simp add: strays_def)
  qed
  with c c' p(2) calm_mono(1) [OF node.list_quiet [OF g']] show ?thesis unfolding seen_stray_def strays_def by blast
qed

lemma reconcile_module_pods_good:
  assumes r: "ReconcileModulePods L cl cw ns NFSNodeSelector ModulePodSelectorList w = (r, w')" and good: "good ns w"
  shows "good ns w'"
proof -
  obtain l w1 where l: "List (pod_client cl) [InNamespace ns] w = (l, w1)" by fastforce
  have g1: "good ns w1" by (rule good_calm [OF good cpod.list_quiet [OF l]])
  show ?thesis
  proof (cases l)
    case (Inl e)
    with r l g1 show ?thesis by (simp add: ReconcileModulePods_def)
  next
    case (Inr ps)
    obtain g w2 where g: "GetNodesBySelector cl NFSNodeSelector w1 = (g, w2)" by fastforce
    note q2 = node.list_quiet [OF g [unfolded GetNodesBySelector_def]]
    have g2: "good ns w2" by (rule good_calm [OF g1 q2])
    show ?thesis
    proof (cases g)
      case (Inl e)
      with r l Inr g g2 show ?thesis by (simp add: ReconcileModulePods_def)
    next
      case xs: (Inr xs)
      obtain m w3 where m: "modulePodsLoop L cl ModulePodSelectorList (map Name xs) ps [] w2 = (m, w3)" by fastforce
      have stray: "seen_stray (shown w2) ns p" if "p \<in> set ps" "strays (map Name xs) ModulePodSelectorList p" for p
        using stray_seen [OF l [unfolded Inr] g [unfolded xs] that] .
      from modulePodsLoop_good [OF m g2 stray] have g3: "good ns w3" and H: "shown w2 \<subseteq> shown w3"
        and cps: "\<And>cps. m = Inr cps \<Longrightarrow> set cps \<subseteq> {p \<in> set ps. strays (map Name xs) ModulePodSelectorList p}" by auto
      consider "w' = w3" | cps where "m = Inr cps" "evictControllerPods cl cw cps w3 = (r, w')"
        using r l Inr g xs m by (cases m) (auto simp: ReconcileModulePods_def split: if_splits)
      then show ?thesis
      proof cases
        case (2 ps')
        have "seen_stray (shown w3) ns p" if "p \<in> set ps'" for p
          using seen_stray_mono [OF stray H] cps [OF 2(1)] that by blast
        from evictControllerPods_good [OF 2(2) g3 this] show ?thesis .
      qed (simp add: g3)
    qed
  qed
qed

lemma turn_good:
  assumes "good ns w"
  shows "good ns (nodeSelectorTurn L cl cw ns w)"
proof -
  obtain e w1 where e: "ReconcileNodeSelector L cl cw ns w = (e, w1)" by fastforce
  obtain e' w2 where e': "ReconcileModulePods L cl cw ns NFSNodeSelector ModulePodSelectorList w1 = (e', w2)" by fastforce
  have "good ns w2"
    using reconcile_module_pods_good [OF e' reconcile_node_selector_good [OF e assms]] .
  with e e' show ?thesis by (simp add: nodeSelectorTurn_def)
qed

end

section \<open>A server shared with other clients\<close>

text \<open>Before each call the next of the others' writes happens; the server remembers the states it showed and the writes it was sent.\<close>

record shared =
  sh_now :: mem
  sh_others :: "(mem \<Rightarrow> mem) list"
  sh_past :: "mem list"
  sh_sent :: "sent_write list"

definition others_act :: "shared \<Rightarrow> shared" where
  "others_act s = (case sh_others s of
      [] \<Rightarrow> s\<lparr>sh_past := sh_now s # sh_past s\<rparr>
    | f # fs \<Rightarrow> s\<lparr>sh_now := f (sh_now s), sh_others := fs, sh_past := f (sh_now s) # sh_past s\<rparr>)"

definition on_shared :: "(mem \<Rightarrow> 'r \<times> mem) \<Rightarrow> shared \<Rightarrow> 'r \<times> shared" where
  "on_shared call s = (let s1 = others_act s; (r, m) = call (sh_now s1) in (r, s1\<lparr>sh_now := m\<rparr>))"

definition share :: "(mem, 'a) kind_client \<Rightarrow> (shared, 'a) kind_client" where
  "share api = \<lparr>Create = \<lambda>x. on_shared (Create api x), Update = \<lambda>x. on_shared (Update api x),
     StatusUpdate = \<lambda>x. on_shared (StatusUpdate api x), Delete = \<lambda>x. on_shared (Delete api x),
     Get = \<lambda>ns n. on_shared (Get api ns n), List = \<lambda>opts. on_shared (List api opts)\<rparr>"

definition shared_client :: "shared client" where
  "shared_client = \<lparr>nsc_client = share (nsc_client mem_client), sc_client = share (sc_client mem_client),
     secret_client = share (secret_client mem_client), vsc_client = share (vsc_client mem_client),
     mc_client = share (mc_client mem_client),
     node_client = (share (node_client mem_client))
       \<lparr>Update := \<lambda>x s. on_shared (Update (node_client mem_client) x) (s\<lparr>sh_sent := sh_sent s @ [Updated x]\<rparr>)\<rparr>,
     pod_client = (share (pod_client mem_client))
       \<lparr>Delete := \<lambda>x s. on_shared (Delete (pod_client mem_client) x) (s\<lparr>sh_sent := sh_sent s @ [Deleted x]\<rparr>)\<rparr>, ns_client = share (ns_client mem_client),
     lease_client = share (lease_client mem_client), pvc_client = share (pvc_client mem_client),
     pv_client = share (pv_client mem_client), vs_client = share (vs_client mem_client), RetryOnConflict = mem_retry 5\<rparr>"

definition sh_shown :: "shared \<Rightarrow> cluster set" where
  "sh_shown s = mem_view ` set (sh_past s)"

lemma others_act_simps:
  "sh_past (others_act s) = sh_now (others_act s) # sh_past s" "sh_sent (others_act s) = sh_sent s"
  by (simp_all add: others_act_def split: list.splits)

lemma on_shared_result:
  assumes "on_shared call s = (r, s')"
  obtains m where "call (sh_now (others_act s)) = (r, m)" "s' = (others_act s)\<lparr>sh_now := m\<rparr>"
    "sh_shown s' = insert (mem_view (sh_now (others_act s))) (sh_shown s)" "sh_sent s' = sh_sent s"
  using assms by (auto simp: on_shared_def Let_def sh_shown_def others_act_simps split: prod.splits)

lemma on_shared_quiet: "on_shared call s = (r, s') \<Longrightarrow> quiet sh_shown sh_shown sh_sent s s'"
  by (erule on_shared_result) (auto simp: quiet_def)

lemma seen_share:
  assumes "kind_laws api mem_view sel upd key wire" and "Get api' = Get (share api)" and "List api' = List (share api)"
  shows "seen_kind api' sh_shown sh_shown sh_sent sh_shown sel key"
proof
  note get = assms(2) [unfolded share_def, simplified, THEN fun_cong, THEN fun_cong, THEN fun_cong]
  note list = assms(3) [unfolded share_def, simplified, THEN fun_cong, THEN fun_cong]
  show "quiet sh_shown sh_shown sh_sent w w'" if "Get api' ns n w = (gr, w')" for ns n w gr w'
    using that unfolding get by (rule on_shared_quiet)
  show "\<exists>c \<in> sh_shown w'. sel c (ns, n) = Some x" if "Get api' ns n w = (Inr x, w')" for ns n w x w'
    using that unfolding get by (rule on_shared_result) (use kind_laws.get_ok [OF assms(1)] in auto)
  show "quiet sh_shown sh_shown sh_sent w w'" if "List api' opts w = (lr, w')" for opts w lr w'
    using that unfolding list by (rule on_shared_quiet)
  show "\<exists>c \<in> sh_shown w'. \<forall>x. x \<in> set xs \<longleftrightarrow> sel c (key x) = Some x \<and> options_match opts x"
    if "List api' opts w = (Inr xs, w')" for opts w xs w'
    using that unfolding list by (rule on_shared_result) (use kind_laws.list_mem [OF assms(1)] in auto)
  show "key x = k" if "c \<in> sh_shown w" "sel c k = Some x" for c w k x
    using that kind_laws.keyed [OF assms(1), of _ k x] unfolding sh_shown_def by blast
qed

interpretation shared: shared_api shared_client shared_client sh_shown sh_shown sh_sent std_lib
proof (rule shared_api.intro [OF std.lib_laws_axioms], rule shared_api_axioms.intro)
  show "seen_kind (nsc_client shared_client) sh_shown sh_shown sh_sent sh_shown nscs ckey"
    by (rule seen_share [OF mem.nsc_laws]) (simp_all add: shared_client_def)
  show "seen_kind (node_client shared_client) sh_shown sh_shown sh_sent sh_shown nodes ckey"
    by (rule seen_share [OF mem.node_laws]) (simp_all add: shared_client_def)
  show "seen_kind (pod_client shared_client) sh_shown sh_shown sh_sent sh_shown pods nkey"
    by (rule seen_share [OF mem.pod_laws]) (simp_all add: shared_client_def)
  then show "seen_kind (pod_client shared_client) sh_shown sh_shown sh_sent sh_shown pods nkey" .
  show "seen_kind (ns_client shared_client) sh_shown sh_shown sh_sent sh_shown nss ckey"
    by (rule seen_share [OF mem.ns_laws]) (simp_all add: shared_client_def)
  show "seen_kind (lease_client shared_client) sh_shown sh_shown sh_sent sh_shown leases nkey"
    by (rule seen_share [OF mem.lease_laws]) (simp_all add: shared_client_def)
  show "seen_kind (pvc_client shared_client) sh_shown sh_shown sh_sent sh_shown pvcs nkey"
    by (rule seen_share [OF mem.pvc_laws]) (simp_all add: shared_client_def)
  show "seen_kind (vs_client shared_client) sh_shown sh_shown sh_sent sh_shown vss nkey"
    by (rule seen_share [OF mem.vs_laws]) (simp_all add: shared_client_def)
next
  fix x w u w'
  assume "Update (node_client shared_client) x w = (u, w')"
  then have "on_shared (Update (node_client mem_client) x) (w\<lparr>sh_sent := sh_sent w @ [Updated x]\<rparr>) = (u, w')"
    by (simp add: shared_client_def)
  then show "sh_shown w \<subseteq> sh_shown w' \<and> sh_shown w \<subseteq> sh_shown w' \<and> sh_sent w' = sh_sent w @ [Updated x]"
    by (rule on_shared_result) (auto simp: sh_shown_def)
next
  fix p w d w'
  assume "Delete (pod_client shared_client) p w = (d, w')"
  then have "on_shared (Delete (pod_client mem_client) p) (w\<lparr>sh_sent := sh_sent w @ [Deleted p]\<rparr>) = (d, w')"
    by (simp add: shared_client_def)
  then show "sh_shown w \<subseteq> sh_shown w' \<and> sh_shown w \<subseteq> sh_shown w' \<and> sh_sent w' = sh_sent w @ [Deleted p]"
    by (rule on_shared_result) (auto simp: sh_shown_def)
next
  fix f w r w'
  assume "RetryOnConflict shared_client f w = (r, w')"
  then show "retried f w r w'" by (simp add: shared_client_def retried_mem_retry)
qed

definition shared_world :: "(mem \<Rightarrow> mem) list \<Rightarrow> shared" where
  "shared_world fs = \<lparr>sh_now = node_world [sample_pod ''d8-csi-nfs'' ''csi-node-c'' ''c'' [(''app'', ''csi-nfs'')] None], sh_others = fs, sh_past = [], sh_sent = []\<rparr>"

text \<open>Another client creates a pod with an NFS volume on node \<open>c\<close> just before call \<open>Suc n\<close> of the turn.\<close>

definition pod_lands :: "nat \<Rightarrow> (mem \<Rightarrow> mem) list" where
  "pod_lands n = replicate n id @ [m_pods_update (\<lambda>ps. sample_pod ''app'' ''late'' ''c'' [] (Some ''vol'') # ps)]"

text \<open>The reconciler checks and then acts: the pod that lands after the pods of its namespace were listed is not seen, and its
  node loses the label all the same.\<close>

lemma label_lost_under_late_pod:
  "\<exists>w'. ReconcileNodeSelector std_lib shared_client shared_client ''d8-csi-nfs'' (shared_world (pod_lands 10)) = (None, w') \<and>
     nfs_pod_on (mem_view (sh_now w')) ''c'' \<and>
     (\<exists>x. nodes (mem_view (sh_now w')) ('''', ''c'') = Some x \<and> \<not> nfs_node x)"
proof -
  let ?r = "ReconcileNodeSelector std_lib shared_client shared_client ''d8-csi-nfs'' (shared_world (pod_lands 10))"
  let ?c = "mem_view (sh_now (snd ?r))"
  let ?p = "\<lambda>p. Namespace p = ''app'' \<and> NodeName p = ''c'' \<and> map PersistentVolumeClaim (Volumes p) = [Some ''vol'']"
  have e: "fst ?r = None" by code_simp
  have p: "map_option ?p (pods ?c (''app'', ''late'')) = Some True" by code_simp
  have n: "map_option nfs_node (nodes ?c ('''', ''c'')) = Some False" by code_simp
  have k: "map_option nfs_claim (pvcs ?c (''app'', ''vol'')) = Some True" by code_simp
  have a: "nss ?c ('''', ''app'') \<noteq> None" by code_simp
  from p obtain p where p: "pods ?c (''app'', ''late'') = Some p" "?p p" by auto
  from k obtain q where q: "pvcs ?c (''app'', ''vol'') = Some q" "nfs_claim q" by auto
  from p(2) obtain v where "v \<in> set (Volumes p)" "PersistentVolumeClaim v = Some ''vol''" by auto
  with p(2) q have "uses_nfs ?c p" unfolding uses_nfs_def by metis
  with p a have on: "nfs_pod_on ?c ''c''" unfolding nfs_pod_on_def by metis
  from n obtain x where "nodes ?c ('''', ''c'') = Some x" "\<not> nfs_node x" by auto
  with on show ?thesis by (intro exI [of _ "snd ?r"]) (simp add: e prod_eq_iff)
qed

lemma updated_ex: "list_ex (\<lambda>x. case x of Updated y \<Rightarrow> P y | Deleted p \<Rightarrow> False) xs \<Longrightarrow> \<exists>y. Updated y \<in> set xs \<and> P y"
  by (induction xs) (auto split: sent_write.splits)

lemma deleted_ex: "list_ex (\<lambda>x. case x of Updated y \<Rightarrow> False | Deleted p \<Rightarrow> True) xs \<Longrightarrow> \<exists>p. Deleted p \<in> set xs"
  by (induction xs) (auto split: sent_write.splits)

section \<open>Properties\<close>

text \<open>C10: The node loop under concurrency. Whatever other clients write between any two calls of a turn of the node-selector
  loop, and however its two halves end, every write it sends is of an object as it was read and justified by what was read. An update of a
  node either adds the label to a node that a selector was seen to match, or drops it from a labelled node that every selector in force was seen not to
  match, on which every pod listed during the turn used claims seen to be other drivers' only, and which, if it was seen to
  hold the controller's lease, had no pending snapshot or claim of this driver when they were listed in the turn. A deletion is of a module pod
  on a node seen without the label, and of a controller pod only if no snapshot or claim of this driver was seen pending in the turn.\<close>

theorem turn_writes_are_justified:
  assumes "shared_api cl cw shown past sent L" and "sent w = []" and "past w = {}"
    and "nodeSelectorTurn L cl cw ns w = w'" and "x \<in> set (sent w')"
  shows "justified_write (shown w') (past w') ns x"
  using shared_api.turn_good [OF assms(1), of w ns] assms(2,4,5) by simp

theorem turn_writes_are_justified_witness:
  "\<exists>w' y p. nodeSelectorTurn std_lib shared_client shared_client ''d8-csi-nfs'' (shared_world (pod_lands 10)) = w' \<and>
     Updated y \<in> set (sh_sent w') \<and> Name y = ''c'' \<and> seen_unprotected (sh_shown w') (sh_shown w') ''d8-csi-nfs'' ''c'' \<and>
     Deleted p \<in> set (sh_sent w') \<and> seen_stray (sh_shown w') ''d8-csi-nfs'' p"
proof -
  let ?w = "nodeSelectorTurn std_lib shared_client shared_client ''d8-csi-nfs'' (shared_world (pod_lands 10))"
  have "list_ex (\<lambda>x. case x of Updated y \<Rightarrow> Name y = ''c'' \<and> \<not> nfs_node y | Deleted p \<Rightarrow> False) (sh_sent ?w)" by code_simp
  then obtain y where y: "Updated y \<in> set (sh_sent ?w)" "Name y = ''c''" "\<not> nfs_node y"
    by (blast dest: updated_ex)
  have "list_ex (\<lambda>x. case x of Updated y \<Rightarrow> False | Deleted p \<Rightarrow> True) (sh_sent ?w)" by code_simp
  then obtain p where p: "Deleted p \<in> set (sh_sent ?w)"
    by (blast dest: deleted_ex)
  have start: "sh_sent (shared_world (pod_lands 10)) = []" "sh_shown (shared_world (pod_lands 10)) = {}"
    by (simp_all add: shared_world_def sh_shown_def)
  note turn = turn_writes_are_justified [OF shared.shared_api_axioms, OF start refl]
  from turn [OF y(1)] y(2,3) have "seen_unprotected (sh_shown ?w) (sh_shown ?w) ''d8-csi-nfs'' ''c''"
    by (auto simp: justified_def nfs_node_def)
  with turn [OF p] y p show ?thesis by auto
qed

end
