(* ===== verification/Logging.thy ===== *)
theory Logging
  imports Config
begin

text \<open>
  The loggers of the controller and of the scheduler extender, \<open>pkg/logger/logger.go\<close> of both images, and how they get the client
  configuration, \<open>pkg/kubutils/kubernetes.go\<close>. What a logger writes is a list of lines. \<open>klog\<close>, \<open>textlogger\<close> and \<open>logr\<close> are
  parameters: whether the flag \<open>v\<close> takes a value, whether \<open>flag.Parse\<close> ends the process, and which levels a verbosity enables, with
  the law of \<open>logr\<close> in the locale \<open>text_logger\<close>. No caller passes key and value pairs, which are left out.
\<close>

section \<open>Levels\<close>

definition ErrorLevel :: string where "ErrorLevel = ''0''"
definition WarningLevel :: string where "WarningLevel = ''1''"
definition InfoLevel :: string where "InfoLevel = ''2''"
definition TraceLevel :: string where "TraceLevel = ''4''"
definition CacheLevel :: string where "CacheLevel = ''5''"
definition warnLvl :: nat where "warnLvl = 1"
definition infoLvl :: nat where "infoLvl = 2"
definition debugLvl :: nat where "debugLvl = 3"
definition traceLvl :: nat where "traceLvl = 4"
definition cacheLvl :: nat where "cacheLvl = 5"

lemmas level_defs = warnLvl_def infoLvl_def debugLvl_def traceLvl_def cacheLvl_def

section \<open>Loggers\<close>

record Logger =
  LogVerbosity :: int

datatype log_line = LogLine "go_error option" string

datatype logger_result = Logger_ready Logger | Logger_error go_error | Flags_exit

record flag_env =
  FlagSet :: "string \<Rightarrow> string \<Rightarrow> go_error option"
  ParseFails :: bool

definition NewLogger :: "flag_env \<Rightarrow> string \<Rightarrow> logger_result" where
  "NewLogger fl level =
    (case FlagSet fl ''v'' level of
       Some err \<Rightarrow> Logger_error err
     | None \<Rightarrow>
         if ParseFails fl then Flags_exit
         else (case Atoi level of
                 Inl err \<Rightarrow> Logger_error err
               | Inr levelInt \<Rightarrow> Logger_ready \<lparr>LogVerbosity = levelInt\<rparr>))"

text \<open>The extender does not touch the flags of \<open>klog\<close>.\<close>

definition NewExtenderLogger :: "string \<Rightarrow> go_error + Logger" where
  "NewExtenderLogger level = (case Atoi level of Inl err \<Rightarrow> Inl err | Inr v \<Rightarrow> Inr \<lparr>LogVerbosity = v\<rparr>)"

text \<open>\<open>V enabled l n msg\<close> is \<open>l.log.V(n).Info(msg)\<close>.\<close>

definition V :: "(int \<Rightarrow> nat \<Rightarrow> bool) \<Rightarrow> Logger \<Rightarrow> nat \<Rightarrow> string \<Rightarrow> log_line list \<Rightarrow> log_line list" where
  "V enabled l n msg out = (if enabled (LogVerbosity l) n then out @ [LogLine None msg] else out)"

definition Logger_Error :: "Logger \<Rightarrow> go_error option \<Rightarrow> string \<Rightarrow> log_line list \<Rightarrow> log_line list" where
  "Logger_Error l err message out = out @ [LogLine err (''ERROR '' @ message)]"

definition Logger_Warning :: "(int \<Rightarrow> nat \<Rightarrow> bool) \<Rightarrow> Logger \<Rightarrow> string \<Rightarrow> log_line list \<Rightarrow> log_line list" where
  "Logger_Warning enabled l message = V enabled l warnLvl (''WARNING '' @ message)"

definition Logger_Info :: "(int \<Rightarrow> nat \<Rightarrow> bool) \<Rightarrow> Logger \<Rightarrow> string \<Rightarrow> log_line list \<Rightarrow> log_line list" where
  "Logger_Info enabled l message = V enabled l infoLvl (''INFO '' @ message)"

definition Logger_Debug :: "(int \<Rightarrow> nat \<Rightarrow> bool) \<Rightarrow> Logger \<Rightarrow> string \<Rightarrow> log_line list \<Rightarrow> log_line list" where
  "Logger_Debug enabled l message = V enabled l debugLvl (''DEBUG '' @ message)"

definition Logger_Trace :: "(int \<Rightarrow> nat \<Rightarrow> bool) \<Rightarrow> Logger \<Rightarrow> string \<Rightarrow> log_line list \<Rightarrow> log_line list" where
  "Logger_Trace enabled l message = V enabled l traceLvl (''TRACE '' @ message)"

text \<open>The extender has the same levels and severities in a package of its own; only its logger has the last one.\<close>

definition Extender_Error :: "Logger \<Rightarrow> go_error option \<Rightarrow> string \<Rightarrow> log_line list \<Rightarrow> log_line list" where
  "Extender_Error l err message out = out @ [LogLine err (''ERROR '' @ message)]"

definition Extender_Warning :: "(int \<Rightarrow> nat \<Rightarrow> bool) \<Rightarrow> Logger \<Rightarrow> string \<Rightarrow> log_line list \<Rightarrow> log_line list" where
  "Extender_Warning enabled l message = V enabled l warnLvl (''WARNING '' @ message)"

definition Extender_Info :: "(int \<Rightarrow> nat \<Rightarrow> bool) \<Rightarrow> Logger \<Rightarrow> string \<Rightarrow> log_line list \<Rightarrow> log_line list" where
  "Extender_Info enabled l message = V enabled l infoLvl (''INFO '' @ message)"

definition Extender_Debug :: "(int \<Rightarrow> nat \<Rightarrow> bool) \<Rightarrow> Logger \<Rightarrow> string \<Rightarrow> log_line list \<Rightarrow> log_line list" where
  "Extender_Debug enabled l message = V enabled l debugLvl (''DEBUG '' @ message)"

definition Extender_Trace :: "(int \<Rightarrow> nat \<Rightarrow> bool) \<Rightarrow> Logger \<Rightarrow> string \<Rightarrow> log_line list \<Rightarrow> log_line list" where
  "Extender_Trace enabled l message = V enabled l traceLvl (''TRACE '' @ message)"

definition Extender_Cache :: "(int \<Rightarrow> nat \<Rightarrow> bool) \<Rightarrow> Logger \<Rightarrow> string \<Rightarrow> log_line list \<Rightarrow> log_line list" where
  "Extender_Cache enabled l message = V enabled l cacheLvl (''CACHE '' @ message)"

locale text_logger =
  fixes enabled :: "int \<Rightarrow> nat \<Rightarrow> bool"
  assumes V_enabled: "enabled v n \<longleftrightarrow> int n \<le> v"

definition textlogger_enabled :: "int \<Rightarrow> nat \<Rightarrow> bool" where
  "textlogger_enabled v n \<longleftrightarrow> int n \<le> v"

interpretation textlogger: text_logger textlogger_enabled
  by unfold_locales (simp add: textlogger_enabled_def)

section \<open>Configuration of the client\<close>

text \<open>\<open>InCluster\<close> and \<open>DefaultRules\<close> are what \<open>rest.InClusterConfig\<close> and the loading rules of \<open>clientcmd\<close> return.\<close>

definition KubernetesDefaultConfigCreate :: "go_error + 'c \<Rightarrow> go_error + 'c \<Rightarrow> go_error + 'c" where
  "KubernetesDefaultConfigCreate inCluster defaultRules =
    (case inCluster of
       Inr config \<Rightarrow> Inr config
     | Inl err \<Rightarrow>
         (case defaultRules of
            Inl err \<Rightarrow> Inl (WrapError ''config kubernetes error '' err)
          | Inr config \<Rightarrow> Inr config))"

definition ExtenderConfigCreate :: "go_error + 'c \<Rightarrow> go_error + 'c \<Rightarrow> go_error + 'c" where
  "ExtenderConfigCreate inCluster defaultRules =
    (case inCluster of
       Inr config \<Rightarrow> Inr config
     | Inl err \<Rightarrow>
         (case defaultRules of
            Inl err \<Rightarrow> Inl (WrapError ''failed to create Kubernetes client configuration: '' err)
          | Inr config \<Rightarrow> Inr config))"

section \<open>Facts\<close>

lemma NewLogger_ready: "NewLogger fl level = Logger_ready l \<longleftrightarrow>
    FlagSet fl ''v'' level = None \<and> \<not> ParseFails fl \<and> Atoi level = Inr (LogVerbosity l)"
  by (cases l) (auto simp: NewLogger_def split: option.split sum.split)

text \<open>One message at each level, from errors to traces, and to the cache level for the extender.\<close>

definition every_level :: "(int \<Rightarrow> nat \<Rightarrow> bool) \<Rightarrow> Logger \<Rightarrow> string \<Rightarrow> log_line list" where
  "every_level enabled l m = Logger_Trace enabled l m (Logger_Debug enabled l m (Logger_Info enabled l m
     (Logger_Warning enabled l m (Logger_Error l None m []))))"

definition extender_every_level :: "(int \<Rightarrow> nat \<Rightarrow> bool) \<Rightarrow> Logger \<Rightarrow> string \<Rightarrow> log_line list" where
  "extender_every_level enabled l m = Extender_Cache enabled l m (Extender_Trace enabled l m (Extender_Debug enabled l m
     (Extender_Info enabled l m (Extender_Warning enabled l m (Extender_Error l None m [])))))"

lemmas severity_defs = Logger_Error_def Logger_Warning_def Logger_Info_def Logger_Debug_def Logger_Trace_def
  Extender_Error_def Extender_Warning_def Extender_Info_def Extender_Debug_def Extender_Trace_def Extender_Cache_def

lemma take_Suc_nat: "0 < v \<Longrightarrow> take (Suc (nat v)) (x # xs) = x # take (Suc (nat (v - 1))) xs"
proof -
  assume "0 < v"
  then have "nat v = Suc (nat (v - 1))" by simp
  then show ?thesis by simp
qed

section \<open>Properties\<close>

text \<open>C36: Log levels are bounds: a logger that \<open>NewLogger\<close> returns has the decimal number of its argument as its verbosity, within the range of
  \<open>int\<close>, and of one message at every level it writes the first ones up to its verbosity, errors always and nothing else when it is 0 or
  negative, everything when it is 4 or more. The extender's \<open>NewLogger\<close> returns a logger with the same verbosity for the same argument, which
  writes the same and at 5 or more also the messages about the cache.\<close>

theorem log_level_bounds:
  assumes "text_logger enabled" and "NewLogger fl level = Logger_ready l"
  shows "Atoi level = Inr (LogVerbosity l) \<and> MinInt \<le> LogVerbosity l \<and> LogVerbosity l \<le> MaxInt \<and>
    every_level enabled l m = map (\<lambda>p. LogLine None (p @ m))
      (take (Suc (nat (LogVerbosity l))) [''ERROR '', ''WARNING '', ''INFO '', ''DEBUG '', ''TRACE '']) \<and>
    NewExtenderLogger level = Inr l \<and>
    extender_every_level enabled l m = map (\<lambda>p. LogLine None (p @ m))
      (take (Suc (nat (LogVerbosity l))) [''ERROR '', ''WARNING '', ''INFO '', ''DEBUG '', ''TRACE '', ''CACHE ''])"
proof -
  let ?v = "LogVerbosity l"
  from assms(2) have a: "Atoi level = Inr ?v" by (simp add: NewLogger_ready)
  note defs = every_level_def extender_every_level_def severity_defs V_def text_logger.V_enabled [OF assms(1)] level_defs
  consider "?v \<le> 0" | "?v = 1" | "?v = 2" | "?v = 3" | "?v = 4" | "5 \<le> ?v" by linarith
  then have "every_level enabled l m = map (\<lambda>p. LogLine None (p @ m))
      (take (Suc (nat ?v)) [''ERROR '', ''WARNING '', ''INFO '', ''DEBUG '', ''TRACE '']) \<and>
    extender_every_level enabled l m = map (\<lambda>p. LogLine None (p @ m))
      (take (Suc (nat ?v)) [''ERROR '', ''WARNING '', ''INFO '', ''DEBUG '', ''TRACE '', ''CACHE ''])"
    by cases (simp_all add: defs take_Suc_nat)
  with a Atoi_range [OF a] show ?thesis by (simp add: NewExtenderLogger_def)
qed

definition all_flags :: flag_env where
  "all_flags = \<lparr>FlagSet = (\<lambda>name value. None), ParseFails = False\<rparr>"

theorem log_level_bounds_witness:
  "NewLogger all_flags InfoLevel = Logger_ready \<lparr>LogVerbosity = 2\<rparr> \<and>
   every_level textlogger_enabled \<lparr>LogVerbosity = 2\<rparr> ''m'' =
     [LogLine None ''ERROR m'', LogLine None ''WARNING m'', LogLine None ''INFO m''] \<and>
   extender_every_level textlogger_enabled \<lparr>LogVerbosity = 2\<rparr> ''m'' = every_level textlogger_enabled \<lparr>LogVerbosity = 2\<rparr> ''m''"
proof -
  have "Atoi InfoLevel = Inr 2" by code_simp
  then have n: "NewLogger all_flags InfoLevel = Logger_ready \<lparr>LogVerbosity = 2\<rparr>"
    by (simp add: NewLogger_ready all_flags_def)
  with log_level_bounds [OF textlogger.text_logger_axioms n, of "''m''"] show ?thesis
    by (simp add: eval_nat_numeral)
qed

end
