(* ===== verification/Node_Safety.thy ===== *)
theory Node_Safety
  imports Node_Properties
begin

text \<open>
  What a turn of the node-selector loop does in every outcome, errors included: functions that only read leave the
  cluster as it is, the pod half writes pods only, and the label half never writes a labelled node that is selected or in use.
\<close>

section \<open>Functions that only read\<close>

context kube_laws
begin

lemma selectNodes_view: "selectNodes L cl sels acc w = (r, w') \<Longrightarrow> view w' = view w"
proof (induction sels arbitrary: acc w)
  case (Cons s sels)
  then show ?case
    by (auto split: sum.splits prod.splits) (metis node.list_view)+
qed simp

lemma podUsesNFS_view: "podUsesNFS cl pod vs w = (r, w') \<Longrightarrow> view w' = view w"
proof (induction vs arbitrary: w)
  case (Cons v vs)
  then show ?case
    by (auto split: option.splits sum.splits prod.splits if_splits) (metis pvc.get_view)+
qed simp

lemma collectPods_view: "collectPods cl ps m w = (r, w') \<Longrightarrow> view w' = view w"
proof (induction ps arbitrary: m w)
  case (Cons p ps)
  then show ?case
    by (auto split: sum.splits prod.splits) (metis podUsesNFS_view)+
qed simp

lemma collectNamespacePods_view: "collectNamespacePods cl nsl m w = (r, w') \<Longrightarrow> view w' = view w"
proof (induction nsl arbitrary: m w)
  case (Cons n nsl)
  then show ?case
    by (auto split: sum.splits prod.splits) (metis pod.list_view collectPods_view)+
qed simp

lemma controller_name_view: "GetCCSIControllerNodeName cl ns lease labels w = (r, w') \<Longrightarrow> view w' = view w"
  by (auto simp: GetCCSIControllerNodeName_def split: sum.splits prod.splits if_splits option.splits)
    (metis pod.list_view lease.get_view)+

lemma collectSnapshots_view: "collectSnapshots cl p vs acc w = (r, w') \<Longrightarrow> view w' = view w"
proof (induction vs arbitrary: acc w)
  case (Cons v vs)
  then show ?case
    by (auto split: option.splits sum.splits prod.splits if_splits) (metis pvc.get_view)+
qed simp

lemma collectNamespaceSnapshots_view: "collectNamespaceSnapshots cl p nsl acc w = (r, w') \<Longrightarrow> view w' = view w"
proof (induction nsl arbitrary: acc w)
  case (Cons n nsl)
  then show ?case
    by (auto split: sum.splits prod.splits) (metis vs.list_view collectSnapshots_view)+
qed simp

lemma collectNamespaceClaims_view: "collectNamespaceClaims cl p nsl acc w = (r, w') \<Longrightarrow> view w' = view w"
proof (induction nsl arbitrary: acc w)
  case (Cons n nsl)
  then show ?case
    by (auto split: sum.splits prod.splits) (metis pvc.list_view)+
qed simp

lemma removable_view: "IsCSIControllerRemovable cl p nsl w = (r, w') \<Longrightarrow> view w' = view w"
  by (auto simp: IsCSIControllerRemovable_def GetPendingVolumeSnapshots_def GetPendingPersistentVolumeClaims_def
      split: sum.splits prod.splits if_splits)
    (metis collectNamespaceSnapshots_view collectNamespaceClaims_view)+

end

section \<open>Writes of labels\<close>

text \<open>\<open>spares n c c'\<close>: only nodes were written between \<open>c\<close> and \<open>c'\<close>, and the node \<open>n\<close> was not.\<close>

definition spares :: "string \<Rightarrow> cluster \<Rightarrow> cluster \<Rightarrow> bool" where
  "spares n c c' \<longleftrightarrow> c' = nodes_update (\<lambda>_. nodes c') c \<and> nodes c' ('''', n) = nodes c ('''', n)"

lemma spares_refl [simp]: "spares n c c"
  by (simp add: spares_def)

lemma spares_trans: "spares n c c1 \<Longrightarrow> spares n c1 c2 \<Longrightarrow> spares n c c2"
  unfolding spares_def by (metis (no_types, lifting) cluster.surjective cluster.update_convs(6))

lemma spares_specs:
  assumes "spares n c c'"
  shows "controller_busy c' = controller_busy c" "nfs_pod_on c' = nfs_pod_on c"
    "controller_node c' = controller_node c" "nss c' = nss c"
proof -
  have "nss c' = nss c" "pods c' = pods c" "leases c' = leases c" "pvcs c' = pvcs c" "vss c' = vss c"
    using assms unfolding spares_def by (metis cluster.select_convs cluster.surjective cluster.update_convs(6))+
  note eq = this
  show "controller_busy c' = controller_busy c" "nfs_pod_on c' = nfs_pod_on c"
    "controller_node c' = controller_node c" "nss c' = nss c"
    unfolding fun_eq_iff controller_busy_def pending_snapshot_def pending_claim_def nfs_pod_on_def
      uses_nfs_def controller_node_def eq by blast+
qed

lemma label_present:
  assumes "nfs_node x"
  shows "\<not> snd (AddLabelsIfNeeded (Labels x) nfsNodeLabels)"
proof -
  obtain m where m: "Labels x = Some m" "fmlookup m NFSNodeLabelKey = Some ''''"
    using assms by (cases "Labels x") (auto simp: nfs_node_def)
  have d: "distinct (map fst (go_range nfsNodeLabels))" using enumerates_go_range by (simp add: enumerates_def)
  have "(k, v) \<in> set (go_range nfsNodeLabels) \<longleftrightarrow> k = NFSNodeLabelKey \<and> v = ''''" for k v
    using enumerates_set [OF enumerates_go_range, of nfsNodeLabels] by (auto simp: nfsNodeLabels_def)
  with m show ?thesis by (auto simp: AddLabelsIfNeeded_def fold_add_label [OF d])
qed

context kube_laws
begin

lemma attempt_spares:
  assumes a: "relabelAttempt cl g m w = (r, w')" and x: "nodes (view w) ('''', n) = Some x"
    and n: "m \<noteq> n \<or> \<not> snd (g (Labels x))"
  shows "spares n (view w) (view w')"
proof -
  obtain r1 w1 where g: "Get (node_client cl) '''' m w = (r1, w1)" by fastforce
  note v1 = node.get_view [OF g]
  show ?thesis
  proof (cases r1)
    case (Inl e)
    with a g v1 show ?thesis by (simp add: relabelAttempt_def)
  next
    case (Inr y)
    have y: "nodes (view w) ('''', m) = Some y" using node.get_ok [OF g [unfolded Inr]] .
    show ?thesis
    proof (cases "snd (g (Labels y))")
      case False
      with a g Inr v1 show ?thesis by (simp add: relabelAttempt_def)
    next
      case True
      with n x y have "m \<noteq> n" by auto
      obtain e z w2 where u: "Update (node_client cl) (y\<lparr>Labels := fst (g (Labels y))\<rparr>) w1 = ((e, z), w2)"
        by (metis surj_pair)
      have "ckey (y\<lparr>Labels := fst (g (Labels y))\<rparr>) = ('''', m)" using node.keyed [OF y] by (simp add: ckey_def)
      with node.update_frame [OF u] v1 obtain v where "view w2 = nodes_update (\<lambda>s. s(('''', m) := v)) (view w)" by auto
      with a g Inr True u \<open>m \<noteq> n\<close> show ?thesis by (simp add: relabelAttempt_def spares_def)
    qed
  qed
qed

lemma retried_spares:
  assumes "retried (relabelAttempt cl g m) w r w'" and "nodes (view w) ('''', n) = Some x"
    and "m \<noteq> n \<or> \<not> snd (g (Labels x))"
  shows "spares n (view w) (view w')"
  using assms
proof (induction rule: retried.induct)
  case (last_run w r w')
  then show ?case by (rule attempt_spares)
next
  case (another_run w m w1 r w')
  with attempt_conflict [OF another_run(1)] show ?case by simp
qed

lemma addLabelsLoop_spares:
  assumes "addLabelsLoop cl xs w = (r, w')" and "nodes (view w) ('''', n) = Some x" and "nfs_node x"
  shows "spares n (view w) (view w')"
  using assms(1,2)
proof (induction xs arbitrary: w)
  case (Cons y ys)
  obtain e w1 where a: "AddLabelsToNode cl y nfsNodeLabels w = (e, w1)" by fastforce
  have 1: "spares n (view w) (view w1)"
    using a retried_spares [OF retry [of "addLabelsAttempt cl (Name y) nfsNodeLabels" w e w1, unfolded attempts_relabel] Cons.prems(2)]
      label_present [OF assms(3)]
    by (auto simp: AddLabelsToNode_def attempts_relabel split: prod.splits if_splits)
  show ?case
  proof (cases e)
    case None
    with Cons.prems(1) a have l: "addLabelsLoop cl ys w1 = (r, w')" by simp
    have "nodes (view w1) ('''', n) = Some x" using 1 Cons.prems(2) by (simp add: spares_def)
    from spares_trans [OF 1 Cons.IH [OF l this]] show ?thesis .
  qed (use Cons.prems(1) a 1 in simp)
qed simp

end

section \<open>Deletions of pods\<close>

text \<open>\<open>pods_only K c c'\<close>: at most the pods at the keys \<open>K\<close> were written.\<close>

definition pods_only :: "key set \<Rightarrow> cluster \<Rightarrow> cluster \<Rightarrow> bool" where
  "pods_only K c c' \<longleftrightarrow> c' = pods_update (\<lambda>_. pods c') c \<and> (\<forall>k. k \<notin> K \<longrightarrow> pods c' k = pods c k)"

lemma pods_only_refl: "pods_only K c c"
  by (simp add: pods_only_def)

lemma pods_only_mono: "pods_only K c c' \<Longrightarrow> K \<subseteq> K' \<Longrightarrow> pods_only K' c c'"
  by (auto simp: pods_only_def)

lemma pods_only_trans: "pods_only K c c1 \<Longrightarrow> pods_only K' c1 c2 \<Longrightarrow> pods_only (K \<union> K') c c2"
  unfolding pods_only_def by (metis (no_types, lifting) UnCI cluster.surjective cluster.update_convs(7))

lemma pods_only_specs:
  assumes "pods_only K c c'"
  shows "controller_busy c' = controller_busy c" "nss c' = nss c" "nodes c' = nodes c"
proof -
  have eq: "nss c' = nss c" "pvcs c' = pvcs c" "vss c' = vss c" "nodes c' = nodes c"
    using assms unfolding pods_only_def
    by (metis (no_types, lifting) cluster.select_convs(6,8,10,12) cluster.surjective cluster.update_convs(7))+
  show "controller_busy c' = controller_busy c" "nss c' = nss c" "nodes c' = nodes c"
    unfolding controller_busy_def pending_snapshot_def pending_claim_def eq by blast+
qed

context node_env
begin

text \<open>The loop skips a node that is in use, or stops before it.\<close>

lemma removeLabelsLoop_spares:
  assumes "removeLabelsLoop cl cw h nsl m xs w = (r, w')" and "nodes (view w) ('''', n) = Some x"
    and names: "\<And>n. n \<in> set nsl \<Longrightarrow> Name n \<noteq> ''''"
    and "\<And>n. n \<in> Name ` set nsl \<longleftrightarrow> nss (view w) ('''', n) \<noteq> None"
    and "\<And>n. has_pods m n \<longleftrightarrow> nfs_pod_on (view w) n"
    and "n \<notin> Name ` set xs \<or> n = h \<and> controller_busy (view w) \<or> nfs_pod_on (view w) n"
  shows "spares n (view w) (view w')"
  using assms(1,2,4-6)
proof (induction xs arbitrary: w)
  case (Cons y ys)
  define check where "check = (if Name y = h then IsCSIControllerRemovable cw NFSStorageClassProvisioner nsl w else (Inr True, w))"
  obtain c w1 where c: "check = (c, w1)" by fastforce
  have v1: "view w1 = view w" using c r.removable_view by (auto simp: check_def split: if_splits)
  have busy: "c = Inr b \<Longrightarrow> b \<longleftrightarrow> \<not> (Name y = h \<and> controller_busy (view w))" for b
    using c [unfolded check_def] removable_ok [OF _ names Cons.prems(3), of b w1] by (auto split: if_splits)
  have next_ok: "spares n (view w) (view w')"
    if s: "spares n (view w) (view w2)" and l: "removeLabelsLoop cl cw h nsl m ys w2 = (r, w')" for w2
  proof -
    have "nodes (view w2) ('''', n) = Some x" using s Cons.prems(2) by (simp add: spares_def)
    from spares_trans [OF s Cons.IH [OF l this]] Cons.prems(3,4,5) spares_specs [OF s] show ?thesis by auto
  qed
  show ?case
  proof (cases c)
    case (Inl e)
    with Cons.prems(1) c v1 show ?thesis by (simp add: check_def [symmetric])
  next
    case (Inr b)
    show ?thesis
    proof (cases "b \<and> \<not> has_pods m (Name y)")
      case False
      then have "removeLabelsLoop cl cw h nsl m ys w1 = (r, w')"
        using Cons.prems(1) c Inr by (auto simp: check_def [symmetric] has_pods_def split: if_splits)
      then show ?thesis by (rule next_ok [rotated]) (simp add: v1)
    next
      case True
      obtain e w2 where rm: "RemoveLabelsFromNode cl y nfsNodeLabels w1 = (e, w2)" by fastforce
      have "Name y \<noteq> n" using True busy [OF Inr] Cons.prems(4,5) by auto
      then have s: "spares n (view w) (view w2)"
        using rm w.retried_spares [OF w.retry [of "removeLabelsAttempt cl (Name y) nfsNodeLabels" w1 e w2, unfolded attempts_relabel]]
          Cons.prems(2) v1
        by (auto simp: RemoveLabelsFromNode_def attempts_relabel split: prod.splits if_splits)
      show ?thesis
      proof (cases e)
        case None
        with True Cons.prems(1) c Inr rm have "removeLabelsLoop cl cw h nsl m ys w2 = (r, w')"
          by (auto simp: check_def [symmetric] has_pods_def)
        then show ?thesis by (rule next_ok [OF s])
      next
        case (Some err)
        with True Cons.prems(1) c Inr rm have "w' = w2" by (auto simp: check_def [symmetric] has_pods_def)
        with s show ?thesis by simp
      qed
    qed
  qed
qed simp

lemma unlabelNodes_spares:
  assumes u: "unlabelNodes cl cw ns xs w = (r, w')" and x: "nodes (view w) ('''', n) = Some x"
    and ns: "ns \<noteq> ''''" and no_ns: "nss (view w) ('''', '''') = None"
    and n: "n \<notin> Name ` set xs \<or> protected (view w) ns n"
  shows "spares n (view w) (view w')"
proof -
  obtain c w1 where c: "GetCCSIControllerNodeName cl ns csiNFSExternalSnapshotterLeaseName CSIControllerLabel w = (c, w1)"
    by fastforce
  have v1: "view w1 = view w" using w.controller_name_view [OF c] .
  obtain l w2 where l: "List (ns_client cl) [] w1 = (l, w2)" by fastforce
  have v2: "view w2 = view w" using w.ns.list_view [OF l] v1 by simp
  consider "w' = w1" | "w' = w2" | h nsl where "c = Inr h" "l = Inr nsl"
    using u c l by (cases c; cases l) (auto simp: unlabelNodes_def)
  then show ?thesis
  proof cases
    case (3 h nsl)
    obtain g w3 where g: "GetPodsMapWithNFSVolume cw nsl w2 = (g, w3)" by fastforce
    have v3: "view w3 = view w"
      using r.collectNamespacePods_view [OF g [unfolded GetPodsMapWithNFSVolume_def]] v2 by simp
    show ?thesis
    proof (cases g)
      case (Inl e)
      with u c l g 3 v3 show ?thesis by (simp add: unlabelNodes_def)
    next
      case (Inr m)
      with u c l g 3 have loop: "removeLabelsLoop cl cw h nsl m xs w3 = (r, w')" by (simp add: unlabelNodes_def)
      from controller_name_ok [OF c [unfolded 3] ns] have ctl: "controller_node (view w) ns n \<longleftrightarrow> n = h" for n by auto
      have nss: "n \<in> Name ` set nsl \<longleftrightarrow> nss (view w) ('''', n) \<noteq> None" for n
        using namespace_names [OF l [unfolded 3], of n] v1 by simp
      have names: "n \<in> set nsl \<Longrightarrow> Name n \<noteq> ''''" for n using nss [of "''''"] no_ns by force
      from pods_map_ok [OF g [unfolded Inr] names] nss v2 have hp: "has_pods m n \<longleftrightarrow> nfs_pod_on (view w) n" for n by auto
      have "n \<notin> Name ` set xs \<or> n = h \<and> controller_busy (view w) \<or> nfs_pod_on (view w) n"
        using n unfolding protected_def ctl by blast
      with removeLabelsLoop_spares [OF loop, of n x] x names nss hp show ?thesis unfolding v3 by blast
    qed
  qed (simp_all add: v1 v2)
qed

lemma reconcile_node_selector_spares:
  assumes r: "ReconcileNodeSelector L cl cw ns w = (r, w')" and x: "nodes (view w) ('''', n) = Some x" and lab: "nfs_node x"
    and ns: "ns \<noteq> ''''" and no_ns: "nss (view w) ('''', '''') = None"
    and use: "wanted (view w) x \<or> protected (view w) ns n"
  shows "spares n (view w) (view w')"
proof -
  obtain l w1 where l: "List (nsc_client cl) [] w = (l, w1)" by fastforce
  have v1: "view w1 = view w" using w.nsc.list_view [OF l] .
  show ?thesis
  proof (cases l)
    case (Inl e)
    with r l v1 show ?thesis by (simp add: ReconcileNodeSelector_def)
  next
    case (Inr nscList)
    let ?sels = "GetNodeSelectorFromNFSStorageClasses nscList"
    obtain g w2 where g: "GetNodesBySelectorList L cl ?sels w1 = (g, w2)" by fastforce
    have v2: "view w2 = view w" using w.selectNodes_view [OF g [unfolded GetNodesBySelectorList_def]] v1 by simp
    show ?thesis
    proof (cases g)
      case (Inl e)
      with r l Inr g v2 show ?thesis by (simp add: ReconcileNodeSelector_def Let_def)
    next
      case sel: (Inr xs)
      obtain a w3 where a: "(if length xs \<noteq> 0 then addLabelsLoop cl xs w2 else (None, w2)) = (a, w3)" by fastforce
      have s3: "spares n (view w) (view w3)"
        using a w.addLabelsLoop_spares [of xs w2 a w3 n x] x lab v2 by (cases "length xs \<noteq> 0") auto
      show ?thesis
      proof (cases a)
        case (Some e)
        with r l Inr g sel a have "w' = w3" by (auto simp: ReconcileNodeSelector_def)
        with s3 show ?thesis by simp
      next
        case None
        obtain y w4 where y: "GetNodesBySelector cl NFSNodeSelector w3 = (y, w4)" by fastforce
        have v4: "view w4 = view w3" using w.node.list_view [OF y [unfolded GetNodesBySelector_def]] .
        consider "w' = w4" | ys where "unlabelNodes cl cw ns (DiffNodeLists ys xs) w4 = (r, w')"
          using r l Inr g sel a None y by (cases y) (auto simp: ReconcileNodeSelector_def Let_def split: if_splits)
        then show ?thesis
        proof cases
          case (2 ys)
          have "x \<in> set xs" if "wanted (view w) x"
            using selected_wanted [OF l [unfolded Inr] g [unfolded sel]] x that w.node.keyed [OF x] by simp
          moreover have "Name x = n" using w.node.keyed [OF x] by (simp add: ckey_def)
          ultimately have "n \<in> Name ` set xs \<or> protected (view w) ns n" using use by blast
          then have "n \<notin> Name ` set (DiffNodeLists ys xs) \<or> protected (view w) ns n" by (auto simp: DiffNodeLists_eq)
          then have "n \<notin> Name ` set (DiffNodeLists ys xs) \<or> protected (view w4) ns n"
            unfolding protected_def v4 spares_specs [OF s3] .
          from unlabelNodes_spares [OF 2 _ ns _ this] x no_ns s3 v4 spares_specs(4) [OF s3]
          have "spares n (view w3) (view w')" by (simp add: spares_def)
          with s3 show ?thesis by (rule spares_trans)
        qed (use s3 v4 in simp)
      qed
    qed
  qed
qed

text \<open>The second half of a turn deletes only what its loops are given, however it ends.\<close>

lemma delete_pod_only:
  assumes "Delete (pod_client cl) pod w = (e, w')"
  shows "pods_only {nkey pod} (view w) (view w')"
  using w.pod.delete_frame [OF assms] by (auto simp: pods_only_def)

lemma deletePodsLoop_only: "deletePodsLoop cl ps w = (e, w') \<Longrightarrow> pods_only (nkey ` set ps) (view w) (view w')"
proof (induction ps arbitrary: w)
  case (Cons p ps)
  obtain d w1 where d: "Delete (pod_client cl) p w = (d, w1)" by fastforce
  note 1 = delete_pod_only [OF d]
  show ?case
  proof (cases d)
    case None
    with Cons.prems d have "deletePodsLoop cl ps w1 = (e, w')" by simp
    from pods_only_trans [OF 1 Cons.IH [OF this]] show ?thesis by simp
  next
    case (Some err)
    with Cons.prems d 1 show ?thesis by (auto intro: pods_only_mono)
  qed
qed (simp add: pods_only_refl)

lemma modulePodsLoop_only:
  assumes "modulePodsLoop L cl sels names ps acc w = (r, w')"
  shows "pods_only (nkey ` {p \<in> set ps. strays names sels p \<and> \<not> controller_pod p}) (view w) (view w') \<and>
    (\<forall>cps. r = Inr cps \<longrightarrow> set cps \<subseteq> set acc \<union> {p \<in> set ps. strays names sels p \<and> controller_pod p})"
  using assms
proof (induction ps arbitrary: acc w)
  case (Cons p ps)
  have ct: "isPodMatchLabels L p CSIControllerLabel \<longleftrightarrow> controller_pod p"
    by (simp add: isPodMatchLabels_def Matches controller_pod_def smap_of_def)
  have st: "strays names sels p \<longleftrightarrow> NodeName p \<noteq> '''' \<and> list_ex (isPodMatchLabels L p) sels \<and> NodeName p \<notin> set names"
    by (auto simp: strays_def isPodMatchLabels_def Matches list_ex_iff smap_of_def)
  let ?K = "nkey ` {p \<in> set ps. strays names sels p \<and> \<not> controller_pod p}"
  have grow: "nkey ` {q \<in> set (p # ps). strays names sels q \<and> \<not> controller_pod q} =
      (if strays names sels p \<and> \<not> controller_pod p then {nkey p} \<union> ?K else ?K)" by auto
  show ?case
  proof (cases "strays names sels p \<and> \<not> controller_pod p")
    case True
    obtain d w1 where d: "Delete (pod_client cl) p w = (d, w1)" by fastforce
    note 1 = delete_pod_only [OF d]
    show ?thesis
    proof (cases d)
      case None
      with True Cons.prems d have "modulePodsLoop L cl sels names ps acc w1 = (r, w')" by (simp add: st ct)
      from Cons.IH [OF this] pods_only_trans [OF 1] True show ?thesis unfolding grow by auto
    next
      case (Some err)
      with True Cons.prems d have "w' = w1" "\<exists>e. r = Inl e" by (auto simp: st ct)
      with 1 True show ?thesis unfolding grow by (auto intro: pods_only_mono)
    qed
  next
    case False
    then have "modulePodsLoop L cl sels names (p # ps) acc w =
        modulePodsLoop L cl sels names ps (if strays names sels p then acc @ [p] else acc) w"
      unfolding st ct [symmetric] by auto
    with Cons.prems have "modulePodsLoop L cl sels names ps (if strays names sels p then acc @ [p] else acc) w = (r, w')" by simp
    from Cons.IH [OF this] False show ?thesis unfolding grow by (auto split: if_splits)
  qed
qed (auto simp: pods_only_refl)

lemma evictControllerPods_only:
  assumes ev: "evictControllerPods cl cw ps w = (e, w')" and no_ns: "nss (view w) ('''', '''') = None"
  shows "pods_only (if controller_busy (view w) then {} else nkey ` set ps) (view w) (view w')"
proof -
  obtain l w1 where l: "List (ns_client cl) [] w = (l, w1)" by fastforce
  have v1: "view w1 = view w" using w.ns.list_view [OF l] .
  show ?thesis
  proof (cases l)
    case (Inl err)
    with ev l v1 show ?thesis by (simp add: evictControllerPods_def pods_only_refl)
  next
    case (Inr nsl)
    obtain c w2 where c: "IsCSIControllerRemovable cw NFSStorageClassProvisioner nsl w1 = (c, w2)" by fastforce
    have v2: "view w2 = view w" using r.removable_view [OF c] v1 by simp
    have nss: "n \<in> Name ` set nsl \<longleftrightarrow> nss (view w) ('''', n) \<noteq> None" for n
      using namespace_names [OF l [unfolded Inr], of n] .
    have names: "n \<in> set nsl \<Longrightarrow> Name n \<noteq> ''''" for n using nss [of "''''"] no_ns by force
    consider "w' = w2" | "c = Inr True" "deletePodsLoop cl ps w2 = (e, w')"
      using ev l Inr c by (cases c) (auto simp: evictControllerPods_def split: if_splits)
    then show ?thesis
    proof cases
      case 2
      from removable_ok [OF c [unfolded 2(1)] names] nss v1 have "\<not> controller_busy (view w)" by auto
      with deletePodsLoop_only [OF 2(2)] v2 show ?thesis by simp
    qed (simp add: v2 pods_only_refl)
  qed
qed

lemma reconcile_module_pods_only:
  assumes r: "ReconcileModulePods L cl cw ns sel sels w = (e, w')" and ns: "ns \<noteq> ''''" and no_ns: "nss (view w) ('''', '''') = None"
  shows "pods_only {k. \<exists>p. pods (view w) k = Some p \<and> stray (view w) ns sel sels p \<and> (controller_pod p \<longrightarrow> \<not> controller_busy (view w))}
    (view w) (view w')"
proof -
  let ?S = "\<lambda>P. {k. \<exists>p. pods (view w) k = Some p \<and> stray (view w) ns sel sels p \<and> P p}"
  obtain l w1 where l: "List (pod_client cl) [InNamespace ns] w = (l, w1)" by fastforce
  obtain g w2 where g: "GetNodesBySelector cl sel w1 = (g, w2)" by fastforce
  have v1: "view w1 = view w" using w.pod.list_view [OF l] .
  have v2: "view w2 = view w" using w.node.list_view [OF g [unfolded GetNodesBySelector_def]] v1 by simp
  consider "w' = w1" | "w' = w2" | ps xs where "l = Inr ps" "g = Inr xs"
    using r l g by (cases l; cases g) (auto simp: ReconcileModulePods_def)
  then show ?thesis
  proof cases
    case (3 ps xs)
    note img = listed_strays(4) [OF l [unfolded 3] g [unfolded 3] ns, of sels]
    obtain m w3 where m: "modulePodsLoop L cl sels (map Name xs) ps [] w2 = (m, w3)" by fastforce
    from modulePodsLoop_only [OF m] have o1: "pods_only (?S (\<lambda>p. \<not> controller_pod p)) (view w) (view w3)"
      and cps: "m = Inr cps \<Longrightarrow> set cps \<subseteq> {p \<in> set ps. strays (map Name xs) sels p \<and> controller_pod p}" for cps
      unfolding img v2 by auto
    have o2: "pods_only (if controller_busy (view w3) then {} else ?S controller_pod) (view w3) (view w')"
    proof -
      consider "w' = w3" | cps where "m = Inr cps" "evictControllerPods cl cw cps w3 = (e, w')"
        using r l g 3 m by (cases m) (auto simp: ReconcileModulePods_def split: if_splits)
      then show ?thesis
      proof cases
        case (2 cps)
        have "nkey ` set cps \<subseteq> ?S controller_pod" using cps [OF 2(1)] img [of controller_pod] by blast
        with evictControllerPods_only [OF 2(2)] no_ns pods_only_specs(2) [OF o1] show ?thesis
          by (auto intro: pods_only_mono split: if_splits)
      qed (simp add: pods_only_refl)
    qed
    show ?thesis
      by (rule pods_only_mono [OF pods_only_trans [OF o1 o2 [unfolded pods_only_specs(1) [OF o1]]]]) auto
  qed (simp_all add: v1 v2 pods_only_refl)
qed

lemma turn_keeps_node:
  assumes "nodes (view w) ('''', n) = Some x" and "nfs_node x" and "ns \<noteq> ''''" and "nss (view w) ('''', '''') = None"
    and "wanted (view w) x \<or> protected (view w) ns n"
  shows "nodes (view (nodeSelectorTurn L cl cw ns w)) ('''', n) = Some x"
proof -
  obtain r w1 where r: "ReconcileNodeSelector L cl cw ns w = (r, w1)" by fastforce
  obtain e w2 where e: "ReconcileModulePods L cl cw ns NFSNodeSelector ModulePodSelectorList w1 = (e, w2)" by fastforce
  note sp = reconcile_node_selector_spares [OF r assms(1-5)]
  have "nodes (view w1) ('''', n) = Some x" using sp assms(1) by (simp add: spares_def)
  moreover have no_ns1: "nss (view w1) ('''', '''') = None" using spares_specs(4) [OF sp] assms(4) by simp
  moreover have "nodes (view w2) = nodes (view w1)"
    using pods_only_specs(3) [OF reconcile_module_pods_only [OF e assms(3)]] no_ns1 by simp
  ultimately show ?thesis using r e by (simp add: nodeSelectorTurn_def)
qed

end

section \<open>Properties\<close>

text \<open>C8: Eviction is safe in every outcome. However a turn of the module-pod reconciler ends, with an error in the middle of a loop or
  without, it writes pods only, and every pod that is not one of the module's own on a node without the label is exactly as it was, and so is every controller
  pod while a volume or a snapshot is pending.\<close>

theorem eviction_is_safe:
  assumes "node_env cl cw view L"
    and "ReconcileModulePods L cl cw ns nodeSelector sels w = (e, w')"
    and "ns \<noteq> ''''" and "nss (view w) ('''', '''') = None"
  shows "view w' = pods_update (\<lambda>_. pods (view w')) (view w) \<and>
    (\<forall>k. \<not> (\<exists>p. pods (view w) k = Some p \<and> stray (view w) ns nodeSelector sels p \<and> (controller_pod p \<longrightarrow> \<not> controller_busy (view w))) \<longrightarrow>
      pods (view w') k = pods (view w) k)"
  using node_env.reconcile_module_pods_only [OF assms] unfolding pods_only_def by blast

theorem eviction_is_safe_witness:
  "\<exists>e w'. ReconcileModulePods std_lib mem_client mem_client ''d8-csi-nfs'' NFSNodeSelector ModulePodSelectorList
       ((node_world [sample_pod ''d8-csi-nfs'' ''csi-node-x'' ''a'' [(''app'', ''csi-nfs'')] None,
          sample_pod ''d8-csi-nfs'' ''csi-node-y'' ''b'' [(''app'', ''csi-nfs'')] None])\<lparr>m_fail := [''delete pod'']\<rparr>) = (Some e, w') \<and>
     pods (mem_view w') (''d8-csi-nfs'', ''csi-node-y'') \<noteq> None"
proof -
  let ?y = "sample_pod ''d8-csi-nfs'' ''csi-node-y'' ''b'' [(''app'', ''csi-nfs'')] None"
  let ?v = "node_world [sample_pod ''d8-csi-nfs'' ''csi-node-x'' ''a'' [(''app'', ''csi-nfs'')] None, ?y]"
  let ?w = "?v\<lparr>m_fail := [''delete pod'']\<rparr>"
  have view: "mem_view ?w = mem_view ?v" by (simp add: mem_view_def)
  have "fst (ReconcileModulePods std_lib mem_client mem_client ''d8-csi-nfs'' NFSNodeSelector ModulePodSelectorList ?w) \<noteq> None"
    by code_simp
  then obtain e w' where w': "ReconcileModulePods std_lib mem_client mem_client ''d8-csi-nfs'' NFSNodeSelector
      ModulePodSelectorList ?w = (Some e, w')"
    by (metis prod.collapse not_None_eq)
  have y: "pods (mem_view ?w) (''d8-csi-nfs'', ''csi-node-y'') = Some ?y"
    by (simp add: mem_view_def node_world_def mem_empty_def stored_def nkey_def wire_meta_def sample_pod_def)
  have "nodes (mem_view ?w) ('''', ''b'') = Some (sample_node ''b'' [(NFSNodeLabelKey, '''')])"
    by (simp add: mem_view_def node_world_def mem_empty_def stored_def ckey_def wire_meta_def sample_node_def)
  then have "\<not> stray (mem_view ?w) ''d8-csi-nfs'' NFSNodeSelector ModulePodSelectorList ?y"
    by (simp add: stray_def sample_pod_def sample_node_def NFSNodeSelector_def smap_of_def fmsubset.rep_eq)
  moreover have "nss (mem_view ?w) ('''', '''') = None" unfolding view by (rule node_world_laws(2))
  ultimately have "pods (mem_view w') (''d8-csi-nfs'', ''csi-node-y'') = Some ?y"
    using eviction_is_safe [OF memory_nodes.node_env_axioms w'] y by auto
  with w' show ?thesis by blast
qed

end
