(* ===== verification/MC_Watcher.thy ===== *)
theory MC_Watcher
  imports Event_Reconcile
begin

text \<open>
  \<open>mc_watcher.go\<close>: the controller that watches the module's ModuleConfig and marks, with a label, the
  StorageClasses whose NFSStorageClass does not fit the settings any more. The registration with the
  manager is not modelled; the two event filters and the reconcile function are.
\<close>

definition doesNotMatchModuleConfigLabel :: string where
  "doesNotMatchModuleConfigLabel = ''storage.deckhouse.io/does-not-match-moduleconfig''"

section \<open>Validation of all classes\<close>

fun alertLoop :: "edition \<Rightarrow> ModuleConfig \<Rightarrow> NFSStorageClass list \<Rightarrow> smap \<Rightarrow> smap option" where
  "alertLoop ed mc [] alertMap = Some alertMap"
| "alertLoop ed mc (nsc # rest) alertMap = do {
     err \<leftarrow> ValidateNFSStorageClass ed mc nsc;
     alertLoop ed mc rest (if err \<noteq> None then fmupd (Name nsc) ''true'' alertMap else alertMap)
   }"

definition validateModuleConfig :: "edition \<Rightarrow> ModuleConfig \<Rightarrow> NFSStorageClass list \<Rightarrow> smap option" where
  "validateModuleConfig ed mc nscList = alertLoop ed mc nscList fmempty"

section \<open>Labels of the storage classes\<close>

text \<open>The label change of one StorageClass: \<open>None\<close> is \<open>continue\<close>.\<close>

definition relabelSC :: "smap \<Rightarrow> StorageClass \<Rightarrow> StorageClass option" where
  "relabelSC alertMap sc =
    (case fmlookup alertMap (Name sc) of
       None \<Rightarrow>
         (case Labels sc of
            None \<Rightarrow> None
          | Some labels \<Rightarrow>
              if fmlookup labels doesNotMatchModuleConfigLabel = None then None
              else Some (sc\<lparr>Labels := Some (fmdrop doesNotMatchModuleConfigLabel labels)\<rparr>))
     | Some alert \<Rightarrow>
         (let labels = smap_of (Labels sc) in
          if fmlookup labels doesNotMatchModuleConfigLabel \<noteq> None then None
          else Some (sc\<lparr>Labels := Some (fmupd doesNotMatchModuleConfigLabel alert labels)\<rparr>)))"

fun RunModuleConfigEventReconcile ::
  "'w client \<Rightarrow> NFSStorageClass list \<Rightarrow> smap \<Rightarrow> StorageClass list \<Rightarrow> 'w \<Rightarrow> (bool \<times> go_error option) \<times> 'w" where
  "RunModuleConfigEventReconcile cl [] alertMap scList w = ((False, None), w)"
| "RunModuleConfigEventReconcile cl (nsc # rest) alertMap scList w =
    (case find (\<lambda>s. Name s = Name nsc) scList of
       None \<Rightarrow> ((True, Some (ErrorString (''[RunModuleConfigEventReconcile] no storage class found for the NFSStorageClass, name: '' @
                 Name nsc))), w)
     | Some sc \<Rightarrow>
         (case relabelSC alertMap sc of
            None \<Rightarrow> RunModuleConfigEventReconcile cl rest alertMap scList w
          | Some sc' \<Rightarrow>
              (case Update (sc_client cl) sc' w of
                 ((Some e, _), w) \<Rightarrow>
                   ((True, Some (WrapError (''[RunModuleConfigEventReconcile] unable to update the StorageClass '' @ Name sc @ '': '') e)), w)
               | ((None, _), w) \<Rightarrow> RunModuleConfigEventReconcile cl rest alertMap scList w)))"

section \<open>The reconcile function\<close>

definition reconcileModuleConfig ::
  "edition \<Rightarrow> 'w client \<Rightarrow> Options \<Rightarrow> ModuleConfig \<Rightarrow> 'w \<Rightarrow> ((Result \<times> go_error option) \<times> 'w) option" where
  "reconcileModuleConfig ed cl cfg mc w =
    (if Name mc = '''' then Some ((emptyResult, None), w)
     else if DeletionTimestamp mc \<noteq> None then Some ((emptyResult, None), w)
     else
       (case List (nsc_client cl) [] w of
          (Inl e, w) \<Rightarrow> Some ((emptyResult, Some e), w)
        | (Inr nscList, w) \<Rightarrow> do {
            alertMap \<leftarrow> validateModuleConfig ed mc nscList;
            (case List (sc_client cl) [] w of
               (Inl e, w) \<Rightarrow> Some ((emptyResult, Some e), w)
             | (Inr scList, w) \<Rightarrow>
                 (let ((shouldRequeue, err), w) = RunModuleConfigEventReconcile cl nscList alertMap scList w
                  in if shouldRequeue
                     then Some ((\<lparr>RequeueAfter = RequeueModuleConfigInterval cfg * Second\<rparr>, None), w)
                     else Some ((emptyResult, None), w)))
          }))"

definition ReconcileModuleConfig ::
  "lib \<Rightarrow> edition \<Rightarrow> 'w client \<Rightarrow> Options \<Rightarrow> string \<times> string \<Rightarrow> 'w \<Rightarrow> ((Result \<times> go_error option) \<times> 'w) option" where
  "ReconcileModuleConfig L ed cl cfg request w =
    (case Get (mc_client cl) (fst request) (snd request) w of
       (Inl e, w) \<Rightarrow> if \<not> IsNotFound L e then Some ((emptyResult, Some e), w) else Some ((emptyResult, None), w)
     | (Inr mc, w) \<Rightarrow> reconcileModuleConfig ed cl cfg mc w)"

text \<open>\<open>Spec\<close> of a ModuleConfig is the pair of its settings and of the rest.\<close>

definition MCCreateFunc :: "Options \<Rightarrow> ModuleConfig \<Rightarrow> (string \<times> string) option" where
  "MCCreateFunc cfg obj = (if Name obj \<noteq> CsiNfsModuleName cfg then None else Some (Namespace obj, Name obj))"

definition MCUpdateFunc :: "Options \<Rightarrow> ModuleConfig \<Rightarrow> ModuleConfig \<Rightarrow> (string \<times> string) option" where
  "MCUpdateFunc cfg oldMC newMC =
    (if Name newMC \<noteq> CsiNfsModuleName cfg then None
     else if Settings oldMC = Settings newMC \<and> MCSpecRest oldMC = MCSpecRest newMC \<and> DeletionTimestamp newMC = None then None
     else Some (Namespace newMC, Name newMC))"

end
