(* ===== verification/MC_Properties.thy ===== *)
theory MC_Properties
  imports MC_Watcher Event_Properties
begin

text \<open>
  What the ModuleConfig controller achieves: after a successful reconcile the StorageClass of an
  NFSStorageClass carries the alert label exactly if the NFSStorageClass does not fit the ModuleConfig.
\<close>

section \<open>Specification\<close>

definition flagged :: "StorageClass \<Rightarrow> bool" where
  "flagged sc \<longleftrightarrow> fmlookup (smap_of (Labels sc)) doesNotMatchModuleConfigLabel \<noteq> None"

text \<open>\<open>reflagged b x y\<close>: \<open>y\<close> is \<open>x\<close> with the alert label on or off, up to metadata the server owns.\<close>

definition reflagged :: "bool \<Rightarrow> StorageClass \<Rightarrow> StorageClass \<Rightarrow> bool" where
  "reflagged b x y \<longleftrightarrow> (flagged y \<longleftrightarrow> b) \<and> same_object (x\<lparr>Labels := Labels y\<rparr>) y \<and>
     fmdrop doesNotMatchModuleConfigLabel (smap_of (Labels y)) = fmdrop doesNotMatchModuleConfigLabel (smap_of (Labels x)) \<and>
     DeletionTimestamp y = DeletionTimestamp x"

definition scs_alive :: "cluster \<Rightarrow> bool" where
  "scs_alive c \<longleftrightarrow> (\<forall>k x. scs c k = Some x \<longrightarrow> DeletionTimestamp x = None \<or> fins x \<noteq> [])"

text \<open>\<open>scs_marked N b c c'\<close>: the StorageClasses named in \<open>N\<close> exist and were flagged by \<open>b\<close>; nothing else changed.\<close>

definition scs_marked :: "string set \<Rightarrow> (string \<Rightarrow> bool) \<Rightarrow> cluster \<Rightarrow> cluster \<Rightarrow> bool" where
  "scs_marked N b c c' \<longleftrightarrow> c' = scs_update (\<lambda>_. scs c') c \<and>
     (\<forall>k. if fst k = '''' \<and> snd k \<in> N
          then \<exists>x y. scs c k = Some x \<and> scs c' k = Some y \<and> reflagged (b (snd k)) x y
          else scs c' k = scs c k)"

lemma scs_marked_refl: "scs_marked {} b c c"
  by (simp add: scs_marked_def)

lemma scs_marked_trans:
  assumes "scs_marked M b c c1" and "scs_marked N b c1 c2" and "M \<inter> N = {}"
  shows "scs_marked (M \<union> N) b c c2"
proof -
  have "c2 = scs_update (\<lambda>_. scs c2) c"
    using assms(1,2) unfolding scs_marked_def by (metis (no_types, lifting) cluster.surjective cluster.update_convs(2))
  moreover have "if fst k = '''' \<and> snd k \<in> M \<union> N
      then \<exists>x y. scs c k = Some x \<and> scs c2 k = Some y \<and> reflagged (b (snd k)) x y else scs c2 k = scs c k" for k
    using assms unfolding scs_marked_def by (metis (no_types, lifting) IntI UnE UnI1 UnI2 empty_iff)
  ultimately show ?thesis unfolding scs_marked_def by blast
qed

lemma scs_marked_step:
  assumes "scs c ('''', n) = Some x" and "reflagged (b n) x y"
  shows "scs_marked {n} b c (scs_update (\<lambda>s. s(('''', n) := Some y)) c)"
  using assms by (auto simp: scs_marked_def)

lemma scs_marked_at:
  assumes "scs_marked N b c c'" and "n \<in> N" and "scs c' ('''', n) = Some z"
  shows "\<exists>x. scs c ('''', n) = Some x \<and> reflagged (b n) x z"
  using conjunct2 [OF assms(1) [unfolded scs_marked_def], THEN spec, of "('''', n)"] assms(2,3) by auto

section \<open>The label of one class\<close>

lemma relabelSC_None:
  "relabelSC m sc = None \<Longrightarrow> reflagged (fmlookup m (Name sc) \<noteq> None) sc sc"
  by (auto simp: relabelSC_def reflagged_def flagged_def Let_def split: option.splits if_splits)

lemma relabelSC_Some:
  assumes "relabelSC m sc = Some sc'"
  obtains l where "sc' = sc\<lparr>Labels := Some l\<rparr>"
    and "fmlookup l doesNotMatchModuleConfigLabel \<noteq> None \<longleftrightarrow> fmlookup m (Name sc) \<noteq> None"
    and "fmdrop doesNotMatchModuleConfigLabel l = fmdrop doesNotMatchModuleConfigLabel (smap_of (Labels sc))"
proof (cases "fmlookup m (Name sc)")
  case None
  with assms obtain l where "Labels sc = Some l" "sc' = sc\<lparr>Labels := Some (fmdrop doesNotMatchModuleConfigLabel l)\<rparr>"
    by (auto simp: relabelSC_def split: option.splits if_splits)
  with None show ?thesis by (intro that [of "fmdrop doesNotMatchModuleConfigLabel l"]) (auto intro: fmap_ext)
next
  case (Some a)
  with assms have "sc' = sc\<lparr>Labels := Some (fmupd doesNotMatchModuleConfigLabel a (smap_of (Labels sc)))\<rparr>"
    by (auto simp: relabelSC_def Let_def split: if_splits)
  with Some show ?thesis
    by (intro that [of "fmupd doesNotMatchModuleConfigLabel a (smap_of (Labels sc))"]) (auto intro: fmap_ext)
qed

lemma wire_sc_labels: "wire_sc x = x \<Longrightarrow> wire_sc (x\<lparr>Labels := l\<rparr>) = x\<lparr>Labels := omit_map l\<rparr>"
proof -
  assume x: "wire_sc x = x"
  have "wire_sc (x\<lparr>Labels := l\<rparr>) = (wire_sc x)\<lparr>Labels := omit_map l\<rparr>" by (simp add: wire_sc_def wire_meta_def)
  with x show ?thesis by simp
qed

context kube_laws
begin

lemma relabel_sc_ok:
  assumes stored: "scs (view w) ('''', n) = Some sc" and alive: "scs_alive (view w)"
    and sc': "relabelSC m sc = Some sc'" and u: "Update (sc_client cl) sc' w = ((None, y), w')"
  shows "scs_marked {n} (\<lambda>n. fmlookup m n \<noteq> None) (view w) (view w')"
proof -
  have name: "Name sc = n" using sc.keyed [OF stored] by (simp add: ckey_def)
  obtain l where l: "sc' = sc\<lparr>Labels := Some l\<rparr>"
    "fmlookup l doesNotMatchModuleConfigLabel \<noteq> None \<longleftrightarrow> fmlookup m n \<noteq> None"
    "fmdrop doesNotMatchModuleConfigLabel l = fmdrop doesNotMatchModuleConfigLabel (smap_of (Labels sc))"
    using relabelSC_Some [OF sc'] name by metis
  have k: "ckey sc' = ('''', n)" by (simp add: l(1) ckey_def name)
  have wire: "wire_sc sc' = sc\<lparr>Labels := omit_map (Some l)\<rparr>"
    using wire_sc_labels [OF sc.stored_wire [OF stored]] by (simp add: l(1))
  from sc.update_ok [OF u] stored k have same: "same_object (sc\<lparr>Labels := omit_map (Some l)\<rparr>) y"
    and dt: "DeletionTimestamp y = DeletionTimestamp sc"
    and v: "view w' = scs_update (\<lambda>s. s(('''', n) := (if DeletionTimestamp sc \<noteq> None \<and> fins y = [] then None else Some y))) (view w)"
    by (auto simp: wire)
  have lab: "Labels y = omit_map (Some l)" using same_object_meta(3) [OF same] by simp
  have "fins y = fins sc" using same_object_meta(6) [OF same] by (simp add: fins_def)
  with alive stored have nd: "\<not> (DeletionTimestamp sc \<noteq> None \<and> fins y = [])" by (auto simp: scs_alive_def)
  have v: "view w' = scs_update (\<lambda>s. s(('''', n) := Some y)) (view w)" using v unfolding if_not_P [OF nd] .
  have "reflagged (fmlookup m n \<noteq> None) sc y"
    using same dt l(2,3) by (simp add: reflagged_def flagged_def lab)
  with scs_marked_step [OF stored] show ?thesis by (simp add: v)
qed

lemma run_mc_ok:
  assumes "RunModuleConfigEventReconcile cl items m scList w = ((False, err), w')"
    and "distinct (map Name items)" and "scs_alive (view w)"
    and "\<And>nsc. nsc \<in> set items \<Longrightarrow> find (\<lambda>s. Name s = Name nsc) scList = scs (view w) ('''', Name nsc)"
  shows "scs_marked (Name ` set items) (\<lambda>n. fmlookup m n \<noteq> None) (view w) (view w')"
  using assms
proof (induction items arbitrary: w)
  case Nil
  then show ?case by (simp add: scs_marked_refl)
next
  case (Cons nsc items)
  let ?n = "Name nsc" and ?b = "\<lambda>n. fmlookup m n \<noteq> None"
  from Cons.prems(1) obtain sc where f: "find (\<lambda>s. Name s = ?n) scList = Some sc"
    by (cases "find (\<lambda>s. Name s = ?n) scList") auto
  with Cons.prems(4) have stored: "scs (view w) ('''', ?n) = Some sc" by simp
  have name: "Name sc = ?n" using sc.keyed [OF stored] by (simp add: ckey_def)
  obtain w1 where step: "scs_marked {?n} ?b (view w) (view w1)"
    and rest: "RunModuleConfigEventReconcile cl items m scList w1 = ((False, err), w')"
  proof (cases "relabelSC m sc")
    case None
    with Cons.prems(1) f have "RunModuleConfigEventReconcile cl items m scList w = ((False, err), w')" by simp
    moreover have "view w = scs_update (\<lambda>s. s(('''', ?n) := Some sc)) (view w)" using stored by (simp add: fun_upd_idem)
    with scs_marked_step [OF stored, of ?b sc] relabelSC_None [OF None] name
    have "scs_marked {?n} ?b (view w) (view w)" by simp
    ultimately show thesis by (rule that [rotated])
  next
    case (Some sc')
    obtain e y w1 where u: "Update (sc_client cl) sc' w = ((e, y), w1)" by (metis surj_pair)
    with Cons.prems(1) f Some have "e = None" "RunModuleConfigEventReconcile cl items m scList w1 = ((False, err), w')"
      by (cases e; simp)+
    with relabel_sc_ok [OF stored Cons.prems(3) Some] u show thesis by (intro that) auto
  qed
  have new: "?n \<notin> Name ` set items" using Cons.prems(2) by auto
  have "scs_alive (view w1)"
    unfolding scs_alive_def
  proof (intro allI impI)
    fix k z assume z: "scs (view w1) k = Some z"
    show "DeletionTimestamp z = None \<or> fins z \<noteq> []"
    proof (cases "k = ('''', ?n)")
      case True
      with scs_marked_at [OF step, of ?n z] z obtain x where x: "scs (view w) k = Some x" "reflagged (?b ?n) x z"
        by auto
      then have "DeletionTimestamp z = DeletionTimestamp x" "fins z = fins x"
        using same_object_meta(6) [of "x\<lparr>Labels := Labels z\<rparr>" z] by (auto simp: reflagged_def fins_def)
      with x Cons.prems(3) show ?thesis unfolding scs_alive_def by metis
    next
      case False
      with step have "scs (view w1) k = scs (view w) k" unfolding scs_marked_def by (metis prod.collapse singletonD)
      with z Cons.prems(3) show ?thesis unfolding scs_alive_def by metis
    qed
  qed
  moreover have "find (\<lambda>s. Name s = Name nsc') scList = scs (view w1) ('''', Name nsc')" if "nsc' \<in> set items" for nsc'
  proof -
    have "Name nsc' \<noteq> ?n" using new that by (metis imageI)
    then have "scs (view w1) ('''', Name nsc') = scs (view w) ('''', Name nsc')"
      using step unfolding scs_marked_def by (metis singletonD snd_conv)
    with Cons.prems(4) that show ?thesis by simp
  qed
  ultimately have "scs_marked (Name ` set items) ?b (view w1) (view w')"
    using Cons.IH [OF rest] Cons.prems(2) by simp
  from scs_marked_trans [OF step this] new show ?case by simp
qed

end

lemma alertLoop_spec:
  assumes "alertLoop ed mc items acc = Some m"
  shows "fmlookup m n \<noteq> None \<longleftrightarrow> fmlookup acc n \<noteq> None \<or>
    (\<exists>nsc \<in> set items. Name nsc = n \<and> ValidateNFSStorageClass ed mc nsc \<noteq> Some None)"
    and "\<forall>nsc \<in> set items. Connection (Spec nsc) \<noteq> None"
  using assms
proof (induction items arbitrary: acc)
  case (Cons nsc items)
  { case 1
    then obtain e where e: "ValidateNFSStorageClass ed mc nsc = Some e"
      and rest: "alertLoop ed mc items (if e \<noteq> None then fmupd (Name nsc) ''true'' acc else acc) = Some m"
      by (auto simp: bind_eq_Some_conv)
    from Cons.IH(1) [OF rest] e show ?case by auto }
  { case 2
    then obtain e where e: "ValidateNFSStorageClass ed mc nsc = Some e"
      and rest: "alertLoop ed mc items (if e \<noteq> None then fmupd (Name nsc) ''true'' acc else acc) = Some m"
      by (auto simp: bind_eq_Some_conv)
    from Cons.IH(2) [OF rest] e validate_nil_connection [of nsc ed mc] show ?case by auto }
qed simp_all

context kube_laws
begin

lemma reconcile_mc_ok:
  assumes ok: "reconcileModuleConfig ed cl cfg mc w = Some ((emptyResult, None), w')"
    and "Name mc \<noteq> ''''" and "DeletionTimestamp mc = None" and "RequeueModuleConfigInterval cfg > 0"
    and alive: "scs_alive (view w)"
  shows "scs_marked {n. nscs (view w) ('''', n) \<noteq> None}
    (\<lambda>n. \<exists>nsc c. nscs (view w) ('''', n) = Some nsc \<and> Connection (Spec nsc) = Some c \<and> \<not> admissible ed mc c) (view w) (view w')"
proof -
  obtain l w1 where l: "List (nsc_client cl) [] w = (l, w1)" by fastforce
  with ok assms(2,3) obtain items where items: "l = Inr items"
    by (cases l) (auto simp: reconcileModuleConfig_def)
  from ok assms(2,3) l items obtain m where m: "validateModuleConfig ed mc items = Some m"
    by (auto simp: reconcileModuleConfig_def bind_eq_Some_conv)
  obtain l' w2 where l': "List (sc_client cl) [] w1 = (l', w2)" by fastforce
  with ok assms(2,3) l items m obtain scList where scList: "l' = Inr scList"
    by (cases l') (auto simp: reconcileModuleConfig_def)
  obtain rq e w3 where r: "RunModuleConfigEventReconcile cl items m scList w2 = ((rq, e), w3)" by (metis surj_pair)
  from ok assms(2,3,4) l items m l' scList r have res: "rq = False" "w3 = w'"
    by (auto simp: reconcileModuleConfig_def emptyResult_def Second_def split: if_splits)
  have v1: "view w1 = view w" using nsc.list_view [OF l] .
  have v2: "view w2 = view w" using sc.list_view [OF l'] v1 by simp
  have mem: "nsc \<in> set items \<longleftrightarrow> nscs (view w) ('''', Name nsc) = Some nsc" for nsc
    using nsc.list_mem [OF l [unfolded items], of nsc] by (simp add: ckey_def)
  have at: "nscs (view w) ('''', n) = Some nsc \<longleftrightarrow> nsc \<in> set items \<and> Name nsc = n" for n nsc
    using mem nsc.keyed [of w "('''', n)" nsc] by (auto simp: ckey_def)
  have dist: "distinct (map Name items)"
    using nsc.list_ok [OF l [unfolded items]] by (auto simp: distinct_map inj_on_def)
  have "find (\<lambda>s. Name s = n) scList = scs (view w2) ('''', n)" for n
    using sc.list_find [OF l' [unfolded scList], of "('''', n)"] v1 v2 by (simp add: ckey_def)
  from run_mc_ok [OF r [unfolded res] dist _ this] alive v2
  have marked: "scs_marked (Name ` set items) (\<lambda>n. fmlookup m n \<noteq> None) (view w) (view w')" by simp
  have names: "Name ` set items = {n. nscs (view w) ('''', n) \<noteq> None}" using at by auto
  have "fmlookup m n \<noteq> None \<longleftrightarrow> (\<exists>nsc c. nscs (view w) ('''', n) = Some nsc \<and> Connection (Spec nsc) = Some c \<and> \<not> admissible ed mc c)" for n
    using alertLoop_spec [OF m [unfolded validateModuleConfig_def]] validate_accepts_iff [of _ _ ed mc]
    by (auto simp: at) blast+
  with marked show ?thesis unfolding names by simp
qed

end

locale mc_env = kube_laws cl view + lib_laws L
  for cl :: "'w client" and view :: "'w \<Rightarrow> cluster" and L :: lib +
  assumes mc_missing:
    "Get (mc_client cl) ns n w = (Inl e, w') \<Longrightarrow> IsNotFound L e \<Longrightarrow> mcs (view w) (ns, n) = None"

interpretation memory_mc: mc_env mem_client mem_view std_lib
proof (intro mc_env.intro mc_env_axioms.intro)
  fix ns n w e w'
  show "Get (mc_client mem_client) ns n w = (Inl e, w') \<Longrightarrow> IsNotFound std_lib e \<Longrightarrow> mcs (mem_view w) (ns, n) = None"
    by (auto simp: mem_client_def mem_kind_def mem_get_def mem_view_def std_lib_def split: if_splits option.splits)
qed unfold_locales

context mc_env
begin

lemma reconcile_module_config_ok:
  assumes stored: "mcs (view w) ('''', n) = Some mc" and "n \<noteq> ''''" and "DeletionTimestamp mc = None"
    and "RequeueModuleConfigInterval cfg > 0" and "scs_alive (view w)"
    and ok: "ReconcileModuleConfig L ed cl cfg ('''', n) w = Some ((emptyResult, None), w')"
  shows "scs_marked {n. nscs (view w) ('''', n) \<noteq> None}
    (\<lambda>n. \<exists>nsc c. nscs (view w) ('''', n) = Some nsc \<and> Connection (Spec nsc) = Some c \<and> \<not> admissible ed mc c) (view w) (view w')"
proof -
  obtain g w1 where g: "Get (mc_client cl) '''' n w = (g, w1)" by fastforce
  with ok stored mc_missing [of "''''" n w _ w1] obtain mc' where mc': "g = Inr mc'"
    by (cases g) (auto simp: ReconcileModuleConfig_def split: if_splits)
  have same: "mc' = mc" using mc.get_ok [OF g [unfolded mc']] stored by simp
  have v1: "view w1 = view w" using mc.get_view [OF g] .
  have name: "Name mc \<noteq> ''''" using mc.keyed [OF stored] assms(2) by (simp add: ckey_def)
  have m: "reconcileModuleConfig ed cl cfg mc w1 = Some ((emptyResult, None), w')"
    using ok g mc' same by (simp add: ReconcileModuleConfig_def)
  show ?thesis using reconcile_mc_ok [OF m name assms(3,4)] assms(5) unfolding v1 by blast
qed

end

section \<open>Properties\<close>

text \<open>C12: When the ModuleConfig controller finishes a request without error and without asking for a requeue, every
  NFSStorageClass has a StorageClass, which carries the alert label exactly if the NFSStorageClass is not admissible under
  the ModuleConfig; no other label and nothing else in the cluster changed.\<close>

theorem module_config_marks_misfits:
  assumes "mc_env cl view L"
    and "mcs (view w) ('''', n) = Some mc" and "n \<noteq> ''''" and "DeletionTimestamp mc = None"
    and "RequeueModuleConfigInterval cfg > 0" and "scs_alive (view w)"
    and "ReconcileModuleConfig L ed cl cfg ('''', n) w = Some ((emptyResult, None), w')"
  shows "scs_marked {n. nscs (view w) ('''', n) \<noteq> None}
    (\<lambda>n. \<exists>nsc c. nscs (view w) ('''', n) = Some nsc \<and> Connection (Spec nsc) = Some c \<and> \<not> admissible ed mc c) (view w) (view w')"
  by (rule mc_env.reconcile_module_config_ok [OF assms])

definition misfit_world :: mem where
  "misfit_world = sample_world\<lparr>m_nscs := [sample_nsc\<lparr>Spec := sample_spec\<lparr>Connection := Some (sample_connection\<lparr>Tls := True\<rparr>)\<rparr>\<rparr>],
     m_scs := [sample_sc NFSStorageClassProvisioner]\<rparr>"

theorem module_config_marks_misfits_witness:
  "\<exists>w' y. ReconcileModuleConfig std_lib EE mem_client sample_cfg ('''', ''csi-nfs'') misfit_world = Some ((emptyResult, None), w') \<and>
     scs (mem_view w') ('''', ''nfs'') = Some y \<and> flagged y"
proof -
  let ?nsc = "sample_nsc\<lparr>Spec := sample_spec\<lparr>Connection := Some (sample_connection\<lparr>Tls := True\<rparr>)\<rparr>\<rparr>"
  have "map_option fst (ReconcileModuleConfig std_lib EE mem_client sample_cfg ('''', ''csi-nfs'') misfit_world) = Some (emptyResult, None)"
    by code_simp
  then obtain w' where w': "ReconcileModuleConfig std_lib EE mem_client sample_cfg ('''', ''csi-nfs'') misfit_world = Some ((emptyResult, None), w')"
    by auto
  have mc: "mcs (mem_view misfit_world) ('''', ''csi-nfs'') = Some sample_mc"
    and nsc: "nscs (mem_view misfit_world) ('''', ''nfs'') = Some ?nsc"
    by (simp_all add: mem_view_def misfit_world_def sample_world_def mem_empty_def stored_def ckey_def wire_meta_def sample_defs)
  have cfg: "RequeueModuleConfigInterval sample_cfg > 0"
    by (simp add: sample_cfg_def NewConfig_def Let_def DefaultRequeueModuleConfigInterval_def)
  have dt: "DeletionTimestamp (sample_sc NFSStorageClassProvisioner) = None" by code_simp
  have alive: "scs_alive (mem_view misfit_world)"
    by (auto simp: scs_alive_def mem_view_def misfit_world_def stored_def wire_sc_def dt split: if_splits)
  have bad: "\<not> admissible EE sample_mc (sample_connection\<lparr>Tls := True\<rparr>)"
    by (simp add: admissible_def tls_configured_def TLSEnabled_def sample_defs)
  have "''csi-nfs'' \<noteq> ''''" "DeletionTimestamp sample_mc = None" by (simp_all add: sample_mc_def)
  note marks = module_config_marks_misfits [OF memory_mc.mc_env_axioms mc this cfg alive w']
  have "''nfs'' \<in> {n. nscs (mem_view misfit_world) ('''', n) \<noteq> None}" using nsc by simp
  with conjunct2 [OF marks [unfolded scs_marked_def], THEN spec, of "('''', ''nfs'')"]
  obtain y where "scs (mem_view w') ('''', ''nfs'') = Some y" "flagged y"
    using nsc bad by (auto simp: reflagged_def)
  with w' show ?thesis by blast
qed

end
