(* ===== verification/System.thy ===== *)
theory System
  imports Node_Safety MC_Properties
begin

text \<open>
  The three loops of the controller process together, one handled request or turn at a time and in any order,
  interleaved with the writes of other clients: \<open>system_step\<close>. A run is a sequence of such steps from states in
  which a given condition holds.
\<close>

inductive system_step ::
  "lib \<Rightarrow> edition \<Rightarrow> 'w client \<Rightarrow> 'w client \<Rightarrow> Options \<Rightarrow> ('w \<Rightarrow> 'w \<Rightarrow> bool) \<Rightarrow> 'w \<Rightarrow> 'w \<Rightarrow> bool"
  for L ed cl cw cfg others where
  nsc_request: "Reconcile L ed cl cfg ('''', n) w = Some (r, w') \<Longrightarrow> system_step L ed cl cw cfg others w w'"
| mc_request: "ReconcileModuleConfig L ed cl cfg ('''', n) w = Some (r, w') \<Longrightarrow> system_step L ed cl cw cfg others w w'"
| node_turn: "w' = nodeSelectorTurn L cl cw (ControllerNamespace cfg) w \<Longrightarrow> system_step L ed cl cw cfg others w w'"
| other_client: "others w w' \<Longrightarrow> system_step L ed cl cw cfg others w w'"

inductive run_while :: "('w \<Rightarrow> bool) \<Rightarrow> ('w \<Rightarrow> 'w \<Rightarrow> bool) \<Rightarrow> 'w \<Rightarrow> 'w \<Rightarrow> bool"
  for P step where
  stay: "run_while P step w w"
| move: "run_while P step w w1 \<Longrightarrow> P w1 \<Longrightarrow> step w1 w2 \<Longrightarrow> run_while P step w w2"

section \<open>What each loop leaves alone\<close>

lemma scs_only_trans:
  "(c1 :: cluster) = scs_update (\<lambda>_. scs c1) c \<Longrightarrow> c2 = scs_update (\<lambda>_. scs c2) c1 \<Longrightarrow> c2 = scs_update (\<lambda>_. scs c2) c"
  by (metis (no_types, lifting) cluster.surjective cluster.update_convs(2))

context kube_laws
begin

lemma run_mc_frame:
  "RunModuleConfigEventReconcile cl items m scList w = (r, w') \<Longrightarrow> view w' = scs_update (\<lambda>_. scs (view w')) (view w)"
proof (induction items arbitrary: w)
  case (Cons nsc items)
  show ?case
  proof (cases "RunModuleConfigEventReconcile cl items m scList w = (r, w') \<or> w' = w")
    case True
    then show ?thesis using Cons.IH by auto
  next
    case False
    with Cons.prems obtain sc sc' where "find (\<lambda>s. Name s = Name nsc) scList = Some sc" "relabelSC m sc = Some sc'"
      by (auto split: option.splits)
    note found = this
    obtain e y w1 where u: "Update (sc_client cl) sc' w = ((e, y), w1)" by (metis surj_pair)
    have 1: "view w1 = scs_update (\<lambda>_. scs (view w1)) (view w)" using sc.update_frame [OF u] by auto
    show ?thesis
    proof (cases e)
      case None
      with Cons.prems found u have "RunModuleConfigEventReconcile cl items m scList w1 = (r, w')" by simp
      from scs_only_trans [OF 1 Cons.IH [OF this]] show ?thesis .
    next
      case (Some err)
      with Cons.prems found u have "w' = w1" by simp
      with 1 show ?thesis by simp
    qed
  qed
qed simp

lemma mc_reconcile_frame:
  assumes "ReconcileModuleConfig L ed cl cfg rq w = Some (r, w')"
  shows "view w' = scs_update (\<lambda>_. scs (view w')) (view w)"
proof -
  obtain g w1 where g: "Get (mc_client cl) (fst rq) (snd rq) w = (g, w1)" by fastforce
  have v1: "view w1 = view w" using mc.get_view [OF g] .
  obtain l w2 where l: "List (nsc_client cl) [] w1 = (l, w2)" by fastforce
  have v2: "view w2 = view w" using nsc.list_view [OF l] v1 by simp
  obtain l' w3 where l': "List (sc_client cl) [] w2 = (l', w3)" by fastforce
  have v3: "view w3 = view w" using sc.list_view [OF l'] v2 by simp
  have run: "\<exists>items m scList q. RunModuleConfigEventReconcile cl items m scList w3 = (q, w')" if "w' \<notin> {w1, w2, w3}"
  proof -
    from assms g l l' that obtain mc items scList where i: "g = Inr mc" "l = Inr items" "l' = Inr scList"
        "Name mc \<noteq> ''''" "DeletionTimestamp mc = None"
      by (cases g; cases l; cases l')
        (auto simp: ReconcileModuleConfig_def reconcileModuleConfig_def bind_eq_Some_conv split: if_splits)
    with assms g l obtain m where m: "validateModuleConfig ed mc items = Some m"
      by (cases "validateModuleConfig ed mc items") (auto simp: ReconcileModuleConfig_def reconcileModuleConfig_def)
    obtain q e w4 where q: "RunModuleConfigEventReconcile cl items m scList w3 = ((q, e), w4)" by (metis surj_pair)
    with assms g l l' i m have "w' = w4"
      by (auto simp: ReconcileModuleConfig_def reconcileModuleConfig_def split: if_splits)
    with q show ?thesis by blast
  qed
  consider "w' \<in> {w1, w2, w3}" | items m scList q where "RunModuleConfigEventReconcile cl items m scList w3 = (q, w')"
    using run by blast
  then show ?thesis
  proof cases
    case 2
    from run_mc_frame [OF this] show ?thesis unfolding v3 .
  qed (use v1 v2 v3 in auto)
qed

end

text \<open>The environment of the process: a client for each loop and a library, over one view of the cluster.\<close>

locale system = node_env cl cw view L + reconciler cl view L
  for cl :: "'w client" and cw :: "'w client" and view :: "'w \<Rightarrow> cluster" and L :: lib

interpretation memory_system: system mem_client mem_client mem_view std_lib
  by (intro system.intro memory_nodes.node_env_axioms memory.reconciler_axioms)

context system
begin

lemma step_keeps_node:
  assumes "system_step L ed cl cw cfg others w w'" and "ControllerNamespace cfg \<noteq> ''''"
    and "nss (view w) ('''', '''') = None" and "nodes (view w) ('''', n) = Some x" and "nfs_node x"
    and "wanted (view w) x \<or> protected (view w) (ControllerNamespace cfg) n"
    and "others w w' \<Longrightarrow> nodes (view w') ('''', n) = nodes (view w) ('''', n)"
  shows "nodes (view w') ('''', n) = Some x"
  using assms(1)
proof (cases rule: system_step.cases)
  case (nsc_request m r)
  from reconcile_footprint [OF this assms(2)] assms(4) show ?thesis by (auto simp: touches_def)
next
  case (mc_request m r)
  from arg_cong [OF w.mc_reconcile_frame [OF this], of nodes] assms(4) show ?thesis by simp
next
  case node_turn
  with turn_keeps_node [OF assms(4,5,2,3,6)] show ?thesis by simp
next
  case other_client
  with assms(4,7) show ?thesis by simp
qed

lemma run_keeps_node:
  assumes "run_while (\<lambda>w. nss (view w) ('''', '''') = None \<and>
        (\<forall>x. nodes (view w) ('''', n) = Some x \<longrightarrow> wanted (view w) x \<or> protected (view w) (ControllerNamespace cfg) n))
      (system_step L ed cl cw cfg others) w w'"
    and "ControllerNamespace cfg \<noteq> ''''" and "nodes (view w) ('''', n) = Some x" and "nfs_node x"
    and "\<And>w w'. others w w' \<Longrightarrow> nodes (view w') ('''', n) = nodes (view w) ('''', n)"
  shows "nodes (view w') ('''', n) = Some x"
  using assms(1,3)
proof (induction rule: run_while.induct)
  case (move w w1 w2)
  then have "nodes (view w1) ('''', n) = Some x" by blast
  with step_keeps_node [OF move.hyps(3) assms(2) _ _ assms(4)] move.hyps(2) assms(5) show ?case by blast
qed simp

end

section \<open>Properties\<close>

text \<open>C9: No interleaving takes the label from a node in use. Let other clients do what they like except write the node \<open>n\<close>, and let
  the NFSStorageClass controller, the ModuleConfig controller and the node loop handle requests and turns in any order and with any
  outcome, errors included. As long as in every state on the way \<open>n\<close> is selected by the NFSStorageClasses, runs a pod with a
  volume of the driver, or holds the controller while it has work, the labelled node \<open>n\<close> is still there, unchanged.\<close>

theorem interleaving_keeps_label:
  assumes "system cl cw view L" and "ControllerNamespace cfg \<noteq> ''''"
    and "\<And>w w'. others w w' \<Longrightarrow> nodes (view w') ('''', n) = nodes (view w) ('''', n)"
    and "nodes (view w) ('''', n) = Some x" and "nfs_node x"
    and "run_while (\<lambda>w. nss (view w) ('''', '''') = None \<and>
        (\<forall>x. nodes (view w) ('''', n) = Some x \<longrightarrow> wanted (view w) x \<or> protected (view w) (ControllerNamespace cfg) n))
      (system_step L ed cl cw cfg others) w w'"
  shows "nodes (view w') ('''', n) = Some x"
  by (rule system.run_keeps_node [OF assms(1,6,2,4,5,3)])

text \<open>A world in which the label of \<open>a\<close> cannot be written, so that the turn fails.\<close>

definition failing_world :: mem where
  "failing_world = (node_world [])\<lparr>m_fail := [''update node'']\<rparr>"

theorem interleaving_keeps_label_witness:
  "nodes (mem_view (nodeSelectorTurn std_lib mem_client mem_client ''d8-csi-nfs'' failing_world)) ('''', ''b'') =
     Some (sample_node ''b'' [(NFSNodeLabelKey, '''')])"
proof -
  let ?w = "failing_world" and ?x = "sample_node ''b'' [(NFSNodeLabelKey, '''')]"
  let ?P = "\<lambda>w. nss (mem_view w) ('''', '''') = None \<and>
        (\<forall>x. nodes (mem_view w) ('''', ''b'') = Some x \<longrightarrow> wanted (mem_view w) x \<or> protected (mem_view w) (ControllerNamespace sample_cfg) ''b'')"
  have v: "mem_view ?w = mem_view (node_world [])" by (simp add: failing_world_def mem_view_def)
  have ns: "ControllerNamespace sample_cfg = ''d8-csi-nfs''" by code_simp
  have x: "nodes (mem_view ?w) ('''', ''b'') = Some ?x" "nfs_node ?x"
    unfolding v by (simp_all add: mem_view_def node_world_def mem_empty_def stored_def ckey_def wire_meta_def sample_node_def nfs_node_def)
  have "pods (mem_view ?w) (''app'', ''web'') = Some (wire_meta (sample_pod ''app'' ''web'' ''b'' [] (Some ''vol'')))"
    "nss (mem_view ?w) ('''', ''app'') \<noteq> None" "pvcs (mem_view ?w) (''app'', ''vol'') = Some (sample_claim ''app'' ''vol'' ''Bound'')"
    unfolding v by (simp_all add: mem_view_def node_world_def mem_empty_def stored_def ckey_def nkey_def wire_meta_def sample_pod_def
        sample_ns_def sample_claim_def)
  moreover have "nfs_claim (sample_claim ''app'' ''vol'' ''Bound'')"
    by (simp add: nfs_claim_def sample_claim_def provisionerAnnotation_def NFSStorageClassProvisioner_def map_get_def)
  ultimately have "nfs_pod_on (mem_view ?w) ''b''"
    unfolding nfs_pod_on_def uses_nfs_def by (intro exI conjI) (auto simp: sample_pod_def wire_meta_def)
  then have P: "?P ?w" using node_world_laws(2) [of "[]"] by (simp add: v protected_def)
  have run: "run_while ?P (system_step std_lib EE mem_client mem_client sample_cfg (\<lambda>w w'. False)) ?w
      (nodeSelectorTurn std_lib mem_client mem_client (ControllerNamespace sample_cfg) ?w)"
    by (rule run_while.move, rule run_while.stay, rule P, rule system_step.node_turn, rule refl)
  from interleaving_keeps_label [OF memory_system.system_axioms _ _ x run] show ?thesis by (simp add: ns)
qed

end
