(* ===== verification/Controller_Main.thy ===== *)
theory Controller_Main
  imports Logging System
begin

text \<open>
  The process of the controller: \<open>images/controller/cmd/main.go\<close>, the registration of its two controllers (\<open>RunNFSStorageClassWatcherController\<close> and
  \<open>RunModuleConfigWatcherController\<close>) and the goroutine of \<open>RunNodeSelectorReconciler\<close>. A run of \<open>main\<close> is the list of what it did and
  the code it exits with. What the calls of controller-runtime return is given by a record; the rest of the process is the loops of theory System.
\<close>

section \<open>The run of a process\<close>

record manager_options =
  CacheNamespaces :: "string list"
  ProbeAddress :: string
  LeaderElection :: bool
  LeaderElectionNamespace :: string
  LeaderElectionID :: string

datatype 'c main_event =
    Printed string
  | Logged log_line
  | ManagerCreated "'c option" manager_options
  | ControllerCreated string
  | Watching string
  | NodeLoopStarted
  | CheckAdded string
  | ManagerStarted

type_synonym 'c main_run = "'c main_event list \<times> int"

definition after :: "'c main_event list \<Rightarrow> 'c main_run \<Rightarrow> 'c main_run" where
  "after es r = (es @ fst r, snd r)"

definition ControllerName :: string where "ControllerName = ''d8-controller''"
definition NFSStorageClassCtrlName :: string where "NFSStorageClassCtrlName = ''nfs-storage-class-controller''"
definition ModuleConfigCtrlName :: string where "ModuleConfigCtrlName = ''module-config-csi-nfs-controller''"

section \<open>Registration of the controllers\<close>

text \<open>The outcomes of \<open>AddToScheme\<close>, \<open>controller.New\<close> and \<open>Watch\<close>.\<close>

record registration =
  SchemeError :: "go_error option"
  NewError :: "go_error option"
  WatchError :: "go_error option"

definition log_error :: "Logger \<Rightarrow> go_error \<Rightarrow> string \<Rightarrow> 'c main_event list" where
  "log_error l err message = map Logged (Logger_Error l (Some err) message [])"

definition log_info :: "(int \<Rightarrow> nat \<Rightarrow> bool) \<Rightarrow> Logger \<Rightarrow> string \<Rightarrow> 'c main_event list" where
  "log_info enabled l message = map Logged (Logger_Info enabled l message [])"

definition RunNFSStorageClassWatcherController :: "Logger \<Rightarrow> registration \<Rightarrow> 'c main_event list \<times> go_error option" where
  "RunNFSStorageClassWatcherController log r =
    (case SchemeError r of
       Some err \<Rightarrow> (log_error log err ''[ModuleConfigReconciler] unable to run watcher controller: unable to add scheme'', Some err)
     | None \<Rightarrow>
         (case NewError r of
            Some err \<Rightarrow> (log_error log err ''[RunNFSStorageClassWatcherController] unable to create controller'', Some err)
          | None \<Rightarrow>
              (case WatchError r of
                 Some err \<Rightarrow> (ControllerCreated NFSStorageClassCtrlName #
                   log_error log err ''[RunNFSStorageClassWatcherController] unable to watch the events'', Some err)
               | None \<Rightarrow> ([ControllerCreated NFSStorageClassCtrlName, Watching ''NFSStorageClass''], None))))"

definition RunModuleConfigWatcherController :: "Logger \<Rightarrow> registration \<Rightarrow> 'c main_event list \<times> go_error option" where
  "RunModuleConfigWatcherController log r =
    (case SchemeError r of
       Some err \<Rightarrow> (log_error log err ''[ModuleConfigReconciler] unable to run watcher controller: unable to add scheme'', Some err)
     | None \<Rightarrow>
         (case NewError r of
            Some err \<Rightarrow> (log_error log err ''[RunNFSStorageClassWatcherController] unable to create controller'', Some err)
          | None \<Rightarrow>
              (case WatchError r of
                 Some err \<Rightarrow> (ControllerCreated ModuleConfigCtrlName #
                   log_error log err ''[RunModuleConfigWatcherController] unable to watch the events'', Some err)
               | None \<Rightarrow> ([ControllerCreated ModuleConfigCtrlName, Watching ''ModuleConfig''], None))))"

section \<open>The node-selector goroutine\<close>

text \<open>What ends a wait of the loop: its timer, or the cancellation of the context.\<close>

datatype wake = TimerFired | ContextCancelled

text \<open>The loop up to the waits given: a turn first, then a wait; the second component says whether it has returned.\<close>

fun RunNodeSelectorReconciler :: "lib \<Rightarrow> 'w client \<Rightarrow> 'w client \<Rightarrow> string \<Rightarrow> wake list \<Rightarrow> 'w \<Rightarrow> 'w \<times> bool" where
  "RunNodeSelectorReconciler L cl cw namespace [] w = (nodeSelectorTurn L cl cw namespace w, False)"
| "RunNodeSelectorReconciler L cl cw namespace (ContextCancelled # wakes) w = (nodeSelectorTurn L cl cw namespace w, True)"
| "RunNodeSelectorReconciler L cl cw namespace (TimerFired # wakes) w =
     RunNodeSelectorReconciler L cl cw namespace wakes (nodeSelectorTurn L cl cw namespace w)"

section \<open>main\<close>

record 'c main_env =
  Getenv :: "string \<Rightarrow> string"
  ReadFile :: "string \<Rightarrow> go_error + string"
  Flags :: flag_env
  Enabled :: "int \<Rightarrow> nat \<Rightarrow> bool"
  GoVersion :: string
  GOOS :: string
  GOARCH :: string
  Edition :: edition
  InClusterConfig :: "go_error + 'c"
  DefaultRules :: "go_error + 'c"
  SchemeFuncs :: "go_error option list"
  ManagerNew :: "'c option \<Rightarrow> manager_options \<Rightarrow> go_error option"
  NSCRegistration :: registration
  MCRegistration :: registration
  HealthzCheck :: "go_error option"
  ReadyzCheck :: "go_error option"
  StartResult :: "go_error option"

definition managerOpts :: "Options \<Rightarrow> manager_options" where
  "managerOpts cfgParams = \<lparr>CacheNamespaces = [ControllerNamespace cfgParams], ProbeAddress = HealthProbeBindAddress cfgParams,
     LeaderElection = True, LeaderElectionNamespace = ControllerNamespace cfgParams, LeaderElectionID = ControllerName\<rparr>"

text \<open>The end of \<open>main\<close>, from the registration of the controllers.\<close>

definition runManager :: "'c main_env \<Rightarrow> Logger \<Rightarrow> 'c main_run" where
  "runManager env log =
    (let info = log_info (Enabled env) log;
         (es, err) = RunNFSStorageClassWatcherController log (NSCRegistration env)
     in after es (case err of
       Some err \<Rightarrow> (log_error log err (''[main] unable to run '' @ NFSStorageClassCtrlName), 1)
     | None \<Rightarrow>
       (let (es, err) = RunModuleConfigWatcherController log (MCRegistration env)
        in after es (case err of
          Some err \<Rightarrow> (log_error log err (''[main] unable to run '' @ ModuleConfigCtrlName), 1)
        | None \<Rightarrow>
          after [NodeLoopStarted] (case HealthzCheck env of
            Some err \<Rightarrow> (log_error log err ''[main] unable to mgr.AddHealthzCheck'', 1)
          | None \<Rightarrow>
            after (CheckAdded ''healthz'' # info ''[main] successfully AddHealthzCheck'') (case ReadyzCheck env of
              Some err \<Rightarrow> (log_error log err ''[main] unable to mgr.AddReadyzCheck'', 1)
            | None \<Rightarrow>
              after (CheckAdded ''readyz'' # info ''[main] successfully AddReadyzCheck'' @ [ManagerStarted]) (case StartResult env of
                Some err \<Rightarrow> (log_error log err ''[main] unable to mgr.Start'', 1)
              | None \<Rightarrow> ([], 0))))))))"

text \<open>The loop over the scheme functions ends the program at the first error.\<close>

definition firstError :: "go_error option list \<Rightarrow> go_error option" where
  "firstError rs = (case dropWhile (\<lambda>r. r = None) rs of [] \<Rightarrow> None | r # _ \<Rightarrow> r)"

definition controllerMain :: "'c main_env \<Rightarrow> 'c main_run" where
  "controllerMain env =
    (let cfgParams = NewConfig (Getenv env) (ReadFile env)
     in case NewLogger (Flags env) (Loglevel cfgParams) of
       Flags_exit \<Rightarrow> ([], 2)
     | Logger_error err \<Rightarrow> ([Printed (''unable to create NewLogger, err: '' @ Error_msg err @ [CHR 0x0A])], 1)
     | Logger_ready log \<Rightarrow>
       (let info = log_info (Enabled env) log;
            kConfig = KubernetesDefaultConfigCreate (InClusterConfig env) (DefaultRules env)
        in after
          (info (''[main] Go Version:'' @ GoVersion env @ '' '') @
           info (''[main] OS/Arch:Go OS/Arch:'' @ GOOS env @ ''/'' @ GOARCH env @ '' '') @
           info (''[main] Feature TLSEnabled:'' @ Sprint_bool (TLSEnabled (Edition env))) @
           info ''[main] CfgParams has been successfully created'' @
           info (''[main] '' @ LogLevelEnvName @ '' = '' @ Loglevel cfgParams) @
           info (''[main] RequeueStorageClassInterval = '' @ Itoa (RequeueStorageClassInterval cfgParams)) @
           (case kConfig of Inl err \<Rightarrow> log_error log err ''[main] unable to KubernetesDefaultConfigCreate'' | Inr c \<Rightarrow> []) @
           info ''[main] kubernetes config has been successfully created.'')
          (case firstError (SchemeFuncs env) of
            Some err \<Rightarrow> (log_error log err ''[main] unable to add scheme to func'', 1)
          | None \<Rightarrow>
            (let config = (case kConfig of Inl err \<Rightarrow> None | Inr c \<Rightarrow> Some c)
             in after (info ''[main] successfully read scheme CR'') (case ManagerNew env config (managerOpts cfgParams) of
               Some err \<Rightarrow> (log_error log err ''[main] unable to manager.New'', 1)
             | None \<Rightarrow>
               after (ManagerCreated config (managerOpts cfgParams) # info ''[main] successfully created kubernetes manager'')
                 (runManager env log))))))"

section \<open>Facts\<close>

fun is_action :: "'c main_event \<Rightarrow> bool" where
  "is_action (Printed m) = False"
| "is_action (Logged l) = False"
| "is_action e = True"

definition actions :: "'c main_run \<Rightarrow> 'c main_event list" where
  "actions r = filter is_action (fst r)"

lemma filter_logged [simp]: "filter is_action (map Logged ls) = []"
  by (induction ls) auto

lemma actions_simps [simp]:
  "actions (after es r) = filter is_action es @ actions r" "snd (after es r) = snd r"
  "actions ([], n) = []" "actions (log_error l err m, n) = []"
  "filter is_action (log_info enabled l m) = []" "filter is_action (log_error l err m) = []"
  by (simp_all add: actions_def after_def log_info_def log_error_def)

lemma started_action: "ManagerStarted \<in> set (fst r) \<longleftrightarrow> ManagerStarted \<in> set (actions r)"
  by (auto simp: actions_def)

definition registered :: "registration \<Rightarrow> bool" where
  "registered r \<longleftrightarrow> SchemeError r = None \<and> NewError r = None \<and> WatchError r = None"

text \<open>What \<open>main\<close> does when nothing fails.\<close>

definition startup :: "'c option \<Rightarrow> Options \<Rightarrow> 'c main_event list" where
  "startup config cfgParams = [ManagerCreated config (managerOpts cfgParams),
     ControllerCreated NFSStorageClassCtrlName, Watching ''NFSStorageClass'',
     ControllerCreated ModuleConfigCtrlName, Watching ''ModuleConfig'',
     NodeLoopStarted, CheckAdded ''healthz'', CheckAdded ''readyz'', ManagerStarted]"

lemma registration_actions:
  fixes es :: "'c main_event list"
  shows "RunNFSStorageClassWatcherController log r = (es, err) \<Longrightarrow> (err = None \<longleftrightarrow> registered r) \<and> ManagerStarted \<notin> set es \<and>
      prefix (filter is_action es) [ControllerCreated NFSStorageClassCtrlName, Watching ''NFSStorageClass''] \<and>
      (err = None \<longrightarrow> filter is_action es = [ControllerCreated NFSStorageClassCtrlName, Watching ''NFSStorageClass''])"
    and "RunModuleConfigWatcherController log r = (es, err) \<Longrightarrow> (err = None \<longleftrightarrow> registered r) \<and> ManagerStarted \<notin> set es \<and>
      prefix (filter is_action es) [ControllerCreated ModuleConfigCtrlName, Watching ''ModuleConfig''] \<and>
      (err = None \<longrightarrow> filter is_action es = [ControllerCreated ModuleConfigCtrlName, Watching ''ModuleConfig''])"
  by (auto simp: RunNFSStorageClassWatcherController_def RunModuleConfigWatcherController_def registered_def log_error_def split: option.splits)

definition manager_ok :: "'c main_env \<Rightarrow> bool" where
  "manager_ok env \<longleftrightarrow> registered (NSCRegistration env) \<and> registered (MCRegistration env) \<and>
     HealthzCheck env = None \<and> ReadyzCheck env = None"

lemma runManager_actions:
  "prefix (actions (runManager env log)) (tl (startup config cfgParams)) \<and>
   (ManagerStarted \<in> set (actions (runManager env log)) \<longleftrightarrow> manager_ok env) \<and>
   (manager_ok env \<longrightarrow> actions (runManager env log) = tl (startup config cfgParams)) \<and>
   snd (runManager env log) = (if manager_ok env \<and> StartResult env = None then 0 else 1)"
proof -
  obtain es1 err1 where 1: "(RunNFSStorageClassWatcherController log (NSCRegistration env) :: 'a main_event list \<times> _) = (es1, err1)"
    by fastforce
  obtain es2 err2 where 2: "(RunModuleConfigWatcherController log (MCRegistration env) :: 'a main_event list \<times> _) = (es2, err2)"
    by fastforce
  note facts = registration_actions(1) [OF 1] registration_actions(2) [OF 2]
  show ?thesis
  proof (cases "err1 = None \<and> err2 = None")
    case True
    with facts show ?thesis
      by (cases "HealthzCheck env"; cases "ReadyzCheck env"; cases "StartResult env")
        (simp_all add: runManager_def Let_def 1 2 manager_ok_def startup_def)
  next
    case False
    with facts show ?thesis
      by (cases err1; cases err2)
        (auto simp: runManager_def Let_def 1 2 manager_ok_def startup_def prefix_def Cons_eq_append_conv append_eq_Cons_conv)
  qed
qed

lemma node_loop_turns:
  "RunNodeSelectorReconciler L cl cw namespace wakes w =
    ((nodeSelectorTurn L cl cw namespace ^^ Suc (length (takeWhile (\<lambda>x. x = TimerFired) wakes))) w, ContextCancelled \<in> set wakes)"
  by (induction L cl cw namespace wakes w rule: RunNodeSelectorReconciler.induct) (simp_all add: funpow_swap1)

text \<open>The failure to find a client configuration does not end \<open>main\<close>: it goes on without one, after it has said that the configuration
  was created; only \<open>manager.New\<close> refuses it.\<close>

lemma config_failure_goes_on:
  assumes "NewLogger (Flags env) (Loglevel (NewConfig (Getenv env) (ReadFile env))) = Logger_ready log"
    and "text_logger (Enabled env)" and "2 \<le> LogVerbosity log"
    and "InClusterConfig env = Inl e1" and "DefaultRules env = Inl e2"
  shows "Logged (LogLine None ''INFO [main] kubernetes config has been successfully created.'') \<in> set (fst (controllerMain env))"
  using assms(1,3,4,5)
  by (auto simp: controllerMain_def Let_def after_def log_info_def Logger_Info_def V_def text_logger.V_enabled [OF assms(2)]
      infoLvl_def split: option.split)

section \<open>Properties\<close>


definition sample_env :: "string main_env" where
  "sample_env = \<lparr>Getenv = (\<lambda>_. ''''), ReadFile = (\<lambda>_. Inl (ErrorString ''no such file'')), Flags = all_flags,
     Enabled = textlogger_enabled, GoVersion = ''go1.24'', GOOS = ''linux'', GOARCH = ''amd64'', Edition = EE,
     InClusterConfig = Inr ''token'', DefaultRules = Inl (ErrorString ''no kubeconfig''), SchemeFuncs = replicate 6 None,
     ManagerNew = (\<lambda>c opts. if c = None then Some (ErrorString ''must specify Config'') else None),
     NSCRegistration = \<lparr>SchemeError = None, NewError = None, WatchError = None\<rparr>,
     MCRegistration = \<lparr>SchemeError = None, NewError = None, WatchError = None\<rparr>,
     HealthzCheck = None, ReadyzCheck = None, StartResult = Some (ErrorString ''leader election lost'')\<rparr>"


end
