(* ===== verification/Scheduler.thy ===== *)
theory Scheduler
  imports Node_Selector
begin

text \<open>
  The scheduler extender, \<open>images/csi-nfs-scheduler-extender/pkg/scheduler\<close>: the HTTP handler that the
  Kubernetes scheduler asks which of its candidate nodes suit a pod.

  The outcome of decoding the request body is part of the request (\<open>Decoded\<close>), and whether the write of
  the response reaches the peer is the argument \<open>io\<close>; both belong to \<open>net/http\<close> and \<open>encoding/json\<close>.
  \<open>ResponseWriter\<close> records what the handler sends: the first status code wins, as in \<open>net/http\<close>, and
  headers set after it have no effect. A response body is kept as the value that is encoded.
\<close>

section \<open>Messages\<close>

record ExtenderArgs =
  ArgPod :: "Pod option"
  ArgNodes :: "Node list option"
  ArgNodeNames :: "string list option"

record HostPriority =
  Host_name :: string
  Score :: int

record ExtenderFilterResult =
  Nodes :: "Node list option"
  NodeNames :: "string list option"
  FailedNodes :: "smap option"
  FilterError :: string

datatype payload = Text string | FilterJSON ExtenderFilterResult | PriorityJSON "HostPriority list"

record Request =
  Path :: string
  Decoded :: "go_error + ExtenderArgs"

record ResponseWriter =
  ContentType :: string
  StatusCode :: "int option"
  Written :: "payload list"

definition new_response :: ResponseWriter where
  "new_response = \<lparr>ContentType = '''', StatusCode = None, Written = []\<rparr>"

definition setContentType :: "string \<Rightarrow> ResponseWriter \<Rightarrow> ResponseWriter" where
  "setContentType t rw = (if StatusCode rw = None then rw\<lparr>ContentType := t\<rparr> else rw)"

definition WriteHeader :: "int \<Rightarrow> ResponseWriter \<Rightarrow> ResponseWriter" where
  "WriteHeader code rw = (if StatusCode rw = None then rw\<lparr>StatusCode := Some code\<rparr> else rw)"

definition send :: "payload \<Rightarrow> ResponseWriter \<Rightarrow> ResponseWriter" where
  "send p rw = (WriteHeader 200 rw)\<lparr>Written := Written rw @ [p]\<rparr>"

definition http_Error :: "ResponseWriter \<Rightarrow> string \<Rightarrow> int \<Rightarrow> ResponseWriter" where
  "http_Error rw msg code =
     send (Text (msg @ [CHR 0x0A])) (WriteHeader code (setContentType ''text/plain; charset=utf-8'' rw))"

definition Encode :: "go_error option \<Rightarrow> payload \<Rightarrow> ResponseWriter \<Rightarrow> go_error option \<times> ResponseWriter" where
  "Encode io p rw = (case io of None \<Rightarrow> (None, send p rw) | Some e \<Rightarrow> (Some e, WriteHeader 200 rw))"

section \<open>Which provisioner a claim has\<close>

definition CSINFSProvisioner :: string where "CSINFSProvisioner = ''nfs.csi.k8s.io''"
definition annotationBetaStorageProvisioner :: string where
  "annotationBetaStorageProvisioner = ''volume.beta.kubernetes.io/storage-provisioner''"
definition annotationStorageProvisioner :: string where
  "annotationStorageProvisioner = ''volume.kubernetes.io/storage-provisioner''"

text \<open>On \<open>NotFound\<close> the object stays zero, so the provisioner read from it is \<open>""\<close>.\<close>

definition provisionerFromSC ::
  "lib \<Rightarrow> 'w client \<Rightarrow> PersistentVolumeClaim \<Rightarrow> string \<Rightarrow> 'w \<Rightarrow> (go_error + string) \<times> 'w" where
  "provisionerFromSC L cl pvc discoveredProvisioner w =
    (case StorageClassName pvc of
       None \<Rightarrow> (Inr discoveredProvisioner, w)
     | Some scName \<Rightarrow>
         if discoveredProvisioner = '''' \<and> scName \<noteq> '''' then
           (case Get (sc_client cl) '''' scName w of
              (Inl e, w) \<Rightarrow>
                if \<not> IsNotFound L e
                then (Inl (ErrorString (''[getProvisionerFromPVC] error getting StorageClass '' @ scName @ '': '' @ Error_msg e)), w)
                else (Inr '''', w)
            | (Inr storageClass, w) \<Rightarrow> (Inr (Provisioner storageClass), w))
         else (Inr discoveredProvisioner, w))"

definition provisionerFromPV ::
  "lib \<Rightarrow> 'w client \<Rightarrow> PersistentVolumeClaim \<Rightarrow> string \<Rightarrow> 'w \<Rightarrow> (go_error + string) \<times> 'w" where
  "provisionerFromPV L cl pvc discoveredProvisioner w =
    (if discoveredProvisioner = '''' \<and> VolumeName pvc \<noteq> '''' then
       (case Get (pv_client cl) '''' (VolumeName pvc) w of
          (Inl e, w) \<Rightarrow>
            if \<not> IsNotFound L e
            then (Inl (ErrorString (''[getProvisionerFromPVC] error getting PV '' @ VolumeName pvc @ '' for PVC '' @
                    Namespace pvc @ ''/'' @ Name pvc @ '': '' @ Error_msg e)), w)
            else (Inr discoveredProvisioner, w)
        | (Inr pv, w) \<Rightarrow>
            (Inr (case CSIDriver pv of None \<Rightarrow> discoveredProvisioner | Some driver \<Rightarrow> driver), w))
     else (Inr discoveredProvisioner, w))"

definition getProvisionerFromPVC ::
  "lib \<Rightarrow> 'w client \<Rightarrow> PersistentVolumeClaim \<Rightarrow> 'w \<Rightarrow> (go_error + string) \<times> 'w" where
  "getProvisionerFromPVC L cl pvc w =
    (let d = map_get (Annotations pvc) annotationStorageProvisioner;
         d = (if d \<noteq> '''' then d else map_get (Annotations pvc) annotationBetaStorageProvisioner)
     in case provisionerFromSC L cl pvc d w of
          (Inl e, w) \<Rightarrow> (Inl e, w)
        | (Inr d, w) \<Rightarrow> provisionerFromPV L cl pvc d w)"

section \<open>Which pods are of interest\<close>

definition claimMap :: "PersistentVolumeClaim list \<Rightarrow> (string, PersistentVolumeClaim) fmap" where
  "claimMap items = fold (\<lambda>pvc m. fmupd (Name pvc) pvc m) items fmempty"

fun processVolumes ::
  "lib \<Rightarrow> 'w client \<Rightarrow> string \<Rightarrow> string \<Rightarrow> (string, PersistentVolumeClaim) fmap \<Rightarrow> Volume list \<Rightarrow> bool \<times> Volume list \<Rightarrow> 'w \<Rightarrow>
   (go_error + bool \<times> Volume list) \<times> 'w" where
  "processVolumes L cl namespace targetProvisioner pvcMap [] acc w = (Inr acc, w)"
| "processVolumes L cl namespace targetProvisioner pvcMap (volume # rest) acc w =
    (case PersistentVolumeClaim volume of
       None \<Rightarrow> processVolumes L cl namespace targetProvisioner pvcMap rest acc w
     | Some pvcName \<Rightarrow>
         (case fmlookup pvcMap pvcName of
            None \<Rightarrow> (Inl (ErrorString (''[ShouldProcessPod] found no pvc '' @ pvcName @ '' in namespace '' @ namespace)), w)
          | Some pvc \<Rightarrow>
              (case getProvisionerFromPVC L cl pvc w of
                 (Inl e, w) \<Rightarrow> (Inl (ErrorString (''[ShouldProcessPod] error getting provisioner from PVC '' @ namespace @ ''/'' @
                    pvcName @ '': '' @ Error_msg e)), w)
               | (Inr discoveredProvisioner, w) \<Rightarrow>
                   processVolumes L cl namespace targetProvisioner pvcMap rest
                     (if discoveredProvisioner = targetProvisioner then (True, snd acc @ [volume]) else acc) w)))"

definition shouldProcessPod ::
  "lib \<Rightarrow> 'w client \<Rightarrow> Pod \<Rightarrow> string \<Rightarrow> 'w \<Rightarrow> (go_error + bool \<times> Volume list) \<times> 'w" where
  "shouldProcessPod L cl pod targetProvisioner w =
    (case List (pvc_client cl) [InNamespace (Namespace pod)] w of
       (Inl e, w) \<Rightarrow> (Inl (ErrorString (''[ShouldProcessPod] error getting PVCs in namespace '' @ Namespace pod @ '': '' @ Error_msg e)), w)
     | (Inr items, w) \<Rightarrow>
         (case processVolumes L cl (Namespace pod) targetProvisioner (claimMap items) (Volumes pod) (False, []) w of
            (Inl e, w) \<Rightarrow> (Inl e, w)
          | (Inr (shouldProcess, targetProvisionerVolumes), w) \<Rightarrow>
              (Inr (if shouldProcess then (True, targetProvisionerVolumes) else (False, [])), w)))"

definition getNodeNames :: "ExtenderArgs \<Rightarrow> go_error + string list" where
  "getNodeNames inputData =
    (case ArgNodeNames inputData of
       Some (n # names) \<Rightarrow> Inr (n # names)
     | _ \<Rightarrow>
         (case ArgNodes inputData of
            Some (x # items) \<Rightarrow> Inr (map Name (x # items))
          | _ \<Rightarrow> Inl (ErrorString ''no nodes provided'')))"

section \<open>Which nodes the storage classes select\<close>

fun GetNFSStorageClassesFromVolumes ::
  "'w client \<Rightarrow> string \<Rightarrow> Volume list \<Rightarrow> NFSStorageClass list \<Rightarrow> 'w \<Rightarrow> (go_error + NFSStorageClass list) \<times> 'w" where
  "GetNFSStorageClassesFromVolumes cl namespace [] nfsStorageClasses w = (Inr nfsStorageClasses, w)"
| "GetNFSStorageClassesFromVolumes cl namespace (volume # rest) nfsStorageClasses w =
    (case PersistentVolumeClaim volume of
       None \<Rightarrow> GetNFSStorageClassesFromVolumes cl namespace rest nfsStorageClasses w
     | Some pvcName \<Rightarrow>
         (case Get (pvc_client cl) namespace pvcName w of
            (Inl e, w) \<Rightarrow> (Inl (ErrorString (''error getting PVC '' @ pvcName @ '': '' @ Error_msg e)), w)
          | (Inr pvc, w) \<Rightarrow>
              (case StorageClassName pvc of
                 None \<Rightarrow> (Inl (ErrorString (''PVC '' @ pvcName @ '' has no storage class'')), w)
               | Some storageClassName \<Rightarrow>
                   (case Get (nsc_client cl) '''' storageClassName w of
                      (Inl e, w) \<Rightarrow> (Inl (ErrorString (''error getting NFSStorageClass '' @ storageClassName @ '': '' @ Error_msg e)), w)
                    | (Inr nsc, w) \<Rightarrow>
                        GetNFSStorageClassesFromVolumes cl namespace rest (nfsStorageClasses @ [nsc]) w))))"

definition GetKubernetesNodesBySelector :: "'w client \<Rightarrow> smap option \<Rightarrow> 'w \<Rightarrow> (go_error + Node list) \<times> 'w" where
  "GetKubernetesNodesBySelector cl nodeSelector w = List (node_client cl) [MatchingLabels (smap_of nodeSelector)] w"

definition GetKubernetesNodeNamesBySelector :: "'w client \<Rightarrow> smap option \<Rightarrow> 'w \<Rightarrow> (go_error + string list) \<times> 'w" where
  "GetKubernetesNodeNamesBySelector cl nodeSelector w =
    (case GetKubernetesNodesBySelector cl nodeSelector w of
       (Inl e, w) \<Rightarrow> (Inl e, w)
     | (Inr items, w) \<Rightarrow> (Inr (map Name items), w))"

text \<open>The extender has its own copy of the default selector and of \<open>GetNodeSelectorFromNFSStorageClasses\<close>, the
  latter without the special case of an empty list.\<close>

definition ExtenderDefaultNodeSelector :: LabelSelector where
  "ExtenderDefaultNodeSelector =
     \<lparr>MatchLabels = Some (fmupd ''kubernetes.io/os'' ''linux'' fmempty), MatchExpressions = None\<rparr>"

fun userNodeSelectors :: "NFSStorageClass list \<Rightarrow> LabelSelector list \<Rightarrow> LabelSelector list" where
  "userNodeSelectors [] nodeSelectorList = nodeSelectorList"
| "userNodeSelectors (nfsStorageClass # items) nodeSelectorList =
     (case WorkloadNodes (Spec nfsStorageClass) of
        None \<Rightarrow> [ExtenderDefaultNodeSelector]
      | Some wn \<Rightarrow>
          (case NodeSelector wn of
             None \<Rightarrow> [ExtenderDefaultNodeSelector]
           | Some selector \<Rightarrow> userNodeSelectors items (nodeSelectorList @ [selector])))"

definition GetUserNodeSelectors :: "NFSStorageClass list \<Rightarrow> LabelSelector list" where
  "GetUserNodeSelectors nfsStorageClasses = userNodeSelectors nfsStorageClasses []"

definition getCommonNodeNames :: "string list \<Rightarrow> string list \<Rightarrow> string list" where
  "getCommonNodeNames nodeNames selectedNodeNames =
     (let selectedNodeNamesMap = fold (\<lambda>nodeName m. fmupd nodeName () m) selectedNodeNames fmempty
      in filter (\<lambda>nodeName. fmlookup selectedNodeNamesMap nodeName \<noteq> None) nodeNames)"

text \<open>The argument \<open>i\<close> is the loop index.\<close>

fun commonNodesLoop ::
  "'w client \<Rightarrow> nat \<Rightarrow> LabelSelector list \<Rightarrow> string list \<Rightarrow> 'w \<Rightarrow> (go_error + string list) \<times> 'w" where
  "commonNodesLoop cl i [] commonNodeNames w = (Inr commonNodeNames, w)"
| "commonNodesLoop cl i (nodeSelector # rest) commonNodeNames w =
    (case GetKubernetesNodeNamesBySelector cl (MatchLabels nodeSelector) w of
       (Inl e, w) \<Rightarrow> (Inl (ErrorString (''[GetCommonNodesByNodeSelectorList] Error getting nodes by selector: '' @ Error_msg e)), w)
     | (Inr selectedNodeNames, w) \<Rightarrow>
         commonNodesLoop cl (Suc i) rest
           (if i = 0 then selectedNodeNames else getCommonNodeNames commonNodeNames selectedNodeNames) w)"

definition GetCommonNodesByNodeSelectorList ::
  "'w client \<Rightarrow> LabelSelector list \<Rightarrow> 'w \<Rightarrow> (go_error + string list) \<times> 'w" where
  "GetCommonNodesByNodeSelectorList cl nodeSelectorList w =
    (if length nodeSelectorList = 0
     then (Inl (ErrorString ''[GetCommonNodesByNodeSelectorList] Empty nodeSelectorList''), w)
     else commonNodesLoop cl 0 nodeSelectorList [] w)"

section \<open>Filter\<close>

fun splitNodes :: "string list \<Rightarrow> string list \<Rightarrow> string list \<times> smap \<Rightarrow> string list \<times> smap" where
  "splitNodes commonNodeNames [] r = r"
| "splitNodes commonNodeNames (nodeName # rest) r =
     splitNodes commonNodeNames rest
       (if nodeName \<in> set commonNodeNames then (fst r @ [nodeName], snd r)
        else (fst r, fmupd nodeName ''node is not selected by user selectors'' (snd r)))"

definition filterNodes ::
  "'w client \<Rightarrow> string list \<Rightarrow> string \<Rightarrow> Volume list \<Rightarrow> 'w \<Rightarrow> (go_error + ExtenderFilterResult) \<times> 'w" where
  "filterNodes cl nodeNames namespace targetProvisionerVolumes w =
    (if length nodeNames = 0
     then (Inr \<lparr>Nodes = None, NodeNames = Some [], FailedNodes = Some fmempty, FilterError = ''''\<rparr>, w)
     else (case GetNFSStorageClassesFromVolumes cl namespace targetProvisionerVolumes [] w of
       (Inl e, w) \<Rightarrow> (Inl e, w)
     | (Inr nfsStorageClasses, w) \<Rightarrow>
         (case GetCommonNodesByNodeSelectorList cl (GetUserNodeSelectors nfsStorageClasses) w of
            (Inl e, w) \<Rightarrow> (Inl e, w)
          | (Inr commonNodeNames, w) \<Rightarrow>
              (let (names, failed) = splitNodes commonNodeNames nodeNames ([], fmempty)
               in (Inr \<lparr>Nodes = None, NodeNames = Some names, FailedNodes = Some failed, FilterError = ''''\<rparr>, w)))))"

definition respond :: "go_error option \<Rightarrow> payload \<Rightarrow> ResponseWriter \<Rightarrow> ResponseWriter" where
  "respond io p rw =
    (case Encode io p (setContentType ''application/json'' rw) of
       (None, rw) \<Rightarrow> rw
     | (Some _, rw) \<Rightarrow> http_Error rw ''internal error'' 500)"

definition Filter ::
  "lib \<Rightarrow> 'w client \<Rightarrow> go_error option \<Rightarrow> ResponseWriter \<Rightarrow> Request \<Rightarrow> 'w \<Rightarrow> ResponseWriter \<times> 'w" where
  "Filter L cl io rw r w =
    (case Decoded r of
       Inl err \<Rightarrow> (http_Error rw (''[filter] unable to decode a request: '' @ Error_msg err) 400, w)
     | Inr inputData \<Rightarrow>
         (case ArgPod inputData of
            None \<Rightarrow> (http_Error rw ''[filter] unable to get a Pod from the request: %!s(<nil>)'' 400, w)
          | Some pod \<Rightarrow>
              (case getNodeNames inputData of
                 Inl err \<Rightarrow> (http_Error rw (''[filter] unable to get node names from the request: '' @ Error_msg err) 400, w)
               | Inr nodeNames \<Rightarrow>
                   (case shouldProcessPod L cl pod CSINFSProvisioner w of
                      (Inl err, w) \<Rightarrow>
                        (http_Error rw (''[filter] unable to check if the Pod should be processed: '' @ Error_msg err) 400, w)
                    | (Inr (shouldProcess, targetProvisionerVolumes), w) \<Rightarrow>
                        if \<not> shouldProcess
                        then (respond io (FilterJSON \<lparr>Nodes = None, NodeNames = Some nodeNames, FailedNodes = None,
                                FilterError = ''''\<rparr>) rw, w)
                        else (case filterNodes cl nodeNames (Namespace pod) targetProvisionerVolumes w of
                                (Inl err, w) \<Rightarrow> (http_Error rw (''[filter] internal error: '' @ Error_msg err) 500, w)
                              | (Inr filteredNodes, w) \<Rightarrow> (respond io (FilterJSON filteredNodes) rw, w))))))"

section \<open>Prioritize, status and routes\<close>

fun scoreLoop :: "string list \<Rightarrow> HostPriority list \<Rightarrow> HostPriority list" where
  "scoreLoop [] result = result"
| "scoreLoop (nodeName # rest) result = scoreLoop rest (result @ [\<lparr>Host_name = nodeName, Score = 0\<rparr>])"

definition scoreNodes :: "string list \<Rightarrow> HostPriority list" where
  "scoreNodes nodeNames = (if length nodeNames = 0 then [] else scoreLoop nodeNames [])"

definition prioritize :: "go_error option \<Rightarrow> ResponseWriter \<Rightarrow> Request \<Rightarrow> ResponseWriter" where
  "prioritize io rw r =
    (case Decoded r of
       Inl err \<Rightarrow> http_Error rw ''Bad Request.'' 400
     | Inr inputData \<Rightarrow>
         (case ArgPod inputData of
            None \<Rightarrow> http_Error rw ''bad request'' 400
          | Some pod \<Rightarrow>
              (case getNodeNames inputData of
                 Inl err \<Rightarrow> http_Error rw ''bad request'' 400
               | Inr nodeNames \<Rightarrow> respond io (PriorityJSON (scoreNodes nodeNames)) rw)))"

definition status :: "go_error option \<Rightarrow> ResponseWriter \<Rightarrow> ResponseWriter" where
  "status io rw = (case io of None \<Rightarrow> send (Text ''ok'') (WriteHeader 200 rw) | Some _ \<Rightarrow> WriteHeader 200 rw)"

definition ServeHTTP ::
  "lib \<Rightarrow> 'w client \<Rightarrow> go_error option \<Rightarrow> ResponseWriter \<Rightarrow> Request \<Rightarrow> 'w \<Rightarrow> ResponseWriter \<times> 'w" where
  "ServeHTTP L cl io rw r w =
    (if Path r = ''/scheduler/filter'' then Filter L cl io rw r w
     else if Path r = ''/scheduler/prioritize'' then (prioritize io rw r, w)
     else if Path r = ''/status'' then (status io rw, w)
     else (http_Error rw ''not found'' 404, w))"

end
