(* ===== verification/Scheduler_Properties.thy ===== *)
theory Scheduler_Properties
  imports Scheduler Node_Properties
begin

text \<open>
  What the scheduler extender answers: specification in terms of the cluster, the lemmas about the
  functions of theory \<open>Scheduler\<close>, and the properties.
\<close>

section \<open>Specification\<close>

text \<open>The provisioner of a claim: the annotation, else the beta annotation, else the provisioner of the
  StorageClass, else the CSI driver of the bound volume.\<close>

definition annotated_provisioner :: "PersistentVolumeClaim \<Rightarrow> string" where
  "annotated_provisioner p =
     (if map_get (Annotations p) annotationStorageProvisioner \<noteq> ''''
      then map_get (Annotations p) annotationStorageProvisioner
      else map_get (Annotations p) annotationBetaStorageProvisioner)"

definition class_provisioner :: "cluster \<Rightarrow> PersistentVolumeClaim \<Rightarrow> string" where
  "class_provisioner c p =
     (case StorageClassName p of
        None \<Rightarrow> ''''
      | Some n \<Rightarrow> if n = '''' then '''' else (case scs c ('''', n) of None \<Rightarrow> '''' | Some sc \<Rightarrow> Provisioner sc))"

definition volume_provisioner :: "cluster \<Rightarrow> PersistentVolumeClaim \<Rightarrow> string" where
  "volume_provisioner c p =
     (if VolumeName p = '''' then ''''
      else (case pvs c ('''', VolumeName p) of
              None \<Rightarrow> '''' | Some pv \<Rightarrow> (case CSIDriver pv of None \<Rightarrow> '''' | Some d \<Rightarrow> d)))"

definition provisioner_of :: "cluster \<Rightarrow> PersistentVolumeClaim \<Rightarrow> string" where
  "provisioner_of c p =
     (if annotated_provisioner p \<noteq> '''' then annotated_provisioner p
      else if class_provisioner c p \<noteq> '''' then class_provisioner c p
      else volume_provisioner c p)"

text \<open>\<open>nfs_volume c ns v\<close>: a volume of a pod in \<open>ns\<close> whose claim is provisioned by this driver.\<close>

definition nfs_volume :: "cluster \<Rightarrow> string \<Rightarrow> Volume \<Rightarrow> bool" where
  "nfs_volume c ns v \<longleftrightarrow> (\<exists>q p. PersistentVolumeClaim v = Some q \<and> pvcs c (ns, q) = Some p \<and>
     provisioner_of c p = CSINFSProvisioner)"

text \<open>\<open>class_of c ns v\<close>: the NFSStorageClass of the claim of a volume.\<close>

definition class_of :: "cluster \<Rightarrow> string \<Rightarrow> Volume \<Rightarrow> NFSStorageClass option" where
  "class_of c ns v = do { q \<leftarrow> PersistentVolumeClaim v; p \<leftarrow> pvcs c (ns, q); n \<leftarrow> StorageClassName p; nscs c ('''', n) }"

definition labels_select :: "LabelSelector \<Rightarrow> Node \<Rightarrow> bool" where
  "labels_select s x \<longleftrightarrow> smap_of (MatchLabels s) \<subseteq>\<^sub>f smap_of (Labels x)"

text \<open>The nodes the extender lets through for a pod: all of them if it has no volume of this driver, else
  the nodes whose labels satisfy the \<open>matchLabels\<close> of every class involved, or the default selector as soon as one of
  these classes has no selector.\<close>

definition classes_used :: "cluster \<Rightarrow> Pod \<Rightarrow> NFSStorageClass set" where
  "classes_used c pod = {nsc. \<exists>v \<in> set (Volumes pod). nfs_volume c (Namespace pod) v \<and> class_of c (Namespace pod) v = Some nsc}"

definition admits :: "NFSStorageClass set \<Rightarrow> Node \<Rightarrow> bool" where
  "admits N x \<longleftrightarrow>
     (if \<exists>nsc \<in> N. selector_of nsc = None then labels_select DefaultNodeSelector x
      else \<forall>nsc \<in> N. \<forall>s. selector_of nsc = Some s \<longrightarrow> labels_select s x)"

definition suitable :: "cluster \<Rightarrow> Pod \<Rightarrow> string \<Rightarrow> bool" where
  "suitable c pod n \<longleftrightarrow> (\<exists>v \<in> set (Volumes pod). nfs_volume c (Namespace pod) v) \<longrightarrow>
     (\<exists>x. nodes c ('''', n) = Some x \<and> admits (classes_used c pod) x)"

section \<open>The environment\<close>

locale extender_env = kube_laws cl view + lib_laws L
  for cl :: "'w client" and view :: "'w \<Rightarrow> cluster" and L :: lib +
  assumes sc_missing:
    "Get (sc_client cl) ns n w = (Inl e, w') \<Longrightarrow> IsNotFound L e \<Longrightarrow> scs (view w) (ns, n) = None"
    and pv_missing:
    "Get (pv_client cl) ns n w = (Inl e, w') \<Longrightarrow> IsNotFound L e \<Longrightarrow> pvs (view w) (ns, n) = None"

interpretation memory_extender: extender_env mem_client mem_view std_lib
proof (intro extender_env.intro extender_env_axioms.intro)
  fix ns n w e w'
  show "Get (sc_client mem_client) ns n w = (Inl e, w') \<Longrightarrow> IsNotFound std_lib e \<Longrightarrow> scs (mem_view w) (ns, n) = None"
    and "Get (pv_client mem_client) ns n w = (Inl e, w') \<Longrightarrow> IsNotFound std_lib e \<Longrightarrow> pvs (mem_view w) (ns, n) = None"
    by (auto simp: mem_client_def mem_kind_def mem_get_def mem_view_def std_lib_def split: if_splits option.splits)
qed unfold_locales

section \<open>Reading the cluster\<close>

lemma claimMap_lookup:
  assumes "distinct (map Name ps)"
  shows "fmlookup (claimMap ps) q = Some p \<longleftrightarrow> p \<in> set ps \<and> Name p = q"
proof -
  have "fmlookup (fold (\<lambda>p m. fmupd (Name p) p m) ps m) q = Some p \<longleftrightarrow>
      p \<in> set ps \<and> Name p = q \<or> q \<notin> Name ` set ps \<and> fmlookup m q = Some p" for m
    using assms by (induction ps arbitrary: m) (auto simp: image_iff)
  then show ?thesis by (simp add: claimMap_def)
qed

lemma userNodeSelectors_spec:
  "userNodeSelectors xs acc =
    (if \<exists>nsc \<in> set xs. selector_of nsc = None then [ExtenderDefaultNodeSelector]
     else acc @ map (the \<circ> selector_of) xs)"
  by (induction xs acc rule: userNodeSelectors.induct) (auto simp: selector_of_def split: option.splits)

lemma ExtenderDefault_eq: "ExtenderDefaultNodeSelector = DefaultNodeSelector"
  by (simp add: ExtenderDefaultNodeSelector_def DefaultNodeSelector_def)

lemma getCommonNodeNames_eq: "getCommonNodeNames xs ys = filter (\<lambda>n. n \<in> set ys) xs"
proof -
  have "fmlookup (fold (\<lambda>n m. fmupd n () m) ys m) n \<noteq> None \<longleftrightarrow> n \<in> set ys \<or> fmlookup m n \<noteq> None" for n m
    by (induction ys arbitrary: m) auto
  then show ?thesis by (simp add: getCommonNodeNames_def)
qed

lemma splitNodes_spec:
  "fst (splitNodes cs ns r) = fst r @ filter (\<lambda>n. n \<in> set cs) ns"
  "n \<in> fmdom' (snd (splitNodes cs ns r)) \<longleftrightarrow> n \<in> set ns - set cs \<or> n \<in> fmdom' (snd r)"
  by (induction cs ns r rule: splitNodes.induct) auto

context extender_env
begin

lemma provisionerFromSC_ok:
  assumes "provisionerFromSC L cl p d w = (Inr d', w')"
  shows "view w' = view w \<and> d' = (if d = '''' then class_provisioner (view w) p else d)"
proof (cases "StorageClassName p")
  case None
  with assms show ?thesis by (auto simp: provisionerFromSC_def class_provisioner_def)
next
  case (Some n)
  show ?thesis
  proof (cases "d = '''' \<and> n \<noteq> ''''")
    case True
    obtain g w1 where g: "Get (sc_client cl) '''' n w = (g, w1)" by fastforce
    then show ?thesis
      using assms Some True sc.get_view [OF g] sc.get_ok [of "''''" n w] sc_missing [of "''''" n w]
      by (cases g) (auto simp: provisionerFromSC_def class_provisioner_def split: if_splits)
  next
    case False
    with assms Some show ?thesis by (auto simp: provisionerFromSC_def class_provisioner_def)
  qed
qed

lemma provisionerFromPV_ok:
  assumes "provisionerFromPV L cl p d w = (Inr d', w')"
  shows "view w' = view w \<and> d' = (if d = '''' then volume_provisioner (view w) p else d)"
proof (cases "d = '''' \<and> VolumeName p \<noteq> ''''")
  case True
  obtain g w1 where g: "Get (pv_client cl) '''' (VolumeName p) w = (g, w1)" by fastforce
  then show ?thesis
    using assms True pv.get_view [OF g] pv.get_ok [of "''''" "VolumeName p" w] pv_missing [of "''''" "VolumeName p" w]
    by (cases g) (auto simp: provisionerFromPV_def volume_provisioner_def split: if_splits option.splits)
next
  case False
  with assms show ?thesis by (auto simp: provisionerFromPV_def volume_provisioner_def)
qed

lemma getProvisioner_ok:
  assumes "getProvisionerFromPVC L cl p w = (Inr d, w')"
  shows "view w' = view w \<and> d = provisioner_of (view w) p"
proof -
  obtain r w1 where r: "provisionerFromSC L cl p (annotated_provisioner p) w = (r, w1)" by fastforce
  then obtain d1 where d1: "r = Inr d1" and pv: "provisionerFromPV L cl p d1 w1 = (Inr d, w')"
    using assms by (cases r) (auto simp: getProvisionerFromPVC_def annotated_provisioner_def Let_def)
  from provisionerFromSC_ok [OF r [unfolded d1]] provisionerFromPV_ok [OF pv] show ?thesis
    by (auto simp: provisioner_of_def)
qed

lemma processVolumes_ok:
  assumes "processVolumes L cl ns target m vs acc w = (Inr acc', w')"
    and "\<And>q p. fmlookup m q = Some p \<longleftrightarrow> pvcs (view w) (ns, q) = Some p"
    and "target = CSINFSProvisioner" and "fst acc \<longleftrightarrow> snd acc \<noteq> []"
  shows "view w' = view w \<and> snd acc' = snd acc @ filter (nfs_volume (view w) ns) vs \<and> (fst acc' \<longleftrightarrow> snd acc' \<noteq> [])"
  using assms
proof (induction vs arbitrary: acc w)
  case Nil
  then show ?case by simp
next
  case (Cons v vs)
  show ?case
  proof (cases "PersistentVolumeClaim v")
    case None
    then have "\<not> nfs_volume (view w) ns v" by (simp add: nfs_volume_def)
    with Cons None show ?thesis by simp
  next
    case (Some q)
    with Cons.prems(1) obtain p where p: "fmlookup m q = Some p" by (cases "fmlookup m q") auto
    obtain g w1 where g: "getProvisionerFromPVC L cl p w = (g, w1)" by fastforce
    with Cons.prems(1) Some p obtain d where d: "g = Inr d" by (cases g) auto
    from getProvisioner_ok [OF g [unfolded d]] have v1: "view w1 = view w" and d': "d = provisioner_of (view w) p" by auto
    have nfs: "nfs_volume (view w) ns v \<longleftrightarrow> d = target"
      using Some p Cons.prems(2,3) d' by (auto simp: nfs_volume_def)
    have rest: "processVolumes L cl ns target m vs (if d = target then (True, snd acc @ [v]) else acc) w1 = (Inr acc', w')"
      using Cons.prems(1) Some p g d by simp
    show ?thesis
    proof (cases "d = target")
      case True
      from Cons.IH [OF rest] Cons.prems(2,3) v1 True nfs show ?thesis by simp
    next
      case False
      from Cons.IH [OF rest] Cons.prems(2,3,4) v1 False nfs show ?thesis by simp
    qed
  qed
qed

lemma shouldProcessPod_ok:
  assumes ok: "shouldProcessPod L cl pod CSINFSProvisioner w = (Inr (b, vs), w')" and ns: "Namespace pod \<noteq> ''''"
  shows "view w' = view w \<and> vs = filter (nfs_volume (view w) (Namespace pod)) (Volumes pod) \<and> (b \<longleftrightarrow> vs \<noteq> [])"
proof -
  obtain l w1 where l: "List (pvc_client cl) [InNamespace (Namespace pod)] w = (l, w1)" by fastforce
  with ok obtain ps where ps: "l = Inr ps" by (cases l) (auto simp: shouldProcessPod_def)
  obtain r w2 where r: "processVolumes L cl (Namespace pod) CSINFSProvisioner (claimMap ps) (Volumes pod) (False, []) w1 = (r, w2)"
    by fastforce
  with ok l ps obtain acc where acc: "r = Inr acc" by (cases r) (auto simp: shouldProcessPod_def)
  with ok l ps r have res: "(b, vs) = (if fst acc then acc else (False, []))" "w' = w2"
    by (auto simp: shouldProcessPod_def split: prod.splits if_splits)
  have v1: "view w1 = view w" using pvc.list_view [OF l] .
  have mem: "p \<in> set ps \<longleftrightarrow> pvcs (view w) (nkey p) = Some p \<and> Namespace p = Namespace pod" for p
    using pvc.list_mem [OF l [unfolded ps], of p] ns by auto
  have "distinct (map nkey ps)" using pvc.list_ok [OF l [unfolded ps]] by blast
  then have dist: "distinct (map Name ps)"
    using mem by (auto simp: distinct_map inj_on_def nkey_def)
  have "fmlookup (claimMap ps) q = Some p \<longleftrightarrow> pvcs (view w1) (Namespace pod, q) = Some p" for q p
    using mem [of p] pvc.keyed [of w "(Namespace pod, q)" p] v1 by (auto simp: claimMap_lookup [OF dist] nkey_def)
  from processVolumes_ok [OF r [unfolded acc] this] v1 res show ?thesis by (auto split: if_splits)
qed

lemma classes_from_volumes_ok:
  assumes "GetNFSStorageClassesFromVolumes cl ns vs acc w = (Inr xs, w')"
    and "\<And>v. v \<in> set vs \<Longrightarrow> PersistentVolumeClaim v \<noteq> None"
  shows "view w' = view w \<and> (\<forall>v \<in> set vs. class_of (view w) ns v \<noteq> None) \<and>
    xs = acc @ map (the \<circ> class_of (view w) ns) vs"
  using assms
proof (induction vs arbitrary: acc w)
  case (Cons v vs)
  from Cons.prems(2) obtain q where q: "PersistentVolumeClaim v = Some q" by fastforce
  obtain g w1 where g: "Get (pvc_client cl) ns q w = (g, w1)" by fastforce
  with Cons.prems(1) q obtain p where p: "g = Inr p" by (cases g) auto
  with Cons.prems(1) q g obtain n where n: "StorageClassName p = Some n" by (cases "StorageClassName p") auto
  obtain h w2 where h: "Get (nsc_client cl) '''' n w1 = (h, w2)" by fastforce
  with Cons.prems(1) q g p n obtain nsc where nsc: "h = Inr nsc" by (cases h) auto
  have v1: "view w1 = view w" using pvc.get_view [OF g] .
  have v2: "view w2 = view w" using nsc.get_view [OF h] v1 by simp
  have cls: "class_of (view w) ns v = Some nsc"
    using pvc.get_ok [OF g [unfolded p]] nsc.get_ok [OF h [unfolded nsc]] q n v1 by (simp add: class_of_def)
  from Cons.prems(1) q g p n h nsc have "GetNFSStorageClassesFromVolumes cl ns vs (acc @ [nsc]) w2 = (Inr xs, w')" by simp
  from Cons.IH [OF this] Cons.prems(2) v2 cls show ?case by auto
qed simp

lemma node_names_ok:
  assumes "GetKubernetesNodeNamesBySelector cl (MatchLabels s) w = (Inr ns, w')"
  shows "view w' = view w \<and> (\<forall>n. n \<in> set ns \<longleftrightarrow> (\<exists>x. nodes (view w) ('''', n) = Some x \<and> labels_select s x))"
proof -
  obtain l w1 where l: "List (node_client cl) [MatchingLabels (smap_of (MatchLabels s))] w = (l, w1)" by fastforce
  with assms obtain xs where xs: "l = Inr xs" and res: "ns = map Name xs" "w' = w1"
    by (cases l) (auto simp: GetKubernetesNodeNamesBySelector_def GetKubernetesNodesBySelector_def)
  have mem: "x \<in> set xs \<longleftrightarrow> nodes (view w) (ckey x) = Some x \<and> labels_select s x" for x
    using node.list_mem [OF l [unfolded xs], of x] by (simp add: labels_select_def)
  have "n \<in> set ns \<longleftrightarrow> (\<exists>x. nodes (view w) ('''', n) = Some x \<and> labels_select s x)" for n
  proof
    assume "n \<in> set ns"
    then show "\<exists>x. nodes (view w) ('''', n) = Some x \<and> labels_select s x" using mem by (auto simp: res ckey_def)
  next
    assume "\<exists>x. nodes (view w) ('''', n) = Some x \<and> labels_select s x"
    then obtain x where x: "nodes (view w) ('''', n) = Some x" "labels_select s x" by blast
    have "Name x = n" using node.keyed [OF x(1)] by (simp add: ckey_def)
    moreover from this x have "x \<in> set xs" by (simp add: mem ckey_def)
    ultimately show "n \<in> set ns" by (auto simp: res)
  qed
  with node.list_view [OF l] res show ?thesis by simp
qed

lemma commonNodesLoop_ok:
  assumes "commonNodesLoop cl i sels acc w = (Inr ns, w')"
  shows "view w' = view w \<and> (\<forall>n. n \<in> set ns \<longleftrightarrow> (i = 0 \<and> sels \<noteq> [] \<or> n \<in> set acc) \<and>
    (\<forall>s \<in> set sels. \<exists>x. nodes (view w) ('''', n) = Some x \<and> labels_select s x))"
  using assms
proof (induction sels arbitrary: i acc w)
  case (Cons s sels)
  obtain g w1 where g: "GetKubernetesNodeNamesBySelector cl (MatchLabels s) w = (g, w1)" by fastforce
  with Cons.prems obtain ms where ms: "g = Inr ms" by (cases g) auto
  from node_names_ok [OF g [unfolded ms]] have v1: "view w1 = view w"
    and mem: "n \<in> set ms \<longleftrightarrow> (\<exists>x. nodes (view w) ('''', n) = Some x \<and> labels_select s x)" for n by auto
  have rest: "commonNodesLoop cl (Suc i) sels (if i = 0 then ms else getCommonNodeNames acc ms) w1 = (Inr ns, w')"
    using Cons.prems g ms by simp
  from Cons.IH [OF rest] v1 mem show ?case by (auto simp: getCommonNodeNames_eq)
qed simp

lemma common_nodes_ok:
  assumes "GetCommonNodesByNodeSelectorList cl (GetUserNodeSelectors xs) w = (Inr ns, w')" and "xs \<noteq> []"
  shows "view w' = view w \<and> (\<forall>n. n \<in> set ns \<longleftrightarrow> (\<exists>x. nodes (view w) ('''', n) = Some x \<and> admits (set xs) x))"
proof -
  let ?sels = "GetUserNodeSelectors xs"
  have ne: "?sels \<noteq> []" using assms(2) by (auto simp: GetUserNodeSelectors_def userNodeSelectors_spec)
  with assms(1) have "commonNodesLoop cl 0 ?sels [] w = (Inr ns, w')" by (simp add: GetCommonNodesByNodeSelectorList_def)
  note loop = commonNodesLoop_ok [OF this]
  have "(\<forall>s \<in> set ?sels. \<exists>x. nodes (view w) ('''', n) = Some x \<and> labels_select s x) \<longleftrightarrow>
      (\<exists>x. nodes (view w) ('''', n) = Some x \<and> (\<forall>s \<in> set ?sels. labels_select s x))" for n
    using ne by (cases "nodes (view w) ('''', n)") (auto dest: bspec [OF _ last_in_set])
  moreover have "(\<forall>s \<in> set ?sels. labels_select s x) \<longleftrightarrow> admits (set xs) x" for x
    by (auto simp: GetUserNodeSelectors_def userNodeSelectors_spec admits_def ExtenderDefault_eq)
  ultimately show ?thesis using loop ne by simp
qed

lemma filterNodes_ok:
  assumes ok: "filterNodes cl names ns vs w = (Inr res, w')" and "names \<noteq> []" and "vs \<noteq> []"
    and claims: "\<And>v. v \<in> set vs \<Longrightarrow> PersistentVolumeClaim v \<noteq> None"
  shows "view w' = view w \<and> (\<forall>v \<in> set vs. class_of (view w) ns v \<noteq> None) \<and> (\<exists>failed.
    res = \<lparr>Nodes = None,
      NodeNames = Some (filter (\<lambda>n. \<exists>x. nodes (view w) ('''', n) = Some x \<and> admits {nsc. \<exists>v \<in> set vs. class_of (view w) ns v = Some nsc} x) names),
      FailedNodes = Some failed, FilterError = ''''\<rparr> \<and>
    fmdom' failed = {n \<in> set names. \<not> (\<exists>x. nodes (view w) ('''', n) = Some x \<and> admits {nsc. \<exists>v \<in> set vs. class_of (view w) ns v = Some nsc} x)})"
proof -
  obtain g w1 where g: "GetNFSStorageClassesFromVolumes cl ns vs [] w = (g, w1)" by fastforce
  with ok assms(2) obtain xs where xs: "g = Inr xs" by (cases g) (auto simp: filterNodes_def)
  from classes_from_volumes_ok [OF g [unfolded xs] claims] have v1: "view w1 = view w"
    and some: "\<forall>v \<in> set vs. class_of (view w) ns v \<noteq> None" and eq: "xs = map (the \<circ> class_of (view w) ns) vs" by auto
  obtain c w2 where c: "GetCommonNodesByNodeSelectorList cl (GetUserNodeSelectors xs) w1 = (c, w2)" by fastforce
  with ok assms(2) g xs obtain cs where cs: "c = Inr cs" by (cases c) (auto simp: filterNodes_def)
  have set_xs: "set xs = {nsc. \<exists>v \<in> set vs. class_of (view w) ns v = Some nsc}"
    using some by (force simp: eq image_iff)
  have "xs \<noteq> []" using assms(3) by (simp add: eq)
  from common_nodes_ok [OF c [unfolded cs] this] v1 have v2: "view w2 = view w"
    and mem: "n \<in> set cs \<longleftrightarrow> (\<exists>x. nodes (view w) ('''', n) = Some x \<and> admits (set xs) x)" for n by auto
  obtain ys failed where sp: "splitNodes cs names ([], fmempty) = (ys, failed)" by fastforce
  with splitNodes_spec(1) [of cs names "([], fmempty)"] splitNodes_spec(2) [of _ cs names "([], fmempty)"]
  have "ys = filter (\<lambda>n. n \<in> set cs) names" "fmdom' failed = set names - set cs" by (auto simp: set_eq_iff)
  moreover have "res = \<lparr>Nodes = None, NodeNames = Some ys, FailedNodes = Some failed, FilterError = ''''\<rparr>" "w' = w2"
    using ok assms(2) g xs c cs sp by (auto simp: filterNodes_def)
  ultimately show ?thesis using v2 some mem unfolding set_xs by auto
qed

lemma Filter_ok:
  assumes ok: "Filter L cl io new_response r w = (rw, w')" and "StatusCode rw = Some 200" and io: "io = None"
    and args: "Decoded r = Inr args" "ArgPod args = Some pod" "getNodeNames args = Inr names"
    and ns: "Namespace pod \<noteq> ''''"
  shows "view w' = view w \<and> (\<exists>res. Written rw = [FilterJSON res] \<and>
    NodeNames res = Some (filter (suitable (view w) pod) names) \<and>
    fmdom' (smap_of (FailedNodes res)) = {n \<in> set names. \<not> suitable (view w) pod n}) \<and>
    (\<forall>v \<in> set (Volumes pod). nfs_volume (view w) (Namespace pod) v \<longrightarrow> class_of (view w) (Namespace pod) v \<noteq> None)"
proof -
  let ?nfs = "filter (nfs_volume (view w) (Namespace pod)) (Volumes pod)"
  have err: "StatusCode (http_Error new_response m 400) = Some 400" "StatusCode (http_Error new_response m 500) = Some 500" for m
    by (simp_all add: http_Error_def send_def WriteHeader_def setContentType_def new_response_def)
  have good: "Written (respond None p new_response) = [p]" for p
    by (simp add: respond_def Encode_def send_def WriteHeader_def setContentType_def new_response_def)
  obtain s w1 where s: "shouldProcessPod L cl pod CSINFSProvisioner w = (s, w1)" by fastforce
  with ok args assms(2) obtain b vs where b: "s = Inr (b, vs)"
    by (cases s) (auto simp: Filter_def err)
  from shouldProcessPod_ok [OF s [unfolded b] ns] have v1: "view w1 = view w" and vs: "vs = ?nfs" and nonempty: "b \<longleftrightarrow> vs \<noteq> []"
    by auto
  show ?thesis
  proof (cases b)
    case False
    with nonempty vs have all: "suitable (view w) pod n" for n by (auto simp: suitable_def filter_empty_conv)
    from ok args s b False io have "rw = respond None (FilterJSON \<lparr>Nodes = None, NodeNames = Some names, FailedNodes = None, FilterError = ''''\<rparr>) new_response"
      "w' = w1" by (auto simp: Filter_def)
    with all v1 good False nonempty vs show ?thesis by (auto simp: filter_empty_conv)
  next
    case True
    obtain f w2 where f: "filterNodes cl names (Namespace pod) vs w1 = (f, w2)" by fastforce
    with ok args s b True assms(2) obtain res where res: "f = Inr res" by (cases f) (auto simp: Filter_def err)
    have names: "names \<noteq> []" using args(3) by (auto simp: getNodeNames_def split: option.splits list.splits)
    have claims: "v \<in> set vs \<Longrightarrow> PersistentVolumeClaim v \<noteq> None" for v by (auto simp: vs nfs_volume_def)
    have used: "{nsc. \<exists>v \<in> set vs. class_of (view w) (Namespace pod) v = Some nsc} = classes_used (view w) pod"
      by (auto simp: classes_used_def vs)
    have suit: "suitable (view w) pod = (\<lambda>n. \<exists>x. nodes (view w) ('''', n) = Some x \<and> admits (classes_used (view w) pod) x)"
      using True nonempty vs by (auto simp: suitable_def filter_empty_conv fun_eq_iff)
    from filterNodes_ok [OF f [unfolded res] names _ claims] True nonempty v1 used
    obtain failed where "view w2 = view w" "\<forall>v \<in> set vs. class_of (view w) (Namespace pod) v \<noteq> None"
      "res = \<lparr>Nodes = None, NodeNames = Some (filter (suitable (view w) pod) names), FailedNodes = Some failed, FilterError = ''''\<rparr>"
      "fmdom' failed = {n \<in> set names. \<not> suitable (view w) pod n}"
      by (auto simp: suit)
    moreover have "rw = respond None (FilterJSON res) new_response" "w' = w2"
      using ok args s b True io f res by (auto simp: Filter_def)
    ultimately show ?thesis using good vs by simp
  qed
qed

end

section \<open>Sample requests\<close>

definition zone_selector :: "LabelSelectorRequirement list option \<Rightarrow> LabelSelector" where
  "zone_selector exprs = \<lparr>MatchLabels = Some (fmap_of_list [(''zone'', ''a'')]), MatchExpressions = exprs\<rparr>"

definition zone_nsc :: "LabelSelectorRequirement list option \<Rightarrow> NFSStorageClass" where
  "zone_nsc exprs = sample_nsc\<lparr>Spec := sample_spec\<lparr>WorkloadNodes := Some \<lparr>NodeSelector = Some (zone_selector exprs)\<rparr>\<rparr>\<rparr>"

definition zone_world :: "LabelSelectorRequirement list option \<Rightarrow> mem" where
  "zone_world exprs = mem_empty\<lparr>m_nscs := [zone_nsc exprs], m_pvcs := [sample_claim ''app'' ''vol'' ''Bound''],
     m_nodes := [sample_node ''n1'' [(''zone'', ''a'')], sample_node ''n2'' [(''zone'', ''b'')]]\<rparr>"

definition zone_request :: Request where
  "zone_request = \<lparr>Path = ''/scheduler/filter'', Decoded = Inr \<lparr>ArgPod = Some (sample_pod ''app'' ''web'' '''' [] (Some ''vol'')),
     ArgNodes = None, ArgNodeNames = Some [''n1'', ''n2'']\<rparr>\<rparr>"

definition not_zone_a :: LabelSelectorRequirement where
  "not_zone_a = \<lparr>Key = ''zone'', Operator = ''NotIn'', Values = [''a'']\<rparr>"

lemma zone_request_args:
  "Decoded zone_request = Inr \<lparr>ArgPod = Some (sample_pod ''app'' ''web'' '''' [] (Some ''vol'')),
     ArgNodes = None, ArgNodeNames = Some [''n1'', ''n2'']\<rparr>"
  "getNodeNames \<lparr>ArgPod = Some (sample_pod ''app'' ''web'' '''' [] (Some ''vol'')),
     ArgNodes = None, ArgNodeNames = Some [''n1'', ''n2'']\<rparr> = Inr [''n1'', ''n2'']"
  by (simp_all add: zone_request_def getNodeNames_def)

lemma zone_answer:
  "fst (Filter std_lib mem_client None new_response zone_request (zone_world None)) =
    \<lparr>ContentType = ''application/json'', StatusCode = Some 200, Written = [FilterJSON \<lparr>Nodes = None, NodeNames = Some [''n1''],
       FailedNodes = Some (fmap_of_list [(''n2'', ''node is not selected by user selectors'')]), FilterError = ''''\<rparr>]\<rparr>"
  by code_simp

section \<open>Properties\<close>

text \<open>C11: The extender's answer. When the filter verb answers 200 to a decodable request with a pod and candidate
  nodes, the nodes it lets through are, in the order of the request, exactly the suitable ones: all of them if
  no volume of the pod is provisioned by this driver, else those whose labels satisfy the \<open>matchLabels\<close> of every
  NFSStorageClass involved (the default selector as soon as one of these has none); the failed nodes are exactly the others,
  every such volume has an NFSStorageClass, and the cluster is only read.\<close>

theorem extender_filters:
  assumes "extender_env cl view L"
    and "Filter L cl None new_response r w = (rw, w')" and "StatusCode rw = Some 200"
    and "Decoded r = Inr args" and "ArgPod args = Some pod" and "getNodeNames args = Inr names"
    and "Namespace pod \<noteq> ''''"
  shows "view w' = view w \<and> (\<exists>res. Written rw = [FilterJSON res] \<and>
    NodeNames res = Some (filter (suitable (view w) pod) names) \<and>
    fmdom' (smap_of (FailedNodes res)) = {n \<in> set names. \<not> suitable (view w) pod n}) \<and>
    (\<forall>v \<in> set (Volumes pod). nfs_volume (view w) (Namespace pod) v \<longrightarrow> class_of (view w) (Namespace pod) v \<noteq> None)"
  by (rule extender_env.Filter_ok [OF assms(1,2,3) refl assms(4,5,6,7)])

theorem extender_filters_witness:
  "\<not> suitable (mem_view (zone_world None)) (sample_pod ''app'' ''web'' '''' [] (Some ''vol'')) ''n2''"
proof -
  obtain rw w' where f: "Filter std_lib mem_client None new_response zone_request (zone_world None) = (rw, w')" by fastforce
  with zone_answer have rw: "StatusCode rw = Some 200" "Written rw = [FilterJSON \<lparr>Nodes = None, NodeNames = Some [''n1''],
       FailedNodes = Some (fmap_of_list [(''n2'', ''node is not selected by user selectors'')]), FilterError = ''''\<rparr>]"
    by auto
  from extender_filters [OF memory_extender.extender_env_axioms f rw(1) zone_request_args(1) _ zone_request_args(2)] rw(2)
  have "filter (suitable (mem_view (zone_world None)) (sample_pod ''app'' ''web'' '''' [] (Some ''vol''))) [''n1'', ''n2''] = [''n1'']"
    by (simp add: sample_pod_def)
  then show ?thesis by (auto split: if_splits)
qed


end
