(* ===== verification/Extender_Server.thy ===== *)
theory Extender_Server
  imports Kube_Types
begin

text \<open>
  \<open>runServer\<close> of the scheduler extender's \<open>cmd/main.go\<close>: three goroutines that share a context and a server. The goroutines
  are a step relation; a state says where each of them is. \<open>ListenAndServeTLS\<close> returns \<open>ErrServerClosed\<close> only after \<open>Shutdown\<close>
  was called, and any other error at any time; \<open>Shutdown\<close> closes the listeners before it returns, and it returns at once, because its context is already
  done; \<open>mgr.Start\<close> may return at any time.
\<close>

section \<open>The goroutines\<close>

datatype serve_pc =
    Listening
  | Deferred "go_error option"
  | Waiting_group "go_error option"
  | Returned "go_error option"

record server_state =
  Serve_pc :: serve_pc
  Ctx_done :: bool
  In_shutdown :: bool
  Shutdown_done :: bool
  Mgr_running :: bool

definition runServer_start :: server_state where
  "runServer_start = \<lparr>Serve_pc = Listening, Ctx_done = False, In_shutdown = False, Shutdown_done = False, Mgr_running = True\<rparr>"

text \<open>What the world does to it: a signal cancels the context; the manager ends, and an error of it calls \<open>stop\<close>; the server fails.\<close>

inductive runServer_event :: "server_state \<Rightarrow> server_state \<Rightarrow> bool" where
  signal: "\<not> Ctx_done s \<Longrightarrow> runServer_event s (s\<lparr>Ctx_done := True\<rparr>)"
| mgr_ends: "Mgr_running s \<Longrightarrow> runServer_event s (s\<lparr>Mgr_running := False\<rparr>)"
| mgr_fails: "Mgr_running s \<Longrightarrow> runServer_event s (s\<lparr>Mgr_running := False, Ctx_done := True\<rparr>)"
| serve_fails: "Serve_pc s = Listening \<Longrightarrow> runServer_event s (s\<lparr>Serve_pc := Deferred (Some e)\<rparr>)"

text \<open>What its goroutines then do: the shutdown goroutine wakes up when the context is done, calls \<open>Shutdown\<close> and leaves the wait
  group; a server that was shut down ends with \<open>ErrServerClosed\<close>, which is no error of \<open>runServer\<close>; the deferred \<open>stop\<close> and
  \<open>wg.Wait\<close> run in this order.\<close>

inductive runServer_move :: "server_state \<Rightarrow> server_state \<Rightarrow> bool" where
  shutdown: "Ctx_done s \<Longrightarrow> \<not> Shutdown_done s \<Longrightarrow> runServer_move s (s\<lparr>In_shutdown := True, Shutdown_done := True\<rparr>)"
| serve_closed: "Serve_pc s = Listening \<Longrightarrow> In_shutdown s \<Longrightarrow> runServer_move s (s\<lparr>Serve_pc := Deferred None\<rparr>)"
| deferred_stop: "Serve_pc s = Deferred r \<Longrightarrow> runServer_move s (s\<lparr>Serve_pc := Waiting_group r, Ctx_done := True\<rparr>)"
| group_done: "Serve_pc s = Waiting_group r \<Longrightarrow> Shutdown_done s \<Longrightarrow> runServer_move s (s\<lparr>Serve_pc := Returned r\<rparr>)"

definition runServer_step :: "server_state \<Rightarrow> server_state \<Rightarrow> bool" where
  "runServer_step s s' \<longleftrightarrow> runServer_event s s' \<or> runServer_move s s'"

abbreviation runServer_run :: "server_state \<Rightarrow> server_state \<Rightarrow> bool" where
  "runServer_run \<equiv> runServer_step\<^sup>*\<^sup>*"

section \<open>Invariant\<close>

definition server_inv :: "server_state \<Rightarrow> bool" where
  "server_inv s \<longleftrightarrow> (In_shutdown s \<longleftrightarrow> Shutdown_done s) \<and> (In_shutdown s \<longrightarrow> Ctx_done s) \<and>
     (case Serve_pc s of
        Listening \<Rightarrow> True
      | Deferred r \<Rightarrow> r = None \<longrightarrow> In_shutdown s
      | Waiting_group r \<Rightarrow> Ctx_done s \<and> (r = None \<longrightarrow> In_shutdown s)
      | Returned r \<Rightarrow> Shutdown_done s)"

lemma server_inv_start: "server_inv runServer_start"
  by (simp add: server_inv_def runServer_start_def)

lemma server_inv_step:
  assumes "runServer_step s s'" and "server_inv s"
  shows "server_inv s'"
  using assms unfolding runServer_step_def
  by (elim disjE runServer_event.cases runServer_move.cases) (auto simp: server_inv_def split: serve_pc.splits)

lemma server_inv_run: "runServer_run s s' \<Longrightarrow> server_inv s \<Longrightarrow> server_inv s'"
  by (induction rule: rtranclp_induct) (auto intro: server_inv_step)

section \<open>Termination\<close>

text \<open>Every step brings \<open>work\<close> down, so there is no infinite run.\<close>

fun pc_work :: "serve_pc \<Rightarrow> nat" where
  "pc_work Listening = 3" | "pc_work (Deferred r) = 2" | "pc_work (Waiting_group r) = 1" | "pc_work (Returned r) = 0"

definition work :: "server_state \<Rightarrow> nat" where
  "work s = pc_work (Serve_pc s) + of_bool (\<not> Ctx_done s) + of_bool (\<not> Shutdown_done s) + of_bool (Mgr_running s)"

lemma step_work: "runServer_step s s' \<Longrightarrow> work s' < work s"
  unfolding runServer_step_def
  by (elim disjE runServer_event.cases runServer_move.cases) (auto simp: work_def)

lemma step_wf: "wfP (\<lambda>s' s. runServer_step s s')"
  by (rule wfp_if_convertible_to_nat [where f = work]) (rule step_work)

lemma stop_holds:
  assumes "runServer_run s s'" and "Ctx_done s \<or> Serve_pc s \<noteq> Listening"
  shows "Ctx_done s' \<or> Serve_pc s' \<noteq> Listening"
  using assms
proof (induction rule: rtranclp_induct)
  case (step t u)
  then show ?case unfolding runServer_step_def
    by (elim disjE runServer_event.cases runServer_move.cases) auto
qed simp

text \<open>A goroutine can go on until \<open>runServer\<close> has returned.\<close>

lemma stuck_returned:
  assumes "server_inv s" and "Ctx_done s \<or> Serve_pc s \<noteq> Listening" and "\<And>s'. \<not> runServer_move s s'"
  shows "\<exists>r. Serve_pc s = Returned r"
proof (cases "Serve_pc s")
  case Listening
  with assms(2) have "Ctx_done s" by simp
  with shutdown assms(3) have "Shutdown_done s" by blast
  with assms(1) serve_closed [OF Listening] assms(3) show ?thesis by (auto simp: server_inv_def)
next
  case (Deferred r)
  with deferred_stop assms(3) show ?thesis by blast
next
  case (Waiting_group r)
  with assms(1) have "Ctx_done s" by (simp add: server_inv_def)
  with shutdown assms(3) have "Shutdown_done s" by blast
  with group_done [OF Waiting_group] assms(3) show ?thesis by blast
next
  case (Returned r)
  then show ?thesis by blast
qed

section \<open>Properties\<close>

text \<open>C33: The extender's server stops when it is told to. No run of \<open>runServer\<close> is infinite, and once the context is cancelled, by a
  signal or because the manager failed, or the server itself has failed, every run in which no goroutine can go on has returned, with the server shut
  down and the shutdown goroutine ended.\<close>

theorem run_server_returns:
  assumes "runServer_run runServer_start s" and "Ctx_done s \<or> Serve_pc s \<noteq> Listening"
    and "runServer_run s s'" and "\<And>t. \<not> runServer_move s' t"
  shows "(\<exists>r. Serve_pc s' = Returned r) \<and> In_shutdown s' \<and> Shutdown_done s' \<and> wfP (\<lambda>t s. runServer_step s t)"
proof -
  have inv: "server_inv s'" using server_inv_run [OF rtranclp_trans [OF assms(1,3)] server_inv_start] .
  from stuck_returned [OF inv stop_holds [OF assms(3,2)] assms(4)] obtain r where "Serve_pc s' = Returned r" by blast
  with inv step_wf show ?thesis by (auto simp: server_inv_def)
qed

theorem run_server_returns_witness:
  "\<exists>s'. runServer_run runServer_start s' \<and> Serve_pc s' = Returned (Some (ErrorString ''no certificate'')) \<and> Shutdown_done s'"
proof -
  let ?e = "Some (ErrorString ''no certificate'')"
  define s1 where "s1 = runServer_start\<lparr>Serve_pc := Deferred ?e\<rparr>"
  define s2 where "s2 = s1\<lparr>Serve_pc := Waiting_group ?e, Ctx_done := True\<rparr>"
  define s3 where "s3 = s2\<lparr>In_shutdown := True, Shutdown_done := True\<rparr>"
  define s4 where "s4 = s3\<lparr>Serve_pc := Returned ?e\<rparr>"
  note defs = s1_def s2_def s3_def s4_def runServer_start_def
  have 1: "runServer_run runServer_start s1"
    unfolding s1_def runServer_step_def by (intro r_into_rtranclp disjI1 serve_fails) (simp add: runServer_start_def)
  have "runServer_move s1 s2" "runServer_move s2 s3" "runServer_move s3 s4"
    unfolding s2_def s3_def s4_def by (rule deferred_stop shutdown group_done; simp add: defs)+
  then have 2: "runServer_run s1 s4" by (meson runServer_step_def converse_rtranclp_into_rtranclp rtranclp.rtrancl_refl)
  have "\<not> runServer_move s4 t" for t by (auto simp: defs elim: runServer_move.cases)
  from run_server_returns [OF 1 _ 2 this] rtranclp_trans [OF 1 2] show ?thesis by (auto simp: defs)
qed

end
