(* ===== verification/Extender_Main.thy ===== *)
theory Extender_Main
  imports Extender_Server Logging
begin

text \<open>
  The process of the scheduler extender up to \<open>runServer\<close>: \<open>init\<close>, \<open>main\<close> and \<open>subMain\<close> of its \<open>cmd/main.go\<close>. The configuration file is read
  and decoded by functions of the environment; what the calls of controller-runtime return is part of it. \<open>runServer\<close> is the step relation
  of theory Extender_Server: how it ends is what one of its runs returned. Log output is left out.
\<close>

section \<open>Configuration\<close>

definition defaultListenAddr :: string where "defaultListenAddr = '':8000''"
definition defaultHealthProbeBindAddress :: string where "defaultHealthProbeBindAddress = '':8081''"
definition defaultcertFile :: string where "defaultcertFile = ''/etc/csi-nfs-scheduler-extender/certs/tls.crt''"
definition defaultkeyFile :: string where "defaultkeyFile = ''/etc/csi-nfs-scheduler-extender/certs/tls.key''"

text \<open>The numbers of the configuration are not read by the program; \<open>DefaultDivisor\<close> is kept as text.\<close>

record ExtenderConfig =
  ListenAddr :: string
  DefaultDivisor :: string
  ExtenderLogLevel :: string
  CacheSize :: int
  ExtenderProbeAddress :: string
  TLSCertFile :: string
  TLSKeyFile :: string
  PVCExpiredDurationSec :: int

definition defaultConfig :: ExtenderConfig where
  "defaultConfig = \<lparr>ListenAddr = defaultListenAddr, DefaultDivisor = ''0'', ExtenderLogLevel = ''2'', CacheSize = 0,
     ExtenderProbeAddress = defaultHealthProbeBindAddress, TLSCertFile = defaultcertFile, TLSKeyFile = defaultkeyFile,
     PVCExpiredDurationSec = 0\<rparr>"

section \<open>subMain\<close>

record 'c extender_process =
  ConfigFile :: "string \<Rightarrow> go_error + string"
  YamlUnmarshal :: "string \<Rightarrow> ExtenderConfig \<Rightarrow> go_error + ExtenderConfig"
  RestInCluster :: "go_error + 'c"
  RestDefaultRules :: "go_error + 'c"
  ExtenderSchemeFuncs :: "go_error option list"
  ExtenderManagerNew :: "'c \<Rightarrow> string \<Rightarrow> go_error option"
  ExtenderHealthz :: "go_error option"
  ExtenderReadyz :: "go_error option"

text \<open>The configuration that is used: the defaults, overwritten by the file if one is named.\<close>

definition loadConfig :: "'c extender_process \<Rightarrow> string \<Rightarrow> go_error + ExtenderConfig" where
  "loadConfig env cfgFilePath =
    (if length cfgFilePath \<noteq> 0 then
       (case ConfigFile env cfgFilePath of
          Inl err \<Rightarrow> Inl err
        | Inr b \<Rightarrow> YamlUnmarshal env b defaultConfig)
     else Inr defaultConfig)"

fun addSchemes :: "go_error option list \<Rightarrow> go_error option" where
  "addSchemes [] = None"
| "addSchemes (r # rs) = (case r of Some err \<Rightarrow> Some err | None \<Rightarrow> addSchemes rs)"

text \<open>\<open>subMain\<close> before \<open>runServer\<close>: an error, or the configuration the server runs with. \<open>NewHandler\<close> never fails.\<close>

definition subMain :: "'c extender_process \<Rightarrow> string \<Rightarrow> go_error + ExtenderConfig" where
  "subMain env cfgFilePath =
    (case loadConfig env cfgFilePath of
       Inl err \<Rightarrow> Inl err
     | Inr config \<Rightarrow>
        (case NewExtenderLogger (ExtenderLogLevel config) of
           Inl err \<Rightarrow> Inl err
         | Inr log \<Rightarrow>
            (case ExtenderConfigCreate (RestInCluster env) (RestDefaultRules env) of
               Inl err \<Rightarrow> Inl err
             | Inr kConfig \<Rightarrow>
                (case addSchemes (ExtenderSchemeFuncs env) of
                   Some err \<Rightarrow> Inl err
                 | None \<Rightarrow>
                    (case ExtenderManagerNew env kConfig (ExtenderProbeAddress config) of
                       Some err \<Rightarrow> Inl err
                     | None \<Rightarrow>
                        (case ExtenderHealthz env of
                           Some err \<Rightarrow> Inl err
                         | None \<Rightarrow>
                            (case ExtenderReadyz env of
                               Some err \<Rightarrow> Inl err
                             | None \<Rightarrow> Inr config)))))))"

text \<open>\<open>main\<close>: the exit code, once \<open>runServer\<close> has returned.\<close>

definition extenderMain :: "'c extender_process \<Rightarrow> string \<Rightarrow> server_state \<Rightarrow> int option" where
  "extenderMain env cfgFilePath s =
    (case subMain env cfgFilePath of
       Inl err \<Rightarrow> Some 1
     | Inr config \<Rightarrow> (case Serve_pc s of Returned r \<Rightarrow> Some (if r = None then 0 else 1) | _ \<Rightarrow> None))"

section \<open>Facts\<close>

lemma addSchemes_None: "addSchemes rs = None \<longleftrightarrow> set rs \<subseteq> {None}"
  by (induction rs) (auto split: option.splits)

text \<open>What has to hold for the server to run.\<close>

definition extender_ready :: "'c extender_process \<Rightarrow> ExtenderConfig \<Rightarrow> bool" where
  "extender_ready env config \<longleftrightarrow> (\<exists>v. Atoi (ExtenderLogLevel config) = Inr v) \<and>
     (\<exists>c. ExtenderConfigCreate (RestInCluster env) (RestDefaultRules env) = Inr c \<and>
       ExtenderManagerNew env c (ExtenderProbeAddress config) = None) \<and>
     set (ExtenderSchemeFuncs env) \<subseteq> {None} \<and> ExtenderHealthz env = None \<and> ExtenderReadyz env = None"

lemma subMain_Inr: "subMain env path = Inr config \<longleftrightarrow> loadConfig env path = Inr config \<and> extender_ready env config"
  by (auto simp: subMain_def extender_ready_def NewExtenderLogger_def addSchemes_None [symmetric] split: sum.split option.split)

lemma loadConfig_Inr:
  "loadConfig env path = Inr config \<longleftrightarrow> (if path = '''' then config = defaultConfig
     else \<exists>b. ConfigFile env path = Inr b \<and> YamlUnmarshal env b defaultConfig = Inr config)"
  by (auto simp: loadConfig_def split: sum.splits)

section \<open>Properties\<close>


definition sample_process :: "string extender_process" where
  "sample_process = \<lparr>ConfigFile = (\<lambda>p. Inr ''log-level: 5''), YamlUnmarshal = (\<lambda>b c. Inr (c\<lparr>ExtenderLogLevel := ''5''\<rparr>)),
     RestInCluster = Inr ''token'', RestDefaultRules = Inl (ErrorString ''no kubeconfig''), ExtenderSchemeFuncs = [None, None, None],
     ExtenderManagerNew = (\<lambda>c a. None), ExtenderHealthz = None, ExtenderReadyz = None\<rparr>"


end
