(* ===== verification/Webhooks.thy ===== *)
theory Webhooks
  imports Event_Properties
begin

text \<open>
  The validating webhooks, \<open>images/webhooks/handlers\<close>: \<open>SCValidate\<close> guards the StorageClasses of this driver,
  \<open>NSCValidate\<close> and \<open>MCValidate\<close> check NFSStorageClasses against the ModuleConfig and the other way round.

  The kubewebhook library decodes the admission review: its result is an argument. The object is a value of
  \<open>kobject\<close>, so that the type switch of the handlers is a case distinction, and the raw objects of an update are
  the outcome of \<open>json.Unmarshal\<close> on them. \<open>kubeclient.New\<close> is the argument \<open>newClient\<close>. A handler that
  calls \<open>klog.Fatal\<close> ends the process (\<open>Exits\<close>); a nil dereference is \<open>Panics\<close>.
\<close>

section \<open>Requests and answers\<close>

datatype kobject = StorageClassObj StorageClass | NFSStorageClassObj NFSStorageClass | ModuleConfigObj ModuleConfig | OtherObj

record AdmissionReview =
  Operation :: string
  Username :: string
  OldObjectRaw :: "go_error + StorageClass"
  NewObjectRaw :: "go_error + StorageClass"

record ValidatorResult =
  Valid :: bool
  Message :: string

datatype webhook_outcome = Answers "go_error + ValidatorResult" | Exits go_error | Panics

definition OperationUpdate :: string where "OperationUpdate = ''update''"
definition OperationDelete :: string where "OperationDelete = ''delete''"
definition allowedUserName :: string where "allowedUserName = ''system:serviceaccount:d8-csi-nfs:controller''"
definition webhookProvisioner :: string where "webhookProvisioner = ''nfs.csi.k8s.io''"
definition csiNfsModuleName :: string where "csiNfsModuleName = ''csi-nfs''"

definition allow :: webhook_outcome where
  "allow = Answers (Inr \<lparr>Valid = True, Message = ''''\<rparr>)"

definition deny :: "string \<Rightarrow> webhook_outcome" where
  "deny msg = Answers (Inr \<lparr>Valid = False, Message = msg\<rparr>)"

text \<open>\<open>&ValidatorResult{}\<close>: the answer for an object of another type.\<close>

definition zeroResult :: webhook_outcome where
  "zeroResult = Answers (Inr \<lparr>Valid = False, Message = ''''\<rparr>)"

section \<open>SCValidate\<close>

text \<open>\<open>*p != *q\<close> panics if a pointer is nil.\<close>

definition deref_differ :: "'a option \<Rightarrow> 'a option \<Rightarrow> bool option" where
  "deref_differ p q = do { x \<leftarrow> p; y \<leftarrow> q; Some (x \<noteq> y) }"

text \<open>\<open>ObjectMeta\<close> with \<open>Annotations\<close> and \<open>ManagedFields\<close> set to nil.\<close>

definition bareMeta :: "StorageClass \<Rightarrow> ObjectMeta" where
  "bareMeta sc = ObjectMeta.truncate (sc\<lparr>Annotations := None, ManagedFields := None\<rparr>)"

definition scChanged :: "StorageClass \<Rightarrow> StorageClass \<Rightarrow> bool option" where
  "scChanged oldSC newSC =
    (if Provisioner oldSC \<noteq> Provisioner newSC then Some True
     else do {
       binding \<leftarrow> deref_differ (VolumeBindingMode oldSC) (VolumeBindingMode newSC);
       if binding then Some True
       else do {
         reclaim \<leftarrow> deref_differ (ReclaimPolicy oldSC) (ReclaimPolicy newSC);
         if reclaim then Some True
         else if Parameters oldSC \<noteq> Parameters newSC then Some True
         else do {
           expansion \<leftarrow> deref_differ (AllowVolumeExpansion oldSC) (AllowVolumeExpansion newSC);
           Some (expansion \<or> MountOptions oldSC \<noteq> MountOptions newSC \<or>
                 AllowedTopologies oldSC \<noteq> AllowedTopologies newSC \<or> bareMeta oldSC \<noteq> bareMeta newSC)
         }
       }
     })"

definition isStorageClassChangedExceptAnnotations ::
  "go_error + StorageClass \<Rightarrow> go_error + StorageClass \<Rightarrow> (go_error + bool) option" where
  "isStorageClassChangedExceptAnnotations oldObjectRaw newObjectRaw =
    (case oldObjectRaw of
       Inl e \<Rightarrow> Some (Inl (ErrorString (''failed to unmarshal old object: '' @ Error_msg e)))
     | Inr oldSC \<Rightarrow>
         (case newObjectRaw of
            Inl e \<Rightarrow> Some (Inl (ErrorString (''failed to unmarshal new object: '' @ Error_msg e)))
          | Inr newSC \<Rightarrow> map_option Inr (scChanged oldSC newSC)))"

definition SCValidate :: "AdmissionReview \<Rightarrow> kobject \<Rightarrow> webhook_outcome" where
  "SCValidate arReview obj =
    (case obj of
       StorageClassObj sc \<Rightarrow>
         (if Provisioner sc = webhookProvisioner then
            (if Username arReview = allowedUserName then allow
             else
               (let refusal = deny (''Direct modifications to the StorageClass (other than annotations) with the provisioner '' @
                      webhookProvisioner @ '' are not allowed. Please use NFSStorageClass for such operations.'')
                in if Operation arReview = OperationUpdate then
                     (case isStorageClassChangedExceptAnnotations (OldObjectRaw arReview) (NewObjectRaw arReview) of
                        None \<Rightarrow> Panics
                      | Some (Inl err) \<Rightarrow> Answers (Inl err)
                      | Some (Inr changed) \<Rightarrow> if \<not> changed then allow else refusal)
                   else refusal))
          else allow)
     | _ \<Rightarrow> zeroResult)"

section \<open>NSCValidate and MCValidate\<close>

definition NSCValidate ::
  "edition \<Rightarrow> go_error + 'w client \<Rightarrow> AdmissionReview \<Rightarrow> kobject \<Rightarrow> 'w \<Rightarrow> webhook_outcome \<times> 'w" where
  "NSCValidate ed newClient arReview obj w =
    (case obj of
       NFSStorageClassObj nsc \<Rightarrow>
         (if DeletionTimestamp nsc \<noteq> None \<or> Operation arReview = OperationDelete then (allow, w)
          else (case newClient of
                  Inl err \<Rightarrow> (Exits err, w)
                | Inr cl \<Rightarrow>
                    (case Get (mc_client cl) '''' csiNfsModuleName w of
                       (Inl err, w) \<Rightarrow> (Exits err, w)
                     | (Inr nfsModuleConfig, w) \<Rightarrow>
                         (case ValidateNFSStorageClass ed nfsModuleConfig nsc of
                            None \<Rightarrow> (Panics, w)
                          | Some (Some err) \<Rightarrow> (deny (Error_msg err), w)
                          | Some None \<Rightarrow> (allow, w)))))
     | _ \<Rightarrow> (zeroResult, w))"

fun webhookValidateModuleConfig :: "edition \<Rightarrow> ModuleConfig \<Rightarrow> NFSStorageClass list \<Rightarrow> go_error option option" where
  "webhookValidateModuleConfig ed mc [] = Some None"
| "webhookValidateModuleConfig ed mc (nsc # rest) = do {
     verdict \<leftarrow> ValidateNFSStorageClass ed mc nsc;
     (case verdict of Some err \<Rightarrow> Some (Some err) | None \<Rightarrow> webhookValidateModuleConfig ed mc rest)
   }"

definition MCValidate ::
  "edition \<Rightarrow> go_error + 'w client \<Rightarrow> AdmissionReview \<Rightarrow> kobject \<Rightarrow> 'w \<Rightarrow> webhook_outcome \<times> 'w" where
  "MCValidate ed newClient arReview obj w =
    (case obj of
       ModuleConfigObj nfsModuleConfig \<Rightarrow>
         (if DeletionTimestamp nfsModuleConfig \<noteq> None \<or> Operation arReview = OperationDelete then (allow, w)
          else (case newClient of
                  Inl err \<Rightarrow> (Exits err, w)
                | Inr cl \<Rightarrow>
                    (case List (nsc_client cl) [] w of
                       (Inl err, w) \<Rightarrow> (Exits err, w)
                     | (Inr nscList, w) \<Rightarrow>
                         (case webhookValidateModuleConfig ed nfsModuleConfig nscList of
                            None \<Rightarrow> (Panics, w)
                          | Some (Some err) \<Rightarrow> (deny (Error_msg err), w)
                          | Some None \<Rightarrow> (allow, w)))))
     | _ \<Rightarrow> (zeroResult, w))"

section \<open>Facts\<close>

definition admits_request :: "webhook_outcome \<Rightarrow> bool" where
  "admits_request out \<longleftrightarrow> (\<exists>r. out = Answers (Inr r) \<and> Valid r)"

lemma admits_simps [simp]: "admits_request allow" "\<not> admits_request (deny m)" "\<not> admits_request zeroResult"
  "\<not> admits_request (Exits e)" "\<not> admits_request Panics" "\<not> admits_request (Answers (Inl e))"
  by (auto simp: admits_request_def allow_def deny_def zeroResult_def)

lemma deref_differ_False: "deref_differ p q = Some False \<longleftrightarrow> p = q \<and> p \<noteq> None"
  by (cases p; cases q) (auto simp: deref_differ_def)

lemma bareMeta_eq:
  "bareMeta x = bareMeta y \<longleftrightarrow> Name x = Name y \<and> Namespace x = Namespace y \<and> Labels x = Labels y \<and>
     Finalizers x = Finalizers y \<and> ResourceVersion x = ResourceVersion y \<and>
     DeletionTimestamp x = DeletionTimestamp y \<and> OtherMeta x = OtherMeta y"
  by (auto simp: bareMeta_def ObjectMeta.truncate_def)

text \<open>\<open>only_annotations x y\<close>: \<open>y\<close> is \<open>x\<close> with other annotations (and managed fields; \<open>kind\<close> and \<open>apiVersion\<close> are not compared).\<close>

definition only_annotations :: "StorageClass \<Rightarrow> StorageClass \<Rightarrow> bool" where
  "only_annotations x y \<longleftrightarrow>
     y = x\<lparr>Annotations := Annotations y, ManagedFields := ManagedFields y, SCTypeMeta := SCTypeMeta y\<rparr>"

definition pointers_set :: "StorageClass \<Rightarrow> bool" where
  "pointers_set x \<longleftrightarrow> VolumeBindingMode x \<noteq> None \<and> ReclaimPolicy x \<noteq> None \<and> AllowVolumeExpansion x \<noteq> None"

lemma only_annotations_iff:
  "only_annotations x y \<longleftrightarrow> bareMeta x = bareMeta y \<and> Provisioner x = Provisioner y \<and> Parameters x = Parameters y \<and>
     ReclaimPolicy x = ReclaimPolicy y \<and> MountOptions x = MountOptions y \<and>
     AllowVolumeExpansion x = AllowVolumeExpansion y \<and> VolumeBindingMode x = VolumeBindingMode y \<and>
     AllowedTopologies x = AllowedTopologies y"
  unfolding only_annotations_def bareMeta_eq by (cases x; cases y) auto

lemma bind_if_False:
  "(do { b \<leftarrow> m; if b then Some True else f }) = Some False \<longleftrightarrow> m = Some False \<and> f = Some False"
  by (cases m) auto

lemma bind_or_False: "(do { b \<leftarrow> m; Some (b \<or> P) }) = Some False \<longleftrightarrow> m = Some False \<and> \<not> P"
  by (cases m) auto

lemma if_Some_True_False: "(if P then Some True else f) = Some False \<longleftrightarrow> \<not> P \<and> f = Some False"
  by simp

lemma scChanged_False: "scChanged x y = Some False \<longleftrightarrow> only_annotations x y \<and> pointers_set x"
  unfolding scChanged_def if_Some_True_False bind_if_False bind_or_False deref_differ_False only_annotations_iff pointers_set_def
  by argo

section \<open>Properties\<close>





lemma webhookValidate_spec:
  "webhookValidateModuleConfig ed mc items = Some None \<longleftrightarrow> (\<forall>nsc \<in> set items. ValidateNFSStorageClass ed mc nsc = Some None)"
  by (induction items) (auto simp: bind_eq_Some_conv split: option.splits)



end
