(* ===== verification/Webhook_Main.thy ===== *)
theory Webhook_Main
  imports Webhooks
begin

text \<open>
  The process of the webhooks, \<open>images/webhooks/cmd/main.go\<close>: flags, the three handlers, the routes, and what a request meets. The kubewebhook
  library is a parameter: \<open>decode k raw\<close> reads the object of a review as an object of the kind \<open>k\<close> the handler was made for, and the
  locale \<open>static_webhook\<close> says that it yields nothing of another kind. Paths are as \<open>http.ServeMux\<close> compares them, already cleaned.
\<close>

section \<open>Handlers\<close>

definition NSCValidatorID :: string where "NSCValidatorID = ''NSCValidator''"
definition SCValidatorID :: string where "SCValidatorID = ''SCValidator''"
definition MCValidatorID :: string where "MCValidatorID = ''MCValidator''"
definition port :: string where "port = '':8443''"

datatype object_kind = StorageClassKind' | NFSStorageClassKind' | ModuleConfigKind'

datatype validator = RunSCValidate | RunNSCValidate | RunMCValidate

record webhook_handler =
  Validates :: validator
  ValidatorID :: string
  ObjectKind :: object_kind

text \<open>\<open>NewWebhook\<close> and \<open>HandlerFor\<close> return an error or nothing the model needs.\<close>

definition GetValidatingWebhookHandler ::
  "(string \<Rightarrow> go_error option) \<Rightarrow> (string \<Rightarrow> go_error option) \<Rightarrow> validator \<Rightarrow> string \<Rightarrow> object_kind \<Rightarrow> go_error + webhook_handler" where
  "GetValidatingWebhookHandler newWebhook handlerFor validationFunc validatorID obj =
    (case newWebhook validatorID of
       Some err \<Rightarrow> Inl err
     | None \<Rightarrow>
         (case handlerFor validatorID of
            Some err \<Rightarrow> Inl err
          | None \<Rightarrow> Inr \<lparr>Validates = validationFunc, ValidatorID = validatorID, ObjectKind = obj\<rparr>))"

section \<open>main\<close>

record webhook_config =
  CertFile :: string
  KeyFile :: string

datatype route = Validating webhook_handler | Healthz

record webhook_env =
  ParsedFlags :: "webhook_config option"
  NewWebhook :: "string \<Rightarrow> go_error option"
  HandlerFor :: "string \<Rightarrow> go_error option"
  ServeResult :: "webhook_config \<Rightarrow> go_error option"

text \<open>What \<open>main\<close> came to: the flags or a handler were refused, or the server ran with these routes until it ended. Parsing the
  flags ends the process with code 2 if it fails.\<close>

datatype webhook_run =
    StoppedEarly string int
  | Served string webhook_config "(string \<times> route) list" string int

definition initFlags :: "webhook_env \<Rightarrow> webhook_config option" where
  "initFlags env = ParsedFlags env"

definition webhookMain :: "webhook_env \<Rightarrow> webhook_run" where
  "webhookMain env =
    (case initFlags env of
       None \<Rightarrow> StoppedEarly '''' 2
     | Some cfg \<Rightarrow>
        (let handler = GetValidatingWebhookHandler (NewWebhook env) (HandlerFor env) in
         case handler RunSCValidate SCValidatorID StorageClassKind' of
           Inl err \<Rightarrow> StoppedEarly (''error creating scValidatingWebhookHandler: '' @ Error_msg err) 1
         | Inr scHandler \<Rightarrow>
            (case handler RunNSCValidate NSCValidatorID NFSStorageClassKind' of
               Inl err \<Rightarrow> StoppedEarly (''error creating nscValidatingWebhookHandler: '' @ Error_msg err) 1
             | Inr nscHandler \<Rightarrow>
                (case handler RunMCValidate MCValidatorID ModuleConfigKind' of
                   Inl err \<Rightarrow> StoppedEarly (''error creating mcValidatingWebhookHandler: '' @ Error_msg err) 1
                 | Inr mcHandler \<Rightarrow>
                    (let mux = [(''/sc-validate'', Validating scHandler), (''/nsc-validate'', Validating nscHandler),
                           (''/mc-validate'', Validating mcHandler), (''/healthz'', Healthz)]
                     in case ServeResult env cfg of
                          Some err \<Rightarrow> Served port cfg mux (''error serving webhook: '' @ Error_msg err) 1
                        | None \<Rightarrow> Served port cfg mux '''' 0)))))"

section \<open>Requests\<close>

fun kind_of :: "kobject \<Rightarrow> object_kind option" where
  "kind_of (StorageClassObj sc) = Some StorageClassKind'"
| "kind_of (NFSStorageClassObj nsc) = Some NFSStorageClassKind'"
| "kind_of (ModuleConfigObj mc) = Some ModuleConfigKind'"
| "kind_of OtherObj = None"

locale static_webhook =
  fixes decode :: "object_kind \<Rightarrow> 'raw \<Rightarrow> go_error + kobject"
  assumes decode_kind: "decode k raw = Inr obj \<Longrightarrow> kind_of obj = Some k"

datatype http_answer = NotFoundPage | OkPage | Undecodable go_error | Reviewed webhook_outcome

definition runValidator ::
  "edition \<Rightarrow> go_error + 'w client \<Rightarrow> validator \<Rightarrow> AdmissionReview \<Rightarrow> kobject \<Rightarrow> 'w \<Rightarrow> webhook_outcome \<times> 'w" where
  "runValidator ed newClient v ar obj w =
    (case v of
       RunSCValidate \<Rightarrow> (SCValidate ar obj, w)
     | RunNSCValidate \<Rightarrow> NSCValidate ed newClient ar obj w
     | RunMCValidate \<Rightarrow> MCValidate ed newClient ar obj w)"

definition serveRequest ::
  "edition \<Rightarrow> go_error + 'w client \<Rightarrow> (object_kind \<Rightarrow> 'raw \<Rightarrow> go_error + kobject) \<Rightarrow> (string \<times> route) list \<Rightarrow>
   string \<Rightarrow> AdmissionReview \<Rightarrow> 'raw \<Rightarrow> 'w \<Rightarrow> http_answer \<times> 'w" where
  "serveRequest ed newClient decode mux path ar raw w =
    (case map_of mux path of
       None \<Rightarrow> (NotFoundPage, w)
     | Some Healthz \<Rightarrow> (OkPage, w)
     | Some (Validating h) \<Rightarrow>
         (case decode (ObjectKind h) raw of
            Inl err \<Rightarrow> (Undecodable err, w)
          | Inr obj \<Rightarrow> (let (out, w) = runValidator ed newClient (Validates h) ar obj w in (Reviewed out, w))))"

section \<open>Facts\<close>

text \<open>A handler whose validator expects the kind of object it decodes.\<close>

fun expects :: "validator \<Rightarrow> object_kind" where
  "expects RunSCValidate = StorageClassKind'"
| "expects RunNSCValidate = NFSStorageClassKind'"
| "expects RunMCValidate = ModuleConfigKind'"

definition well_typed :: "(string \<times> route) list \<Rightarrow> bool" where
  "well_typed mux \<longleftrightarrow> (\<forall>p h. (p, Validating h) \<in> set mux \<longrightarrow> ObjectKind h = expects (Validates h))"

lemma handler_fields: "GetValidatingWebhookHandler nw hf v vid k = Inr h \<Longrightarrow> Validates h = v \<and> ObjectKind h = k"
  by (auto simp: GetValidatingWebhookHandler_def split: option.splits)

lemma main_well_typed: "webhookMain env = Served p cfg mux m n \<Longrightarrow> well_typed mux"
  by (auto simp: webhookMain_def Let_def well_typed_def dest!: handler_fields split: option.splits sum.splits)

text \<open>A refusal always says why.\<close>

definition refuses_silently :: "webhook_outcome \<Rightarrow> bool" where
  "refuses_silently out \<longleftrightarrow> (\<exists>r. out = Answers (Inr r) \<and> \<not> Valid r \<and> Message r = '''')"

lemma refuses_silently_simps [simp]:
  "\<not> refuses_silently allow" "refuses_silently (deny m) \<longleftrightarrow> m = ''''" "\<not> refuses_silently (Exits e)"
  "\<not> refuses_silently Panics" "\<not> refuses_silently (Answers (Inl e))" "refuses_silently zeroResult"
  by (simp_all add: refuses_silently_def allow_def deny_def zeroResult_def)

lemma mismatch_message: "Error_msg (mismatch mc nsc a b) \<noteq> ''''"
  by (simp add: mismatch_def)

lemma validate_message:
  assumes "ValidateNFSStorageClass ed mc nsc = Some (Some e)"
  shows "Error_msg e \<noteq> ''''"
  using assms
  by (auto simp: ValidateNFSStorageClass_def bind_eq_Some_conv validate_v3_def validate_tls_def validate_mtls_def mismatch_message
      split: option.splits if_splits)

lemma webhook_validate_message: "webhookValidateModuleConfig ed mc items = Some (Some e) \<Longrightarrow> Error_msg e \<noteq> ''''"
  by (induction items) (auto simp: bind_eq_Some_conv dest: validate_message split: option.splits)

lemma sc_validate_message: "\<not> refuses_silently (SCValidate ar (StorageClassObj sc))"
  by (simp add: SCValidate_def Let_def split: option.split sum.split)

lemma nsc_validate_message: "NSCValidate ed newClient ar (NFSStorageClassObj nsc) w = (out, w') \<Longrightarrow> \<not> refuses_silently out"
  by (auto simp: NSCValidate_def dest: validate_message split: if_splits sum.splits prod.splits option.splits)

lemma mc_validate_message: "MCValidate ed newClient ar (ModuleConfigObj mc) w = (out, w') \<Longrightarrow> \<not> refuses_silently out"
  by (auto simp: MCValidate_def dest: webhook_validate_message split: if_splits sum.splits prod.splits option.splits)

lemma kind_of_expects:
  "kind_of obj = Some (expects v) \<Longrightarrow> runValidator ed newClient v ar obj w = (out, w') \<Longrightarrow> \<not> refuses_silently out"
  by (cases v; cases obj)
    (auto simp: runValidator_def sc_validate_message dest: nsc_validate_message mc_validate_message)

context static_webhook
begin

lemma served_review:
  assumes "well_typed mux" and "serveRequest ed newClient decode mux path ar raw w = (Reviewed out, w')"
  shows "\<exists>h obj. map_of mux path = Some (Validating h) \<and> decode (expects (Validates h)) raw = Inr obj \<and>
    kind_of obj = Some (expects (Validates h)) \<and> runValidator ed newClient (Validates h) ar obj w = (out, w')"
proof -
  from assms(2) obtain h obj where h: "map_of mux path = Some (Validating h)" and d: "decode (ObjectKind h) raw = Inr obj"
    and r: "runValidator ed newClient (Validates h) ar obj w = (out, w')"
    by (auto simp: serveRequest_def split: option.splits route.splits sum.splits prod.splits)
  from assms(1) map_of_SomeD [OF h] have "ObjectKind h = expects (Validates h)" by (auto simp: well_typed_def)
  with h d r decode_kind [OF d] show ?thesis by auto
qed

end

text \<open>A decoder that takes an object as it is, if it is of the kind asked for.\<close>

definition decode_object :: "object_kind \<Rightarrow> kobject \<Rightarrow> go_error + kobject" where
  "decode_object k obj = (if kind_of obj = Some k then Inr obj else Inl (ErrorString ''expected another kind''))"

interpretation object_decoder: static_webhook decode_object
  by unfold_locales (auto simp: decode_object_def split: if_splits)

section \<open>Properties\<close>

text \<open>C20: The handlers are wired with their types: whatever the server that \<open>main\<close> starts reviews is reviewed by the validator of its path, on an object of
  the type that validator asserts, so that its branch for other types, which refuses without a word, is never taken: no refusal is without a message.\<close>

theorem webhooks_are_typed:
  assumes "static_webhook decode" and "webhookMain env = Served p cfg mux m n"
    and "serveRequest ed newClient decode mux path ar raw w = (Reviewed out, w')"
  shows "\<not> refuses_silently out \<and>
    (\<exists>v obj. (path, v) \<in> {(''/sc-validate'', RunSCValidate), (''/nsc-validate'', RunNSCValidate), (''/mc-validate'', RunMCValidate)} \<and>
      decode (expects v) raw = Inr obj \<and> kind_of obj = Some (expects v) \<and> runValidator ed newClient v ar obj w = (out, w'))"
proof -
  from static_webhook.served_review [OF assms(1) main_well_typed [OF assms(2)] assms(3)] obtain h obj where
    h: "map_of mux path = Some (Validating h)" and obj: "decode (expects (Validates h)) raw = Inr obj"
      "kind_of obj = Some (expects (Validates h))" "runValidator ed newClient (Validates h) ar obj w = (out, w')"
    by blast
  from assms(2) h have "(path, Validates h) \<in> {(''/sc-validate'', RunSCValidate), (''/nsc-validate'', RunNSCValidate), (''/mc-validate'', RunMCValidate)}"
    by (auto simp: webhookMain_def Let_def dest!: handler_fields split: option.splits sum.splits if_splits)
  with obj kind_of_expects [OF obj(2,3)] show ?thesis by blast
qed

definition sample_webhook_env :: webhook_env where
  "sample_webhook_env = \<lparr>ParsedFlags = Some \<lparr>CertFile = ''tls.crt'', KeyFile = ''tls.key''\<rparr>, NewWebhook = (\<lambda>_. None),
     HandlerFor = (\<lambda>_. None), ServeResult = (\<lambda>_. Some (ErrorString ''closed''))\<rparr>"

theorem webhooks_are_typed_witness:
  "\<exists>mux w'. webhookMain sample_webhook_env = Served '':8443'' \<lparr>CertFile = ''tls.crt'', KeyFile = ''tls.key''\<rparr> mux ''error serving webhook: closed'' 1 \<and>
     serveRequest EE (Inr mem_client) decode_object mux ''/nsc-validate'' \<lparr>Operation = ''create'', Username = ''alice'',
       OldObjectRaw = Inl (ErrorString ''''), NewObjectRaw = Inl (ErrorString '''')\<rparr> (NFSStorageClassObj sample_nsc) sample_world = (Reviewed allow, w') \<and>
     \<not> refuses_silently allow"
proof -
  let ?ar = "\<lparr>Operation = ''create'', Username = ''alice'', OldObjectRaw = Inl (ErrorString ''''), NewObjectRaw = Inl (ErrorString '''')\<rparr>"
  define mux where "mux = (case webhookMain sample_webhook_env of Served p c mux m n \<Rightarrow> mux)"
  have m: "webhookMain sample_webhook_env = Served '':8443'' \<lparr>CertFile = ''tls.crt'', KeyFile = ''tls.key''\<rparr> mux ''error serving webhook: closed'' 1"
    by (simp add: mux_def sample_webhook_env_def webhookMain_def initFlags_def GetValidatingWebhookHandler_def port_def)
  have "fst (serveRequest EE (Inr mem_client) decode_object mux ''/nsc-validate'' ?ar (NFSStorageClassObj sample_nsc) sample_world) = Reviewed allow"
    unfolding mux_def by code_simp
  then obtain w' where s: "serveRequest EE (Inr mem_client) decode_object mux ''/nsc-validate'' ?ar (NFSStorageClassObj sample_nsc) sample_world =
      (Reviewed allow, w')"
    by (metis prod.collapse)
  from m s webhooks_are_typed [OF object_decoder.static_webhook_axioms m s] show ?thesis by blast
qed

end
