(* ===== verification/Deep_Copy.thy ===== *)
theory Deep_Copy
  imports Samples
begin

text \<open>
  The deep copies of the API types, \<open>api/v1alpha1/zz_generated.deepcopy.go\<close>, over an explicit heap, because they are about sharing. A pointer is
  an address or nil, a cell holds a struct with its pointers; what a heap object means is the record of theory Api_V1alpha1. Reading a pointer
  that holds no such struct is \<open>None\<close>. \<open>ObjectMeta\<close> and \<open>ListMeta\<close> are values: their copies are code of apimachinery. A new object is allocated when
  its copy is complete; addresses cannot be observed.
\<close>

section \<open>The heap\<close>

type_synonym addr = nat

record heap_mount_options =
  HMountMode :: string
  HTimeout :: int
  HRetransmissions :: int
  HReadOnly :: "addr option"

record heap_spec =
  HConnection :: "addr option"
  HMountOptions :: "addr option"
  HChmodPermissions :: string
  HReclaimPolicy :: string
  HVolumeBindingMode :: string
  HWorkloadNodes :: "addr option"
  HVolumeCleanup :: string

record heap_class =
  HTypeMeta :: TypeMeta
  HMeta :: ObjectMeta
  HSpec :: heap_spec
  HStatus :: "addr option"

record heap_list =
  HListTypeMeta :: TypeMeta
  HListMeta :: string
  HItems :: "addr option"

datatype cell =
    BoolCell bool
  | ConnectionCell NFSStorageClassConnection
  | WorkloadNodesCell NFSStorageClassWorkloadNodes
  | StatusCell NFSStorageClassStatus
  | MountOptionsCell heap_mount_options
  | SpecCell heap_spec
  | ClassCell heap_class
  | ItemsCell "heap_class list"
  | ListCell heap_list

record heap =
  Cells :: "addr \<Rightarrow> cell option"
  Next :: addr

definition new :: "cell \<Rightarrow> heap \<Rightarrow> addr \<times> heap" where
  "new c h = (Next h, h\<lparr>Cells := (Cells h)(Next h \<mapsto> c), Next := Suc (Next h)\<rparr>)"

text \<open>\<open>*out = new(T); **out = **in\<close> for a pointer field.\<close>

definition copyPointer :: "addr option \<Rightarrow> heap \<Rightarrow> (addr option \<times> heap) option" where
  "copyPointer p h = (case p of
       None \<Rightarrow> Some (None, h)
     | Some a \<Rightarrow> do { c \<leftarrow> Cells h a; let (b, h) = new c h; Some (Some b, h) })"

section \<open>Copies\<close>

text \<open>The body every generated \<open>DeepCopy\<close> shares: nil for nil, else a new struct that \<open>DeepCopyInto\<close> fills.\<close>

definition deepCopy :: "(cell \<Rightarrow> 'a option) \<Rightarrow> ('a \<Rightarrow> cell) \<Rightarrow> ('a \<Rightarrow> heap \<Rightarrow> ('a \<times> heap) option) \<Rightarrow>
    addr option \<Rightarrow> heap \<Rightarrow> (addr option \<times> heap) option" where
  "deepCopy view cell deepCopyInto p h = (case p of
       None \<Rightarrow> Some (None, h)
     | Some a \<Rightarrow> do {
         c \<leftarrow> Cells h a;
         x \<leftarrow> view c;
         (out, h) \<leftarrow> deepCopyInto x h;
         let (b, h) = new (cell out) h;
         Some (Some b, h)
       })"

fun connection_cell :: "cell \<Rightarrow> NFSStorageClassConnection option" where
  "connection_cell (ConnectionCell c) = Some c" | "connection_cell _ = None"

fun status_cell :: "cell \<Rightarrow> NFSStorageClassStatus option" where
  "status_cell (StatusCell s) = Some s" | "status_cell _ = None"

fun mount_cell :: "cell \<Rightarrow> heap_mount_options option" where
  "mount_cell (MountOptionsCell m) = Some m" | "mount_cell _ = None"

fun spec_cell :: "cell \<Rightarrow> heap_spec option" where
  "spec_cell (SpecCell s) = Some s" | "spec_cell _ = None"

fun class_cell :: "cell \<Rightarrow> heap_class option" where
  "class_cell (ClassCell x) = Some x" | "class_cell _ = None"

fun items_cell :: "cell \<Rightarrow> heap_class list option" where
  "items_cell (ItemsCell xs) = Some xs" | "items_cell _ = None"

fun list_cell :: "cell \<Rightarrow> heap_list option" where
  "list_cell (ListCell l) = Some l" | "list_cell _ = None"

definition Connection_DeepCopyInto :: "NFSStorageClassConnection \<Rightarrow> heap \<Rightarrow> (NFSStorageClassConnection \<times> heap) option" where
  "Connection_DeepCopyInto c h = Some (c, h)"

definition Connection_DeepCopy :: "addr option \<Rightarrow> heap \<Rightarrow> (addr option \<times> heap) option" where
  "Connection_DeepCopy = deepCopy connection_cell ConnectionCell Connection_DeepCopyInto"

definition Status_DeepCopyInto :: "NFSStorageClassStatus \<Rightarrow> heap \<Rightarrow> (NFSStorageClassStatus \<times> heap) option" where
  "Status_DeepCopyInto s h = Some (s, h)"

definition Status_DeepCopy :: "addr option \<Rightarrow> heap \<Rightarrow> (addr option \<times> heap) option" where
  "Status_DeepCopy = deepCopy status_cell StatusCell Status_DeepCopyInto"

definition MountOptions_DeepCopyInto :: "heap_mount_options \<Rightarrow> heap \<Rightarrow> (heap_mount_options \<times> heap) option" where
  "MountOptions_DeepCopyInto m h = do {
     (readOnly, h) \<leftarrow> copyPointer (HReadOnly m) h;
     Some (m\<lparr>HReadOnly := readOnly\<rparr>, h)
   }"

definition MountOptions_DeepCopy :: "addr option \<Rightarrow> heap \<Rightarrow> (addr option \<times> heap) option" where
  "MountOptions_DeepCopy = deepCopy mount_cell MountOptionsCell MountOptions_DeepCopyInto"

text \<open>
  The field \<open>MountOptions\<close> is copied with the statements of \<open>DeepCopy\<close> of its type. The field \<open>WorkloadNodes\<close> is only copied
  with the struct: the generated file is older than the field.
\<close>

definition Spec_DeepCopyInto :: "heap_spec \<Rightarrow> heap \<Rightarrow> (heap_spec \<times> heap) option" where
  "Spec_DeepCopyInto s h = do {
     (connection, h) \<leftarrow> copyPointer (HConnection s) h;
     (mountOptions, h) \<leftarrow> MountOptions_DeepCopy (HMountOptions s) h;
     Some (s\<lparr>HConnection := connection, HMountOptions := mountOptions\<rparr>, h)
   }"

definition Spec_DeepCopy :: "addr option \<Rightarrow> heap \<Rightarrow> (addr option \<times> heap) option" where
  "Spec_DeepCopy = deepCopy spec_cell SpecCell Spec_DeepCopyInto"

definition Class_DeepCopyInto :: "heap_class \<Rightarrow> heap \<Rightarrow> (heap_class \<times> heap) option" where
  "Class_DeepCopyInto x h = do {
     (spec, h) \<leftarrow> Spec_DeepCopyInto (HSpec x) h;
     (status, h) \<leftarrow> copyPointer (HStatus x) h;
     Some (x\<lparr>HSpec := spec, HStatus := status\<rparr>, h)
   }"

definition Class_DeepCopy :: "addr option \<Rightarrow> heap \<Rightarrow> (addr option \<times> heap) option" where
  "Class_DeepCopy = deepCopy class_cell ClassCell Class_DeepCopyInto"

definition Class_DeepCopyObject :: "addr option \<Rightarrow> heap \<Rightarrow> (addr option \<times> heap) option" where
  "Class_DeepCopyObject p h = do {
     (c, h) \<leftarrow> Class_DeepCopy p h;
     Some (if c \<noteq> None then (c, h) else (None, h))
   }"

text \<open>The loop of the list, and a list, whose items are one array.\<close>

fun copyItems :: "heap_class list \<Rightarrow> heap \<Rightarrow> (heap_class list \<times> heap) option" where
  "copyItems [] h = Some ([], h)"
| "copyItems (x # xs) h = do {
     (y, h) \<leftarrow> Class_DeepCopyInto x h;
     (ys, h) \<leftarrow> copyItems xs h;
     Some (y # ys, h)
   }"

definition List_DeepCopyInto :: "heap_list \<Rightarrow> heap \<Rightarrow> (heap_list \<times> heap) option" where
  "List_DeepCopyInto l h = do {
     (items, h) \<leftarrow> deepCopy items_cell ItemsCell copyItems (HItems l) h;
     Some (l\<lparr>HItems := items\<rparr>, h)
   }"

definition List_DeepCopy :: "addr option \<Rightarrow> heap \<Rightarrow> (addr option \<times> heap) option" where
  "List_DeepCopy = deepCopy list_cell ListCell List_DeepCopyInto"

definition List_DeepCopyObject :: "addr option \<Rightarrow> heap \<Rightarrow> (addr option \<times> heap) option" where
  "List_DeepCopyObject p h = do {
     (c, h) \<leftarrow> List_DeepCopy p h;
     Some (if c \<noteq> None then (c, h) else (None, h))
   }"

section \<open>What a heap object means\<close>

text \<open>\<open>follow h view p\<close>: nil is \<open>None\<close>, a pointer the meaning of its cell.\<close>

definition follow :: "heap \<Rightarrow> (cell \<Rightarrow> 'a option) \<Rightarrow> addr option \<Rightarrow> 'a option option" where
  "follow h view p = (case p of None \<Rightarrow> Some None | Some a \<Rightarrow> map_option Some (Option.bind (Cells h a) view))"

fun bool_cell :: "cell \<Rightarrow> bool option" where
  "bool_cell (BoolCell b) = Some b" | "bool_cell _ = None"

fun workload_cell :: "cell \<Rightarrow> NFSStorageClassWorkloadNodes option" where
  "workload_cell (WorkloadNodesCell w) = Some w" | "workload_cell _ = None"

definition mount_value :: "heap \<Rightarrow> heap_mount_options \<Rightarrow> NFSStorageClassMountOptions option" where
  "mount_value h m = do {
     readOnly \<leftarrow> follow h bool_cell (HReadOnly m);
     Some \<lparr>MountMode = HMountMode m, Timeout = HTimeout m, Retransmissions = HRetransmissions m, ReadOnly = readOnly\<rparr>
   }"

definition spec_value :: "heap \<Rightarrow> heap_spec \<Rightarrow> NFSStorageClassSpec option" where
  "spec_value h s = do {
     connection \<leftarrow> follow h connection_cell (HConnection s);
     mountOptions \<leftarrow> follow h (\<lambda>c. Option.bind (mount_cell c) (mount_value h)) (HMountOptions s);
     workload \<leftarrow> follow h workload_cell (HWorkloadNodes s);
     Some \<lparr>Connection = connection, SpecMountOptions = mountOptions, ChmodPermissions = HChmodPermissions s,
       SpecReclaimPolicy = HReclaimPolicy s, SpecVolumeBindingMode = HVolumeBindingMode s, WorkloadNodes = workload,
       VolumeCleanup = HVolumeCleanup s\<rparr>
   }"

definition class_value :: "heap \<Rightarrow> heap_class \<Rightarrow> NFSStorageClass option" where
  "class_value h x = do {
     spec \<leftarrow> spec_value h (HSpec x);
     status \<leftarrow> follow h status_cell (HStatus x);
     Some (ObjectMeta.extend (HMeta x) (NFSStorageClass.fields spec status))
   }"

text \<open>The addresses an object points to.\<close>

definition mount_reach :: "heap \<Rightarrow> addr option \<Rightarrow> addr set" where
  "mount_reach h p = set_option p \<union> {b. \<exists>a m. p = Some a \<and> Cells h a = Some (MountOptionsCell m) \<and> HReadOnly m = Some b}"

definition class_reach :: "heap \<Rightarrow> heap_class \<Rightarrow> addr set" where
  "class_reach h x = set_option (HConnection (HSpec x)) \<union> mount_reach h (HMountOptions (HSpec x)) \<union>
     set_option (HWorkloadNodes (HSpec x)) \<union> set_option (HStatus x)"

section \<open>Growing heaps\<close>

text \<open>Every address that has not been handed out is free; \<open>grows\<close> keeps what was allocated.\<close>

definition heap_ok :: "heap \<Rightarrow> bool" where
  "heap_ok h \<longleftrightarrow> (\<forall>a \<ge> Next h. Cells h a = None)"

definition grows :: "heap \<Rightarrow> heap \<Rightarrow> bool" where
  "grows h h' \<longleftrightarrow> Next h \<le> Next h' \<and> (\<forall>a < Next h. Cells h' a = Cells h a)"

lemma grows_refl [simp]: "grows h h"
  by (simp add: grows_def)

lemma grows_trans [trans]: "\<lbrakk>grows h g; grows g k\<rbrakk> \<Longrightarrow> grows h k"
  by (simp add: grows_def)

lemma grows_Next: "grows h g \<Longrightarrow> Next h \<le> Next g"
  by (simp add: grows_def)

lemma allocated: "\<lbrakk>heap_ok h; Cells h a = Some c\<rbrakk> \<Longrightarrow> a < Next h"
  by (metis heap_ok_def linorder_not_less option.simps(3))

lemma grows_cell: "\<lbrakk>heap_ok h; grows h h'; Cells h a = Some c\<rbrakk> \<Longrightarrow> Cells h' a = Some c"
  using allocated by (fastforce simp: grows_def)

lemma new_grows:
  assumes "new c h = (b, h')" and "heap_ok h"
  shows "b = Next h" and "heap_ok h'" and "grows h h'" and "Cells h' b = Some c"
  using assms by (auto simp: new_def heap_ok_def grows_def)

lemma follow_simps [simp]:
  "follow h view None = Some None"
  "follow h view (Some a) = map_option Some (Option.bind (Cells h a) view)"
  by (simp_all add: follow_def)

lemma follow_Some_iff:
  "follow h view (Some a) = Some v \<longleftrightarrow> (\<exists>c w. Cells h a = Some c \<and> view c = Some w \<and> v = Some w)"
  by (auto simp: bind_eq_Some_conv)

lemma follow_grows:
  assumes "heap_ok h" and "grows h h'" and "follow h view p = Some v" and "\<And>c w. view c = Some w \<Longrightarrow> view' c = Some w"
  shows "follow h' view' p = Some v"
  using assms by (cases p) (fastforce simp: bind_eq_Some_conv dest: grows_cell)+

lemma mount_value_grows:
  "\<lbrakk>heap_ok h; grows h h'; mount_value h m = Some v\<rbrakk> \<Longrightarrow> mount_value h' m = Some v"
  by (fastforce simp: mount_value_def bind_eq_Some_conv dest: follow_grows)

lemma mount_view_grows:
  assumes "heap_ok h" and "grows h h'" and "follow h (\<lambda>c. Option.bind (mount_cell c) (mount_value h)) p = Some v"
  shows "follow h' (\<lambda>c. Option.bind (mount_cell c) (mount_value h')) p = Some v"
  by (rule follow_grows [OF assms]) (auto simp: bind_eq_Some_conv intro: mount_value_grows [OF assms(1,2)])

lemma mount_reach_grows:
  assumes "heap_ok h" and "grows h h'" and "follow h view p = Some v"
  shows "mount_reach h' p = mount_reach h p"
  using assms by (cases p) (auto simp: mount_reach_def bind_eq_Some_conv dest: grows_cell)

section \<open>What a copy is\<close>

text \<open>\<open>copied h h' p\<close>: the heap has grown and \<open>p\<close> is nil or was allocated on the way.\<close>

definition copied :: "heap \<Rightarrow> heap \<Rightarrow> addr option \<Rightarrow> bool" where
  "copied h h' p \<longleftrightarrow> heap_ok h' \<and> grows h h' \<and> (\<forall>a \<in> set_option p. Next h \<le> a)"

lemma copyPointer_copied:
  assumes "heap_ok h" and "follow h view p = Some v"
  obtains q h' where "copyPointer p h = Some (q, h')" and "copied h h' q" and "follow h' view q = Some v"
proof (cases p)
  case None
  then show ?thesis using assms that [of None h] by (simp add: copyPointer_def copied_def)
next
  case (Some a)
  with assms obtain c w where c: "Cells h a = Some c" "view c = Some w" "v = Some w"
    by (auto simp: bind_eq_Some_conv)
  obtain b h' where n: "new c h = (b, h')" by (metis surj_pair)
  show ?thesis
    using new_grows [OF n assms(1)] c n Some that [of "Some b" h']
    by (simp add: copyPointer_def copied_def)
qed

lemma mount_copied:
  assumes "heap_ok h" and "mount_value h m = Some v"
  obtains k h' where "MountOptions_DeepCopyInto m h = Some (k, h')" and "copied h h' (HReadOnly k)"
    and "mount_value h' k = Some v"
proof -
  from assms(2) obtain r where r: "follow h bool_cell (HReadOnly m) = Some r"
    and v: "v = \<lparr>MountMode = HMountMode m, Timeout = HTimeout m, Retransmissions = HRetransmissions m, ReadOnly = r\<rparr>"
    by (auto simp: mount_value_def bind_eq_Some_conv)
  obtain q h' where q: "copyPointer (HReadOnly m) h = Some (q, h')" "copied h h' q" "follow h' bool_cell q = Some r"
    using copyPointer_copied [OF assms(1) r] .
  show ?thesis
    using q by (intro that [of "m\<lparr>HReadOnly := q\<rparr>" h']) (simp_all add: MountOptions_DeepCopyInto_def mount_value_def v)
qed

text \<open>A copied pointer stays one while the heap grows.\<close>

lemma copied_grows:
  assumes "copied h g p" and "heap_ok k" and "grows g k"
  shows "copied h k p"
  using assms grows_trans by (auto simp: copied_def)

lemma copied_after:
  assumes "heap_ok h" and "grows h g" and "copied g k p"
  shows "copied h k p"
  using assms grows_trans grows_Next [OF assms(2)] by (fastforce simp: copied_def)

abbreviation mount_pointer :: "heap \<Rightarrow> addr option \<Rightarrow> NFSStorageClassMountOptions option option" where
  "mount_pointer h \<equiv> follow h (\<lambda>c. Option.bind (mount_cell c) (mount_value h))"

lemma mount_cell_iff [simp]: "mount_cell c = Some m \<longleftrightarrow> c = MountOptionsCell m"
  by (cases c) auto

lemma class_cell_iff [simp]: "class_cell c = Some x \<longleftrightarrow> c = ClassCell x"
  by (cases c) auto

lemma mount_pointer_copied:
  assumes ok: "heap_ok h" and p: "mount_pointer h p = Some v"
  obtains q h' where "MountOptions_DeepCopy p h = Some (q, h')" and "copied h h' q" and "mount_pointer h' q = Some v"
    and "\<forall>a \<in> mount_reach h' q. Next h \<le> a"
proof (cases p)
  case None
  then show ?thesis using assms that [of None h] by (simp add: MountOptions_DeepCopy_def deepCopy_def copied_def mount_reach_def)
next
  case (Some a)
  with p obtain m w where m: "Cells h a = Some (MountOptionsCell m)" "mount_value h m = Some w" "v = Some w"
    by (auto simp: bind_eq_Some_conv)
  obtain k g where k: "MountOptions_DeepCopyInto m h = Some (k, g)" "copied h g (HReadOnly k)" "mount_value g k = Some w"
    using mount_copied [OF ok m(2)] .
  obtain b h' where n: "new (MountOptionsCell k) g = (b, h')" by (metis surj_pair)
  have g: "heap_ok g" "grows h g" using k(2) by (auto simp: copied_def)
  note b = new_grows [OF n g(1)]
  show ?thesis
  proof (rule that [of "Some b" h'])
    show "MountOptions_DeepCopy p h = Some (Some b, h')" using m(1) k(1) n Some by (simp add: MountOptions_DeepCopy_def deepCopy_def)
    show "copied h h' (Some b)" using b g grows_trans grows_Next [OF g(2)] by (auto simp: copied_def)
    show "mount_pointer h' (Some b) = Some v"
      using b mount_value_grows [OF g(1) b(3) k(3)] m(3) by simp
    show "\<forall>a \<in> mount_reach h' (Some b). Next h \<le> a"
      using b k(2) grows_Next [OF g(2)] by (auto simp: mount_reach_def copied_def)
  qed
qed

text \<open>The addresses of a spec that its copy does not share.\<close>

definition spec_reach :: "heap \<Rightarrow> heap_spec \<Rightarrow> addr set" where
  "spec_reach h s = set_option (HConnection s) \<union> mount_reach h (HMountOptions s)"

lemma spec_value_iff:
  "spec_value h s = Some v \<longleftrightarrow> (\<exists>c m w. follow h connection_cell (HConnection s) = Some c \<and> mount_pointer h (HMountOptions s) = Some m \<and>
     follow h workload_cell (HWorkloadNodes s) = Some w \<and>
     v = \<lparr>Connection = c, SpecMountOptions = m, ChmodPermissions = HChmodPermissions s,
       SpecReclaimPolicy = HReclaimPolicy s, SpecVolumeBindingMode = HVolumeBindingMode s, WorkloadNodes = w,
       VolumeCleanup = HVolumeCleanup s\<rparr>)"
  by (auto simp: spec_value_def bind_eq_Some_conv)

lemma spec_copied:
  assumes ok: "heap_ok h" and v: "spec_value h s = Some v"
  obtains t h' where "Spec_DeepCopyInto s h = Some (t, h')" and "heap_ok h'" and "grows h h'"
    and "spec_value h' t = Some v" and "\<forall>a \<in> spec_reach h' t. Next h \<le> a" and "HWorkloadNodes t = HWorkloadNodes s"
proof -
  from v obtain c m w where parts: "follow h connection_cell (HConnection s) = Some c"
      "mount_pointer h (HMountOptions s) = Some m" "follow h workload_cell (HWorkloadNodes s) = Some w"
    and v: "v = \<lparr>Connection = c, SpecMountOptions = m, ChmodPermissions = HChmodPermissions s,
      SpecReclaimPolicy = HReclaimPolicy s, SpecVolumeBindingMode = HVolumeBindingMode s, WorkloadNodes = w,
      VolumeCleanup = HVolumeCleanup s\<rparr>"
    by (auto simp only: spec_value_iff)
  obtain p g where p: "copyPointer (HConnection s) h = Some (p, g)" "copied h g p" "follow g connection_cell p = Some c"
    using copyPointer_copied [OF ok parts(1)] .
  then have g: "heap_ok g" "grows h g" by (auto simp: copied_def)
  obtain q h' where q: "MountOptions_DeepCopy (HMountOptions s) g = Some (q, h')" "copied g h' q" "mount_pointer h' q = Some m"
      "\<forall>a \<in> mount_reach h' q. Next g \<le> a"
    using mount_pointer_copied [OF g(1) mount_view_grows [OF ok g(2) parts(2)]] .
  then have k: "heap_ok h'" "grows g h'" by (auto simp: copied_def)
  note hk = grows_trans [OF g(2) k(2)]
  show ?thesis
  proof (rule that [of "s\<lparr>HConnection := p, HMountOptions := q\<rparr>" h'])
    show "Spec_DeepCopyInto s h = Some (s\<lparr>HConnection := p, HMountOptions := q\<rparr>, h')"
      by (simp add: Spec_DeepCopyInto_def p(1) q(1))
    show "spec_value h' (s\<lparr>HConnection := p, HMountOptions := q\<rparr>) = Some v"
      using follow_grows [OF g(1) k(2) p(3)] follow_grows [OF ok hk parts(3)] q(3) by (simp add: spec_value_def v)
    show "\<forall>a \<in> spec_reach h' (s\<lparr>HConnection := p, HMountOptions := q\<rparr>). Next h \<le> a"
      using p(2) q(4) grows_Next [OF g(2)] by (fastforce simp: spec_reach_def copied_def)
  qed (use k hk in auto)
qed

lemma follow_grows':
  "\<lbrakk>heap_ok h; grows h h'; follow h view p = Some v\<rbrakk> \<Longrightarrow> follow h' view p = Some v"
  by (erule (2) follow_grows)

lemma class_value_iff:
  "class_value h x = Some v \<longleftrightarrow> (\<exists>s t. spec_value h (HSpec x) = Some s \<and> follow h status_cell (HStatus x) = Some t \<and>
     v = ObjectMeta.extend (HMeta x) (NFSStorageClass.fields s t))"
  by (auto simp: class_value_def bind_eq_Some_conv)

lemma spec_value_grows:
  assumes "heap_ok h" and "grows h h'" and "spec_value h s = Some v"
  shows "spec_value h' s = Some v"
proof -
  from assms(3) show ?thesis
    unfolding spec_value_iff
    by (elim exE conjE) (intro exI conjI, erule follow_grows' [OF assms(1,2)], erule mount_view_grows [OF assms(1,2)],
      erule follow_grows' [OF assms(1,2)], assumption)
qed

lemma spec_reach_grows:
  assumes "heap_ok h" and "grows h h'" and "spec_value h s = Some v"
  shows "spec_reach h' s = spec_reach h s"
proof -
  from assms(3) obtain m where "mount_pointer h (HMountOptions s) = Some m" by (auto simp only: spec_value_iff)
  from mount_reach_grows [OF assms(1,2) this] show ?thesis by (simp add: spec_reach_def)
qed

text \<open>The addresses of a class except its workload nodes: those \<open>DeepCopyInto\<close> duplicates.\<close>

definition own_reach :: "heap \<Rightarrow> heap_class \<Rightarrow> addr set" where
  "own_reach h x = spec_reach h (HSpec x) \<union> set_option (HStatus x)"

lemma class_reach_own: "class_reach h x = own_reach h x \<union> set_option (HWorkloadNodes (HSpec x))"
  by (auto simp: class_reach_def own_reach_def spec_reach_def)

definition class_copied :: "heap \<Rightarrow> heap \<Rightarrow> heap_class \<Rightarrow> heap_class \<Rightarrow> bool" where
  "class_copied h h' x y \<longleftrightarrow> (\<forall>a \<in> own_reach h' y. Next h \<le> a) \<and> HWorkloadNodes (HSpec y) = HWorkloadNodes (HSpec x)"

lemma class_copied_into:
  assumes ok: "heap_ok h" and v: "class_value h x = Some v"
  obtains y h' where "Class_DeepCopyInto x h = Some (y, h')" and "heap_ok h'" and "grows h h'"
    and "class_value h' y = Some v" and "class_copied h h' x y"
proof -
  from v obtain s t where s: "spec_value h (HSpec x) = Some s" and t: "follow h status_cell (HStatus x) = Some t"
    and v: "v = ObjectMeta.extend (HMeta x) (NFSStorageClass.fields s t)"
    by (auto simp: class_value_iff)
  obtain u g where u: "Spec_DeepCopyInto (HSpec x) h = Some (u, g)" "heap_ok g" "grows h g" "spec_value g u = Some s"
      "\<forall>a \<in> spec_reach g u. Next h \<le> a" "HWorkloadNodes u = HWorkloadNodes (HSpec x)"
    using spec_copied [OF ok s] .
  obtain q h' where q: "copyPointer (HStatus x) g = Some (q, h')" "copied g h' q" "follow h' status_cell q = Some t"
    using copyPointer_copied [OF u(2) follow_grows' [OF ok u(3) t]] .
  then have k: "heap_ok h'" "grows g h'" by (auto simp: copied_def)
  let ?y = "x\<lparr>HSpec := u, HStatus := q\<rparr>"
  show ?thesis
  proof (rule that [of ?y h'])
    show "Class_DeepCopyInto x h = Some (?y, h')" by (simp add: Class_DeepCopyInto_def u(1) q(1))
    show "class_value h' ?y = Some v"
      using spec_value_grows [OF u(2) k(2) u(4)] q(3) by (simp add: class_value_iff v)
    show "class_copied h h' x ?y"
      using spec_reach_grows [OF u(2) k(2) u(4)] u(5,6) q(2) grows_Next [OF u(3)]
      by (fastforce simp: class_copied_def own_reach_def copied_def)
  qed (use k grows_trans [OF u(3) k(2)] in auto)
qed

lemma class_value_grows:
  "\<lbrakk>heap_ok h; grows h h'; class_value h x = Some v\<rbrakk> \<Longrightarrow> class_value h' x = Some v"
  unfolding class_value_iff using spec_value_grows follow_grows' by blast

lemma own_reach_grows:
  "\<lbrakk>heap_ok h; grows h h'; class_value h x = Some v\<rbrakk> \<Longrightarrow> own_reach h' x = own_reach h x"
  unfolding class_value_iff using spec_reach_grows [of h h' "HSpec x"] by (auto simp: own_reach_def)

lemma class_copied_grows:
  assumes "class_copied h g x y" and "heap_ok g" and "grows g k" and "class_value g y = Some v"
  shows "class_copied h k x y"
  using assms own_reach_grows [OF assms(2-4)] by (simp add: class_copied_def)

lemma class_copied_after:
  "\<lbrakk>grows h g; class_copied g k x y\<rbrakk> \<Longrightarrow> class_copied h k x y"
  by (auto simp: class_copied_def dest!: grows_Next)

text \<open>Of the addresses a copied class points to, only the workload nodes were allocated before the copy.\<close>

lemma class_copied_old:
  assumes "heap_ok h" and "class_value h x = Some v" and "class_copied h h' x y"
  shows "class_reach h' y \<inter> {..<Next h} = set_option (HWorkloadNodes (HSpec x))"
proof -
  have "a < Next h" if "HWorkloadNodes (HSpec x) = Some a" for a
    using assms(2) that allocated [OF assms(1)] by (auto simp: class_value_iff spec_value_iff bind_eq_Some_conv)
  then show ?thesis using assms(3) by (fastforce simp: class_reach_own class_copied_def)
qed

section \<open>The copy of a class\<close>

text \<open>C28: the deep copy of a stored NFSStorageClass is a new object with the same value, nothing that was allocated changes, and of the addresses
  the copy points to exactly one is old: its workload nodes, which \<open>Spec.DeepCopyInto\<close> shares with the original, so the copy is deep
  only for a class that sets none.\<close>

theorem deep_copy_shares_workload_nodes:
  assumes ok: "heap_ok h" and a: "Cells h a = Some (ClassCell x)" and v: "class_value h x = Some v"
  shows "\<exists>b y h'. Class_DeepCopy (Some a) h = Some (Some b, h') \<and> Next h \<le> b \<and> Cells h' b = Some (ClassCell y) \<and>
    class_value h' y = Some v \<and> (\<forall>c < Next h. Cells h' c = Cells h c) \<and>
    class_reach h' y \<inter> {..<Next h} = set_option (HWorkloadNodes (HSpec x))"
proof -
  obtain y g where y: "Class_DeepCopyInto x h = Some (y, g)" "heap_ok g" "grows h g" "class_value g y = Some v"
      "class_copied h g x y"
    using class_copied_into [OF ok v] .
  obtain b h' where n: "new (ClassCell y) g = (b, h')" by (metis surj_pair)
  note b = new_grows [OF n y(2)]
  have "Class_DeepCopy (Some a) h = Some (Some b, h')" using a y(1) n by (simp add: Class_DeepCopy_def deepCopy_def)
  moreover have "class_reach h' y \<inter> {..<Next h} = set_option (HWorkloadNodes (HSpec x))"
    using class_copied_old [OF ok v class_copied_grows [OF y(5,2) b(3) y(4)]] .
  ultimately show ?thesis
    using b(1,4) class_value_grows [OF y(2) b(3) y(4)] grows_Next [OF y(3)] grows_trans [OF y(3) b(3)]
    by (auto simp: grows_def)
qed

definition sample_heap :: heap where
  "sample_heap = \<lparr>Cells = [0 \<mapsto> WorkloadNodesCell \<lparr>NodeSelector = None\<rparr>, 1 \<mapsto> ConnectionCell sample_connection,
     2 \<mapsto> ClassCell \<lparr>HTypeMeta = \<lparr>Kind = ''NFSStorageClass'', APIVersion = ''''\<rparr>, HMeta = ObjectMeta.truncate sample_nsc,
       HSpec = \<lparr>HConnection = Some 1, HMountOptions = None, HChmodPermissions = '''', HReclaimPolicy = ''Delete'',
         HVolumeBindingMode = ''Immediate'', HWorkloadNodes = Some 0, HVolumeCleanup = ''''\<rparr>,
       HStatus = None\<rparr>], Next = 3\<rparr>"

theorem deep_copy_shares_workload_nodes_witness:
  "\<exists>b y h'. Class_DeepCopy (Some 2) sample_heap = Some (Some b, h') \<and> Cells h' b = Some (ClassCell y) \<and>
     class_reach h' y \<inter> {..<3} = {0}"
proof -
  have ok: "heap_ok sample_heap" by (simp add: heap_ok_def sample_heap_def)
  have "\<exists>x v. Cells sample_heap 2 = Some (ClassCell x) \<and> class_value sample_heap x = Some v \<and>
      HWorkloadNodes (HSpec x) = Some 0"
    by (simp add: sample_heap_def class_value_def spec_value_def)
  then obtain x v where "Cells sample_heap 2 = Some (ClassCell x)" "class_value sample_heap x = Some v"
    and w: "HWorkloadNodes (HSpec x) = Some 0" by blast
  from deep_copy_shares_workload_nodes [OF ok this(1,2)] show ?thesis
    by (fastforce simp: w sample_heap_def)
qed

text \<open>What sharing means: writing the workload nodes through the pointer of the copy changes the value of the original.\<close>

lemma follow_other_cell:
  assumes "Cells h w = Some c" and "view c = None" and "follow h view p = Some v"
    and "\<And>c' u. view c' = Some u \<Longrightarrow> view' c' = Some u"
  shows "follow (h\<lparr>Cells := (Cells h)(w \<mapsto> d)\<rparr>) view' p = Some v"
  using assms by (cases p) (auto simp: bind_eq_Some_conv)

lemma write_through_shared:
  assumes v: "class_value h x = Some v" and w: "HWorkloadNodes (HSpec x) = Some w" "Cells h w = Some (WorkloadNodesCell n)"
  shows "class_value (h\<lparr>Cells := (Cells h)(w \<mapsto> WorkloadNodesCell n')\<rparr>) x = Some (v\<lparr>Spec := (Spec v)\<lparr>WorkloadNodes := Some n'\<rparr>\<rparr>)"
proof -
  let ?h = "h\<lparr>Cells := (Cells h)(w \<mapsto> WorkloadNodesCell n')\<rparr>"
  have mount: "mount_value ?h m = Some u" if "mount_value h m = Some u" for m u
    using that follow_other_cell [OF w(2), of bool_cell] by (fastforce simp: mount_value_def bind_eq_Some_conv)
  have "mount_pointer ?h p = Some u" if "mount_pointer h p = Some u" for p u
    using that by (rule follow_other_cell [OF w(2), rotated]) (auto simp: bind_eq_Some_conv intro: mount)
  moreover have "follow ?h workload_cell (HWorkloadNodes (HSpec x)) = Some (Some n')" by (simp add: w)
  moreover have "follow ?h connection_cell p = Some u" if "follow h connection_cell p = Some u" for p u
    using that by (rule follow_other_cell [OF w(2), rotated]) auto
  moreover have "follow ?h status_cell p = Some u" if "follow h status_cell p = Some u" for p u
    using that by (rule follow_other_cell [OF w(2), rotated]) auto
  ultimately show ?thesis
    using v unfolding class_value_iff spec_value_iff
    by (elim exE conjE) (intro exI conjI, assumption?, (rule refl | blast)+, simp_all add: ObjectMeta.defs NFSStorageClass.defs)
qed

section \<open>The copy of a list\<close>

lemma items_copied:
  "\<lbrakk>heap_ok h; list_all2 (\<lambda>x v. class_value h x = Some v) xs vs\<rbrakk> \<Longrightarrow>
   \<exists>ys h'. copyItems xs h = Some (ys, h') \<and> heap_ok h' \<and> grows h h' \<and> list_all2 (\<lambda>y v. class_value h' y = Some v) ys vs \<and>
     list_all2 (class_copied h h') xs ys"
proof (induction xs arbitrary: h vs)
  case Nil
  then show ?case by simp
next
  case (Cons x xs)
  from Cons.prems(2) obtain v us where v: "class_value h x = Some v" "vs = v # us"
    and us: "list_all2 (\<lambda>x v. class_value h x = Some v) xs us" by (auto simp: list_all2_Cons1)
  obtain y g where y: "Class_DeepCopyInto x h = Some (y, g)" "heap_ok g" "grows h g" "class_value g y = Some v"
      "class_copied h g x y"
    using class_copied_into [OF Cons.prems(1) v(1)] .
  have "list_all2 (\<lambda>x v. class_value g x = Some v) xs us"
    using us by (rule list_all2_mono) (rule class_value_grows [OF Cons.prems(1) y(3)])
  then obtain ys k where ys: "copyItems xs g = Some (ys, k)" "heap_ok k" "grows g k"
      "list_all2 (\<lambda>y v. class_value k y = Some v) ys us" "list_all2 (class_copied g k) xs ys"
    using Cons.IH [OF y(2)] by blast
  have "list_all2 (class_copied h k) xs ys"
    using ys(5) by (rule list_all2_mono) (rule class_copied_after [OF y(3)])
  then show ?case
    using y(1) ys class_value_grows [OF y(2) ys(3) y(4)] class_copied_grows [OF y(5,2) ys(3) y(4)] grows_trans [OF y(3) ys(3)]
    by (auto simp: v(2))
qed

text \<open>The copy of a list is a new list with copied items, nil or not as the original's.\<close>

lemma list_copied:
  assumes ok: "heap_ok h" and a: "Cells h a = Some (ListCell l)" and i: "HItems l = Some i" "Cells h i = Some (ItemsCell xs)"
    and vs: "list_all2 (\<lambda>x v. class_value h x = Some v) xs vs"
  shows "\<exists>b j ys h'. List_DeepCopy (Some a) h = Some (Some b, h') \<and> Cells h' b = Some (ListCell (l\<lparr>HItems := Some j\<rparr>)) \<and>
    Cells h' j = Some (ItemsCell ys) \<and> Next h \<le> b \<and> Next h \<le> j \<and> grows h h' \<and>
    list_all2 (\<lambda>y v. class_value h' y = Some v) ys vs \<and> list_all2 (class_copied h h') xs ys"
proof -
  obtain ys g where ys: "copyItems xs h = Some (ys, g)" "heap_ok g" "grows h g"
      "list_all2 (\<lambda>y v. class_value g y = Some v) ys vs" "list_all2 (class_copied h g) xs ys"
    using items_copied [OF ok vs] by blast
  obtain j k where j: "new (ItemsCell ys) g = (j, k)" by (metis surj_pair)
  obtain b h' where b: "new (ListCell (l\<lparr>HItems := Some j\<rparr>)) k = (b, h')" by (metis surj_pair)
  note gk = new_grows [OF j ys(2)]
  note kh = new_grows [OF b gk(2)]
  have gh: "grows g h'" using gk(3) kh(3) by (rule grows_trans)
  have "List_DeepCopy (Some a) h = Some (Some b, h')" using a i ys(1) j b by (simp add: List_DeepCopy_def deepCopy_def List_DeepCopyInto_def)
  moreover have "list_all2 (\<lambda>y v. class_value h' y = Some v) ys vs"
    using ys(4) by (rule list_all2_mono) (rule class_value_grows [OF ys(2) gh])
  moreover have "list_all2 (class_copied h h') xs ys"
    using ys(4,5) class_copied_grows [OF _ ys(2) gh] by (fastforce simp: list_all2_conv_all_nth)
  ultimately show ?thesis
    using gk kh grows_Next [OF ys(3)] grows_Next [OF gk(3)] grows_trans [OF ys(3) gh] grows_cell [OF gk(2) kh(3) gk(4)] by auto
qed

end
