(* ===== verification/Hooks.thy ===== *)
theory Hooks
  imports Api_V1alpha1
begin

text \<open>
  The module hooks written in Go, \<open>hooks/go\<close>: \<open>030-remove-finalizers-on-module-delete\<close> and
  \<open>080-scheduler-extender-enabler\<close> (the certificate hooks are in theory Registration).

  The first one talks to the API server through the operations of \<open>hook_client\<close>, a parameter. Its objects are kept as
  metadata with the kind and, for a StorageClass, the provisioner. \<open>RemoveFinalizers\<close> is \<open>cl.Patch\<close> with the merge patch of an object
  whose finalizers were set to nil. The second hook decodes the snapshots it is given; \<open>json.Marshal\<close>, base64
  decoding and \<open>json.Unmarshal\<close> are its parameters.
\<close>

section \<open>Constants\<close>

record CRGVK =
  Group :: string
  GVKVersion :: string
  GVKKind :: string
  Namespaced :: bool

definition ModuleName :: string where "ModuleName = ''csiNfs''"
definition ModuleNamespace :: string where "ModuleNamespace = ''d8-csi-nfs''"
definition AllowedProvisioners :: "string list" where "AllowedProvisioners = [''nfs.csi.k8s.io'']"
definition WebhookConfigurationsToDelete :: "string list" where "WebhookConfigurationsToDelete = []"
definition CRGVKsForFinalizerRemoval :: "CRGVK list" where
  "CRGVKsForFinalizerRemoval =
     [\<lparr>Group = ''storage.deckhouse.io'', GVKVersion = ''v1alpha1'', GVKKind = ''NFSStorageClass'', Namespaced = False\<rparr>]"
definition hookName :: string where "hookName = ''remove-finalizers-on-module-delete''"

section \<open>Removing finalizers when the module is deleted\<close>

record hobj = ObjectMeta +
  HKind :: string
  HProvisioner :: string

record 'w hook_client =
  HList :: "string \<Rightarrow> string \<Rightarrow> 'w \<Rightarrow> (go_error + hobj list) \<times> 'w"
  RemoveFinalizers :: "hobj \<Rightarrow> 'w \<Rightarrow> go_error option \<times> 'w"
  GetWebhookConfiguration :: "string \<Rightarrow> 'w \<Rightarrow> go_error option \<times> 'w"
  DeleteWebhookConfiguration :: "string \<Rightarrow> 'w \<Rightarrow> go_error option \<times> 'w"

text \<open>\<open>errors.Join\<close> drops nil errors.\<close>

fun join_errors :: "go_error option \<Rightarrow> go_error \<Rightarrow> go_error option" where
  "join_errors None e = Some e"
| "join_errors (Some r) e = Some (JoinError r e)"

definition removeFinalizersFromObject :: "'w hook_client \<Rightarrow> hobj \<Rightarrow> 'w \<Rightarrow> go_error option \<times> 'w" where
  "removeFinalizersFromObject cl obj w =
    (case RemoveFinalizers cl obj w of
       (Some e, w) \<Rightarrow> (Some (WrapError (''failed to patch '' @ HKind obj @ '' '' @ Name obj @ '': '') e), w)
     | (None, w) \<Rightarrow> (None, w))"

text \<open>The loops over the items of a list: \<open>skip\<close> is the condition of \<open>continue\<close>.\<close>

fun removeLoop :: "'w hook_client \<Rightarrow> (hobj \<Rightarrow> bool) \<Rightarrow> hobj list \<Rightarrow> go_error option \<Rightarrow> 'w \<Rightarrow> go_error option \<times> 'w" where
  "removeLoop cl skip [] resultErr w = (resultErr, w)"
| "removeLoop cl skip (obj # items) resultErr w =
    (if skip obj then removeLoop cl skip items resultErr w
     else (case removeFinalizersFromObject cl obj w of
             (Some e, w) \<Rightarrow> removeLoop cl skip items (join_errors resultErr e) w
           | (None, w) \<Rightarrow> removeLoop cl skip items resultErr w))"

definition removeFromKind :: "'w hook_client \<Rightarrow> string \<Rightarrow> string \<Rightarrow> go_error option \<Rightarrow> 'w \<Rightarrow> go_error option \<times> 'w" where
  "removeFromKind cl kind plural resultErr w =
    (case HList cl kind ModuleNamespace w of
       (Inl e, w) \<Rightarrow> (join_errors resultErr (WrapError (''['' @ hookName @ '']: failed to list '' @ plural @ '': '') e), w)
     | (Inr items, w) \<Rightarrow> removeLoop cl (\<lambda>_. False) items resultErr w)"

fun deleteWebhooks :: "'w hook_client \<Rightarrow> string list \<Rightarrow> go_error option \<Rightarrow> 'w \<Rightarrow> go_error option \<times> 'w" where
  "deleteWebhooks cl [] resultErr w = (resultErr, w)"
| "deleteWebhooks cl (name # names) resultErr w =
    (case GetWebhookConfiguration cl name w of
       (Some _, w) \<Rightarrow> deleteWebhooks cl names resultErr w
     | (None, w) \<Rightarrow>
         (case DeleteWebhookConfiguration cl name w of
            (Some e, w) \<Rightarrow> deleteWebhooks cl names (join_errors resultErr
               (WrapError (''['' @ hookName @ '']: failed to delete ValidatingWebhookConfiguration '' @ name @ '': '') e)) w
          | (None, w) \<Rightarrow> deleteWebhooks cl names resultErr w))"

fun removeFromStorageClasses :: "'w hook_client \<Rightarrow> string list \<Rightarrow> go_error option \<Rightarrow> 'w \<Rightarrow> go_error option \<times> 'w" where
  "removeFromStorageClasses cl [] resultErr w = (resultErr, w)"
| "removeFromStorageClasses cl (provisioner # rest) resultErr w =
    (case HList cl ''StorageClass'' '''' w of
       (Inl e, w) \<Rightarrow> (join_errors resultErr (WrapError (''['' @ hookName @ '']: failed to list storage classes: '') e), w)
     | (Inr items, w) \<Rightarrow>
         (case removeLoop cl (\<lambda>sc. HProvisioner sc \<noteq> provisioner) items resultErr w of
            (resultErr, w) \<Rightarrow> removeFromStorageClasses cl rest resultErr w))"

fun removeFromCRs :: "'w hook_client \<Rightarrow> CRGVK list \<Rightarrow> go_error option \<Rightarrow> 'w \<Rightarrow> go_error option \<times> 'w" where
  "removeFromCRs cl [] resultErr w = (resultErr, w)"
| "removeFromCRs cl (crgvk # rest) resultErr w =
    (case HList cl (GVKKind crgvk) (if Namespaced crgvk then ModuleNamespace else '''') w of
       (Inl _, w) \<Rightarrow> removeFromCRs cl rest resultErr w
     | (Inr items, w) \<Rightarrow>
         (case removeLoop cl (\<lambda>cr. length (fins cr) = 0) items resultErr w of
            (resultErr, w) \<Rightarrow> removeFromCRs cl rest resultErr w))"

definition handlerRemoveFinalizersOnModuleDelete ::
  "go_error + 'w hook_client \<Rightarrow> 'w \<Rightarrow> go_error option \<times> 'w" where
  "handlerRemoveFinalizersOnModuleDelete newClient w =
    (case newClient of
       Inl e \<Rightarrow> (Some (WrapError ''failed to initialize kube client: '' e), w)
     | Inr cl \<Rightarrow>
         (let (resultErr, w) = removeFromKind cl ''Secret'' ''secrets'' None w;
              (resultErr, w) = removeFromKind cl ''ConfigMap'' ''configmaps'' resultErr w;
              (resultErr, w) = deleteWebhooks cl WebhookConfigurationsToDelete resultErr w;
              (resultErr, w) = removeFromStorageClasses cl AllowedProvisioners resultErr w
          in removeFromCRs cl CRGVKsForFinalizerRemoval resultErr w))"

section \<open>Enabling the scheduler extender\<close>

record 's codec =
  Marshal :: "'s \<Rightarrow> go_error + string"
  DecodeString :: "string \<Rightarrow> go_error + string"
  UnmarshalWorkloadNodes :: "string \<Rightarrow> go_error + NFSStorageClassWorkloadNodes"

text \<open>\<open>None\<close> is the panic of slicing fewer than two bytes; \<open>Some None\<close> is \<open>continue\<close> after a failed step.\<close>

definition decodeSnapshot :: "'s codec \<Rightarrow> 's \<Rightarrow> NFSStorageClassWorkloadNodes option option" where
  "decodeSnapshot c snapshot =
    (case Marshal c snapshot of
       Inl _ \<Rightarrow> Some None
     | Inr snapshotBytes \<Rightarrow>
         if length snapshotBytes < 2 then None
         else (case DecodeString c (butlast (tl snapshotBytes)) of
                 Inl _ \<Rightarrow> Some None
               | Inr jsonBytes \<Rightarrow>
                   (case UnmarshalWorkloadNodes c jsonBytes of
                      Inl _ \<Rightarrow> Some None
                    | Inr workloadNodes \<Rightarrow> Some (Some workloadNodes))))"

fun snapshotLoop :: "'s codec \<Rightarrow> 's list \<Rightarrow> bool option" where
  "snapshotLoop c [] = Some False"
| "snapshotLoop c (snapshot # rest) = do {
     decoded \<leftarrow> decodeSnapshot c snapshot;
     (case decoded of
        None \<Rightarrow> snapshotLoop c rest
      | Some workloadNodes \<Rightarrow>
          (case NodeSelector workloadNodes of
             None \<Rightarrow> snapshotLoop c rest
           | Some s \<Rightarrow>
               if MatchLabels s = None \<and> MatchExpressions s = None then snapshotLoop c rest
               else Some True))
   }"

text \<open>The hook sets one value of the module: the pair of its path and the value.\<close>

definition mainHook :: "'s codec \<Rightarrow> 's list \<Rightarrow> (string \<times> bool) option" where
  "mainHook c snapshots = do {
     shouldEnable \<leftarrow> (if length snapshots = 0 then Some False else snapshotLoop c snapshots);
     Some (ModuleName @ ''.internal.shedulerExtenderEnabled'', shouldEnable)
   }"

end
