(* ===== verification/Registration.thy ===== *)
theory Registration
  imports Hooks
begin

text \<open>
  Data that the program hands to libraries at the start: the API types it registers (\<open>api/v1alpha1/register.go\<close>) and the
  certificates it asks the module SDK for (\<open>hooks/go/020-webhook-certs\<close> and \<open>hooks/go/070-generate-certs\<close>).
  \<open>runtime.Scheme\<close>, \<open>metav1.AddToGroupVersion\<close> and \<open>tlscertificate.DefaultSANs\<close> are code outside the repository and
  parameters. Also the bindings of the other two hooks. Lemmas: what the certificates are for does not clash, and each covers the name of the service it stands for.
\<close>

section \<open>Registration of the API types\<close>

record GroupVersion =
  GVGroup :: string
  GVVersion :: string

record 's scheme_ops =
  AddKnownTypes :: "GroupVersion \<Rightarrow> string list \<Rightarrow> 's \<Rightarrow> 's"
  AddToGroupVersion :: "GroupVersion \<Rightarrow> 's \<Rightarrow> 's"

definition APIGroup :: string where "APIGroup = ''storage.deckhouse.io''"
definition apiVersion :: string where "apiVersion = ''v1alpha1''"
definition APIGroupMC :: string where "APIGroupMC = ''deckhouse.io''"

definition SchemeGroupVersion :: GroupVersion where
  "SchemeGroupVersion = \<lparr>GVGroup = APIGroup, GVVersion = apiVersion\<rparr>"

definition SchemeGroupVersionMC :: GroupVersion where
  "SchemeGroupVersionMC = \<lparr>GVGroup = APIGroupMC, GVVersion = apiVersion\<rparr>"

text \<open>A type is registered under its name, here \<open>NFSStorageClass\<close> and \<open>NFSStorageClassList\<close>.\<close>

definition addKnownTypes :: "'s scheme_ops \<Rightarrow> 's \<Rightarrow> go_error option \<times> 's" where
  "addKnownTypes ops scheme =
    (let scheme = AddKnownTypes ops SchemeGroupVersion [''NFSStorageClass'', ''NFSStorageClassList''] scheme;
         scheme = AddToGroupVersion ops SchemeGroupVersion scheme;
         scheme = AddToGroupVersion ops SchemeGroupVersionMC scheme
     in (None, scheme))"

text \<open>The group and version registered are those under which the module-deletion hook looks for the objects.\<close>

lemma hook_finds_registered_kind:
  "\<forall>gvk \<in> set CRGVKsForFinalizerRemoval.
     Group gvk = GVGroup SchemeGroupVersion \<and> GVKVersion gvk = GVVersion SchemeGroupVersion \<and> GVKKind gvk = ''NFSStorageClass''"
  by (simp add: CRGVKsForFinalizerRemoval_def SchemeGroupVersion_def APIGroup_def apiVersion_def)

section \<open>Certificates\<close>

definition ModulePluralName :: string where "ModulePluralName = ''csi-nfs''"
definition WebhookCertCn :: string where "WebhookCertCn = ''webhooks''"
definition SchedulerCertCn :: string where "SchedulerCertCn = ''scheduler-extender''"

record 'g GenSelfSignedTLSHookConf =
  CommonCACanonicalName :: string
  CertCN :: string
  TLSSecretName :: string
  CertNamespace :: string
  SANs :: 'g
  FullValuesPathPrefix :: string

definition webhookCerts :: "(string list \<Rightarrow> 'g) \<Rightarrow> 'g GenSelfSignedTLSHookConf" where
  "webhookCerts DefaultSANs =
    \<lparr>CommonCACanonicalName = ModulePluralName @ ''-'' @ WebhookCertCn,
     CertCN = WebhookCertCn,
     TLSSecretName = WebhookCertCn @ ''-https-certs'',
     CertNamespace = ModuleNamespace,
     SANs = DefaultSANs
       [WebhookCertCn,
        WebhookCertCn @ ''.'' @ ModuleNamespace,
        WebhookCertCn @ ''.'' @ ModuleNamespace @ ''.svc'',
        ''%CLUSTER_DOMAIN%://'' @ WebhookCertCn @ ''.'' @ ModuleNamespace @ ''.svc''],
     FullValuesPathPrefix = ModuleName @ ''.internal.customWebhookCert''\<rparr>"

definition schedulerExtenderCerts :: "(string list \<Rightarrow> 'g) \<Rightarrow> 'g GenSelfSignedTLSHookConf" where
  "schedulerExtenderCerts DefaultSANs =
    \<lparr>CommonCACanonicalName = ModulePluralName @ ''-'' @ SchedulerCertCn,
     CertCN = ModulePluralName @ ''-'' @ SchedulerCertCn,
     TLSSecretName = SchedulerCertCn @ ''-https-certs'',
     CertNamespace = ModuleNamespace,
     SANs = DefaultSANs
       [ModulePluralName @ ''-'' @ SchedulerCertCn,
        ModulePluralName @ ''-'' @ SchedulerCertCn @ ''.'' @ ModuleNamespace,
        ModulePluralName @ ''-'' @ SchedulerCertCn @ ''.'' @ ModuleNamespace @ ''.svc'',
        ''%CLUSTER_DOMAIN%://'' @ ModulePluralName @ ''-'' @ SchedulerCertCn @ ''.'' @ ModuleNamespace @ ''.svc''],
     FullValuesPathPrefix = ModuleName @ ''.internal.customSchedulerExtenderCert''\<rparr>"

lemmas cert_defs = webhookCerts_def schedulerExtenderCerts_def ModulePluralName_def WebhookCertCn_def SchedulerCertCn_def
  ModuleNamespace_def ModuleName_def

text \<open>The two hooks write to different Secrets and values, under different authorities, and each asks for the address the API server uses:
  the common name, the namespace and \<open>svc\<close>.\<close>

lemma certificates_do_not_clash:
  "CommonCACanonicalName (webhookCerts f) \<noteq> CommonCACanonicalName (schedulerExtenderCerts g)"
  "TLSSecretName (webhookCerts f) \<noteq> TLSSecretName (schedulerExtenderCerts g)"
  "FullValuesPathPrefix (webhookCerts f) \<noteq> FullValuesPathPrefix (schedulerExtenderCerts g)"
  by (simp_all add: cert_defs)

lemma certificates_cover_services:
  "\<forall>c \<in> {webhookCerts set, schedulerExtenderCerts set}.
     {CertCN c, CertCN c @ ''.'' @ CertNamespace c @ ''.svc''} \<subseteq> SANs c"
  by (simp add: cert_defs)

section \<open>Bindings of the hooks\<close>

record KubernetesConfig =
  BindingName :: string
  BindingAPIVersion :: string
  BindingKind :: string
  ExecuteHookOnEvents :: "bool option"
  ExecuteHookOnSynchronization :: "bool option"
  JqFilter :: string
  AllowFailure :: "bool option"

record HookConfig =
  OnAfterDeleteHelm :: "int option"
  Kubernetes :: "KubernetesConfig list"
  ExecutionMinInterval :: int
  ExecutionBurst :: int
  Queue :: string

definition Second :: int where "Second = 10 ^ 9"
definition NFSStorageClassSnapshotName :: string where "NFSStorageClassSnapshotName = ''nfs-storage-classes''"

definition enablerHookConfig :: HookConfig where
  "enablerHookConfig =
    \<lparr>OnAfterDeleteHelm = None,
     Kubernetes =
       [\<lparr>BindingName = NFSStorageClassSnapshotName,
         BindingAPIVersion = ''storage.deckhouse.io/v1alpha1'',
         BindingKind = ''NFSStorageClass'',
         ExecuteHookOnEvents = Some True,
         ExecuteHookOnSynchronization = Some True,
         JqFilter = ''.spec.workloadNodes'',
         AllowFailure = Some True\<rparr>],
     ExecutionMinInterval = 3 * Second,
     ExecutionBurst = 1,
     Queue = ''modules/'' @ ModuleName\<rparr>"

definition configRemoveFinalizersOnModuleDelete :: HookConfig where
  "configRemoveFinalizersOnModuleDelete =
    \<lparr>OnAfterDeleteHelm = Some 10, Kubernetes = [], ExecutionMinInterval = 0, ExecutionBurst = 0, Queue = ''''\<rparr>"

text \<open>The enabler is bound to the registered kind.\<close>

lemma enabler_binds_registered_kind:
  "\<forall>b \<in> set (Kubernetes enablerHookConfig). BindingKind b = ''NFSStorageClass'' \<and>
     BindingAPIVersion b = GVGroup SchemeGroupVersion @ ''/'' @ GVVersion SchemeGroupVersion"
  by (simp add: enablerHookConfig_def SchemeGroupVersion_def APIGroup_def apiVersion_def)

end
