(* ===== verification/Volume_Cleanup.thy ===== *)
theory Volume_Cleanup
  imports Validating "HOL-Library.AList"
begin

text \<open>
  The patch of the CSI driver that wipes a volume before it is deleted,
  \<open>images/csi-nfs/patches/csi-driver-nfs/pkg/nfs/volume_cleanup_{common,ce,ee}.go\<close>.

  The file system is a record of operations on a world \<open>'w\<close>. \<open>WalkEntries\<close> is the sequence of calls \<open>filepath.Walk\<close> makes
  of its callback as long as that returns nil; wiping a file does not change the tree. \<open>Shred\<close> runs the \<open>shred\<close> command.
\<close>

definition volumeCleanupMethodDiscard :: string where "volumeCleanupMethodDiscard = ''Discard''"
definition volumeCleanupMethodSinglePass :: string where "volumeCleanupMethodSinglePass = ''RandomFillSinglePass''"
definition volumeCleanupMethodThreePass :: string where "volumeCleanupMethodThreePass = ''RandomFillThreePass''"
definition driverCleanupMethodKey :: string where "driverCleanupMethodKey = ''volumeCleanup''"

definition getVolumeCleanupMethod :: "smap \<Rightarrow> string \<times> bool \<times> go_error option" where
  "getVolumeCleanupMethod secretData =
    (case fmlookup secretData driverCleanupMethodKey of
       None \<Rightarrow> ('''', False, None)
     | Some val \<Rightarrow>
         if val \<in> {volumeCleanupMethodDiscard, volumeCleanupMethodSinglePass, volumeCleanupMethodThreePass}
         then (val, True, None)
         else ('''', False, Some (ErrorString (''invalid volume cleanup method '' @ val))))"

record FileInfo =
  IsDir :: bool
  IsRegular :: bool
  FileSize :: int

record 'w fsys =
  AbsPath :: "string \<Rightarrow> go_error + string"
  StatNotExist :: "string \<Rightarrow> 'w \<Rightarrow> bool"
  WalkEntries :: "string \<Rightarrow> 'w \<Rightarrow> (string \<times> FileInfo \<times> go_error option) list"
  OpenForWrite :: "string \<Rightarrow> 'w \<Rightarrow> go_error option"
  PunchHole :: "string \<Rightarrow> int \<Rightarrow> 'w \<Rightarrow> go_error option \<times> 'w"
  Shred :: "string \<Rightarrow> int \<Rightarrow> 'w \<Rightarrow> (go_error option \<times> string) \<times> 'w"

definition discardFile :: "'w fsys \<Rightarrow> string \<Rightarrow> FileInfo \<Rightarrow> 'w \<Rightarrow> go_error option \<times> 'w" where
  "discardFile fs filePath info w =
    (case OpenForWrite fs filePath w of
       Some e \<Rightarrow> (Some (WrapError (''failed to open file '' @ filePath @ '' for discard: '') e), w)
     | None \<Rightarrow>
         (case PunchHole fs filePath (FileSize info) w of
            (Some e, w) \<Rightarrow> (Some (WrapError (''discard (punch hole) failed for file '' @ filePath @ '': '') e), w)
          | (None, w) \<Rightarrow> (None, w)))"

text \<open>The error wraps \<open>%w\<close> in the middle of the format; its message ends with the output of the command.\<close>

definition shredFile :: "'w fsys \<Rightarrow> string \<Rightarrow> FileInfo \<Rightarrow> int \<Rightarrow> 'w \<Rightarrow> go_error option \<times> 'w" where
  "shredFile fs filePath info passes w =
    (case Shred fs filePath passes w of
       ((Some e, out), w) \<Rightarrow> (Some (ErrorString (''shred shred failed for file '' @ filePath @ '': '' @ Error_msg e @ '', output: '' @ out)), w)
     | ((None, out), w) \<Rightarrow> (None, w))"

definition cleanupFile :: "'w fsys \<Rightarrow> FileInfo \<Rightarrow> string \<Rightarrow> string \<Rightarrow> 'w \<Rightarrow> go_error option \<times> 'w" where
  "cleanupFile fs info filePath volumeCleanupMethod w =
    (if \<not> IsRegular info then (None, w)
     else if volumeCleanupMethod = volumeCleanupMethodDiscard then discardFile fs filePath info w
     else if volumeCleanupMethod = volumeCleanupMethodSinglePass then shredFile fs filePath info 1 w
     else if volumeCleanupMethod = volumeCleanupMethodThreePass then shredFile fs filePath info 3 w
     else (Some (ErrorString (''invalid volume cleanup method '' @ volumeCleanupMethod)), w))"

fun walkLoop :: "'w fsys \<Rightarrow> string \<Rightarrow> (string \<times> FileInfo \<times> go_error option) list \<Rightarrow> 'w \<Rightarrow> go_error option \<times> 'w" where
  "walkLoop fs volumeCleanupMethod [] w = (None, w)"
| "walkLoop fs volumeCleanupMethod ((path, info, walkErr) # rest) w =
    (case walkErr of
       Some e \<Rightarrow> (Some (WrapError (''walking error for '' @ path @ '': '') e), w)
     | None \<Rightarrow>
         if \<not> IsDir info then
           (case cleanupFile fs info path volumeCleanupMethod w of
              (Some e, w) \<Rightarrow> (Some e, w)
            | (None, w) \<Rightarrow> walkLoop fs volumeCleanupMethod rest w)
         else walkLoop fs volumeCleanupMethod rest w)"

text \<open>The Community Edition has its own \<open>cleanupVolume\<close>, which only logs.\<close>

definition cleanupVolume :: "edition \<Rightarrow> 'w fsys \<Rightarrow> string \<Rightarrow> string \<Rightarrow> 'w \<Rightarrow> go_error option \<times> 'w" where
  "cleanupVolume ed fs volumePath volumeCleanupMethod w =
    (if ed = CE then (None, w)
     else if \<not> VolumeCleanupEnabled ed then (None, w)
     else (case AbsPath fs volumePath of
             Inl e \<Rightarrow> (Some (WrapError (''getting absolute path for '' @ volumePath @ '': '') e), w)
           | Inr absPath \<Rightarrow>
               if StatNotExist fs absPath w then (None, w)
               else (case walkLoop fs volumeCleanupMethod (WalkEntries fs absPath w) w of
                       (Some e, w) \<Rightarrow> (Some (WrapError (''error while walking through volume directory '' @ absPath @ '': '') e), w)
                     | (None, w) \<Rightarrow> (None, w))))"

section \<open>Wiping\<close>

text \<open>\<open>wiped w p\<close>: the content of the file at \<open>p\<close> was overwritten. Punching a hole wipes a file if the hole covers its size.\<close>

locale cleanup_laws =
  fixes fs :: "'w fsys" and wiped :: "'w \<Rightarrow> string \<Rightarrow> bool" and size_of :: "string \<Rightarrow> int"
  assumes punch: "PunchHole fs p n w = (None, w') \<Longrightarrow> n \<ge> size_of p \<Longrightarrow> wiped w' p"
    and punch_keeps: "PunchHole fs p n w = (r, w') \<Longrightarrow> wiped w q \<Longrightarrow> wiped w' q"
    and shred: "Shred fs p n w = ((None, out), w') \<Longrightarrow> n \<ge> 1 \<Longrightarrow> wiped w' p"
    and shred_keeps: "Shred fs p n w = (res, w') \<Longrightarrow> wiped w q \<Longrightarrow> wiped w' q"
    and sizes: "(p, info, e) \<in> set (WalkEntries fs root w) \<Longrightarrow> IsRegular info \<Longrightarrow> FileSize info = size_of p"
begin

lemma cleanupFile_keeps:
  assumes "cleanupFile fs info p m w = (r, w')" and "wiped w q"
  shows "wiped w' q"
proof -
  obtain r1 w1 where p: "PunchHole fs p (FileSize info) w = (r1, w1)" by fastforce
  obtain r2 o2 w2 where s1: "Shred fs p 1 w = ((r2, o2), w2)" by (metis surj_pair)
  obtain r3 o3 w3 where s3: "Shred fs p 3 w = ((r3, o3), w3)" by (metis surj_pair)
  from assms p s1 s3 punch_keeps [OF p, of q] shred_keeps [OF s1, of q] shred_keeps [OF s3, of q] show ?thesis
    by (auto simp: cleanupFile_def discardFile_def shredFile_def split: if_splits option.splits)
qed

lemma cleanupFile_wipes:
  assumes "cleanupFile fs info p m w = (None, w')" and "IsRegular info" and "FileSize info = size_of p"
  shows "wiped w' p"
proof -
  obtain r1 w1 where p: "PunchHole fs p (FileSize info) w = (r1, w1)" by fastforce
  obtain r2 o2 w2 where s1: "Shred fs p 1 w = ((r2, o2), w2)" by (metis surj_pair)
  obtain r3 o3 w3 where s3: "Shred fs p 3 w = ((r3, o3), w3)" by (metis surj_pair)
  from assms p s1 s3 punch [of p "FileSize info" w w1] shred [of p 1 w o2 w2] shred [of p 3 w o3 w3] show ?thesis
    by (auto simp: cleanupFile_def discardFile_def shredFile_def split: if_splits option.splits)
qed

lemma walkLoop_keeps: "walkLoop fs m es w = (r, w') \<Longrightarrow> wiped w q \<Longrightarrow> wiped w' q"
proof (induction es arbitrary: w)
  case (Cons entry es)
  obtain p info e where entry: "entry = (p, info, e)" by (metis surj_pair)
  obtain c w1 where c: "cleanupFile fs info p m w = (c, w1)" by fastforce
  from Cons c cleanupFile_keeps [OF c Cons.prems(2)] show ?case
    by (auto simp: entry split: option.splits if_splits)
qed simp

lemma walkLoop_wipes:
  assumes "walkLoop fs m es w = (None, w')"
    and "\<And>p info e. (p, info, e) \<in> set es \<Longrightarrow> IsRegular info \<Longrightarrow> FileSize info = size_of p"
    and "(p, info, e) \<in> set es"
  shows "e = None \<and> (IsRegular info \<and> \<not> IsDir info \<longrightarrow> wiped w' p)"
  using assms
proof (induction es arbitrary: w)
  case (Cons entry es)
  obtain p1 info1 e1 where entry: "entry = (p1, info1, e1)" by (metis surj_pair)
  obtain c w1 where c: "cleanupFile fs info1 p1 m w = (c, w1)" by fastforce
  from Cons.prems(1) entry have e1: "e1 = None" by (cases e1) auto
  obtain w2 where w2: "walkLoop fs m es w2 = (None, w')" and first: "IsRegular info1 \<and> \<not> IsDir info1 \<Longrightarrow> wiped w2 p1"
  proof (cases "IsDir info1")
    case True
    with Cons.prems(1) entry e1 show thesis by (intro that [of w]) auto
  next
    case False
    with Cons.prems(1) entry e1 c have "c = None" "walkLoop fs m es w1 = (None, w')" by (cases c; simp)+
    with c cleanupFile_wipes [of info1 p1 m w w1] Cons.prems(2) [of p1 info1 e1] entry show thesis
      by (intro that [of w1]) auto
  qed
  show ?case
  proof (cases "(p, info, e) \<in> set es")
    case True
    show ?thesis by (rule Cons.IH [OF w2 _ True]) (use Cons.prems(2) in auto)
  next
    case False
    with Cons.prems(3) entry have eq: "p = p1" "info = info1" "e = e1" by auto
    show ?thesis using e1 first walkLoop_keeps [OF w2] eq by simp
  qed
qed simp

end

text \<open>A file system in memory: the world is the list of wiped files.\<close>

definition flat_fs :: "(string \<times> int) list \<Rightarrow> string list fsys" where
  "flat_fs files = \<lparr>AbsPath = (\<lambda>p. Inr (''/mnt/'' @ p)), StatNotExist = (\<lambda>_ _. False),
     WalkEntries = (\<lambda>root _. (root, \<lparr>IsDir = True, IsRegular = False, FileSize = 0\<rparr>, None) #
        map (\<lambda>(p, n). (p, \<lparr>IsDir = False, IsRegular = True, FileSize = n\<rparr>, None)) (AList.clearjunk files)),
     OpenForWrite = (\<lambda>_ _. None), PunchHole = (\<lambda>p n w. (None, if n \<ge> (case map_of files p of None \<Rightarrow> 0 | Some s \<Rightarrow> s) then p # w else w)),
     Shred = (\<lambda>p n w. ((None, ''''), p # w))\<rparr>"

interpretation flat: cleanup_laws "flat_fs files" "\<lambda>w p. p \<in> set w" "\<lambda>p. case map_of files p of None \<Rightarrow> 0 | Some s \<Rightarrow> s"
proof
  fix p info e root w
  assume "(p, info, e) \<in> set (WalkEntries (flat_fs files) root w)" and "IsRegular info"
  then have "(p, FileSize info) \<in> set (AList.clearjunk files)" by (auto simp: flat_fs_def)
  then have "map_of files p = Some (FileSize info)"
    by (metis distinct_clearjunk map_of_clearjunk map_of_eq_Some_iff)
  then show "FileSize info = (case map_of files p of None \<Rightarrow> 0 | Some s \<Rightarrow> s)" by simp
qed (auto simp: flat_fs_def split: if_splits)

section \<open>Properties\<close>

text \<open>C24: Wiping is complete. In an edition with volume cleanup, when \<open>cleanupVolume\<close> succeeds on an existing directory, the walk met
  no error and every regular file it visited has been wiped.\<close>

theorem cleanup_wipes_every_file:
  assumes "cleanup_laws fs wiped size_of" and "VolumeCleanupEnabled ed" and "AbsPath fs path = Inr root"
    and "\<not> StatNotExist fs root w" and "cleanupVolume ed fs path m w = (None, w')"
    and "(p, info, e) \<in> set (WalkEntries fs root w)"
  shows "e = None \<and> (IsRegular info \<and> \<not> IsDir info \<longrightarrow> wiped w' p)"
proof -
  have ce: "ed \<noteq> CE" using assms(2) by (auto simp: VolumeCleanupEnabled_def)
  have "walkLoop fs m (WalkEntries fs root w) w = (None, w')"
    using assms(2,3,4,5) ce by (auto simp: cleanupVolume_def split: prod.splits option.splits)
  then show ?thesis
    using cleanup_laws.walkLoop_wipes [OF assms(1) _ _ assms(6)] cleanup_laws.sizes [OF assms(1)] by blast
qed

theorem cleanup_wipes_every_file_witness:
  "let fs = flat_fs [(''/mnt/v/a'', 10), (''/mnt/v/b'', 0)] in
     \<exists>w'. cleanupVolume EE fs ''v'' ''Discard'' [] = (None, w') \<and> ''/mnt/v/a'' \<in> set w'"
proof -
  let ?fs = "flat_fs [(''/mnt/v/a'', 10), (''/mnt/v/b'', 0)]"
  have "fst (cleanupVolume EE ?fs ''v'' ''Discard'' []) = None" by code_simp
  then obtain w' where w': "cleanupVolume EE ?fs ''v'' ''Discard'' [] = (None, w')" by (metis prod.collapse)
  have "(''/mnt/v/a'', \<lparr>IsDir = False, IsRegular = True, FileSize = 10\<rparr>, None) \<in> set (WalkEntries ?fs ''/mnt/v'' [])"
    by (simp add: flat_fs_def)
  from cleanup_wipes_every_file [OF flat.cleanup_laws_axioms _ _ _ w' this] have "''/mnt/v/a'' \<in> set w'"
    by (simp add: VolumeCleanupEnabled_def flat_fs_def)
  with w' show ?thesis by simp
qed

end
