(* ===== verification/Go_Paths.thy ===== *)
theory Go_Paths
  imports Prelude
begin

text \<open>
  The functions of \<open>path/filepath\<close> the program calls, for Unix paths: \<open>Clean\<close>, \<open>Join\<close>, \<open>Base\<close> and \<open>Dir\<close>,
  and the base name of a joined path.
\<close>

section \<open>Definitions\<close>

definition Slash :: char where "Slash = CHR ''/''"

fun cleanParts :: "bool \<Rightarrow> string list \<Rightarrow> string list \<Rightarrow> string list" where
  "cleanParts rooted [] acc = acc"
| "cleanParts rooted (p # ps) acc =
     (if p = '''' \<or> p = ''.'' then cleanParts rooted ps acc
      else if p = ''..'' then
        cleanParts rooted ps
          (if acc \<noteq> [] \<and> last acc \<noteq> ''..'' then butlast acc else if rooted then acc else acc @ [''..''])
      else cleanParts rooted ps (acc @ [p]))"

definition Clean :: "string \<Rightarrow> string" where
  "Clean path =
    (let rooted = HasPrefix path ''/'';
         r = (if rooted then ''/'' else '''') @ Join (cleanParts rooted (Split path Slash) []) ''/''
     in if r = '''' then ''.'' else r)"

definition PathJoin :: "string list \<Rightarrow> string" where
  "PathJoin elems = (case dropWhile (\<lambda>e. e = '''') elems of [] \<Rightarrow> '''' | es \<Rightarrow> Clean (Join es ''/''))"

definition Base :: "string \<Rightarrow> string" where
  "Base path =
    (if path = '''' then ''.''
     else let p = rev (dropWhile (\<lambda>c. c = Slash) (rev path))
          in if p = '''' then ''/'' else rev (takeWhile (\<lambda>c. c \<noteq> Slash) (rev p)))"

definition Dir :: "string \<Rightarrow> string" where
  "Dir path = Clean (rev (dropWhile (\<lambda>c. c \<noteq> Slash) (rev path)))"

section \<open>Facts\<close>

lemma Split_snoc: "c \<notin> set p \<Longrightarrow> Split (s @ c # p) c = Split s c @ [p]"
proof (induction s)
  case (Cons x s)
  obtain q qs where "Split s c = q # qs" by (meson Split_not_Nil neq_Nil_conv)
  with Cons show ?case by simp
qed (simp add: Split_no_sep)

lemma cleanParts_snoc:
  "p \<notin> {'''', ''.'', ''..''} \<Longrightarrow> cleanParts rooted (ps @ [p]) acc = cleanParts rooted ps acc @ [p]"
  by (induction rooted ps acc rule: cleanParts.induct) auto

lemma Join_snoc: "Join (ps @ [p]) sep = (if ps = [] then p else Join ps sep @ sep @ p)"
  by (induction ps sep rule: Join.induct) auto

lemma Base_file:
  assumes "p \<noteq> ''''" and "Slash \<notin> set p" and "s = '''' \<or> last s = Slash"
  shows "Base (s @ p) = p"
proof -
  have "last p \<noteq> Slash" using assms(1,2) by (metis last_in_set)
  then obtain x xs where p: "rev p = x # xs" "x \<noteq> Slash" using assms(1)
    by (metis hd_rev list.exhaust_sel rev_is_Nil_conv)
  have "takeWhile (\<lambda>c. c \<noteq> Slash) (rev p @ rev s) = rev p"
  proof -
    have all: "\<forall>c \<in> set (rev p). c \<noteq> Slash" using assms(2) by auto
    have "takeWhile (\<lambda>c. c \<noteq> Slash) (rev s) = []"
    proof (cases "s = ''''")
      case False
      with assms(3) obtain ss where "rev s = Slash # ss" by (metis hd_rev list.exhaust_sel rev_is_Nil_conv)
      then show ?thesis by simp
    qed simp
    then show ?thesis using all by (subst takeWhile_append2) auto
  qed
  moreover have "dropWhile (\<lambda>c. c = Slash) (rev p @ rev s) = rev p @ rev s" using p by simp
  ultimately show ?thesis using assms(1) by (simp add: Base_def Let_def)
qed

lemma Base_PathJoin:
  assumes "p \<notin> {'''', ''.'', ''..''}" and "Slash \<notin> set p"
  shows "Base (PathJoin [dir, p]) = p"
proof -
  obtain s where s: "PathJoin [dir, p] = s @ p" "s = '''' \<or> last s = Slash"
  proof (cases "dir = ''''")
    case True
    have "\<not> HasPrefix p ''/''" using assms by (cases p) (auto simp: HasPrefix_def Slash_def)
    moreover have "cleanParts False (Split p Slash) [] = [p]" using assms by (simp add: Split_no_sep)
    ultimately have "PathJoin [dir, p] = p" using True assms(1) by (simp add: PathJoin_def Clean_def Let_def)
    then show thesis by (intro that [of "''''"]) simp_all
  next
    case False
    let ?path = "dir @ Slash # p" and ?r = "HasPrefix (dir @ Slash # p) ''/''"
    let ?ps = "cleanParts ?r (Split dir Slash) []"
    have "cleanParts ?r (Split ?path Slash) [] = ?ps @ [p]"
      using assms by (simp add: Split_snoc cleanParts_snoc)
    then have "PathJoin [dir, p] = (if ?r then ''/'' else '''') @ (if ?ps = [] then '''' else Join ?ps ''/'' @ ''/'') @ p"
      using False assms(1) by (simp add: PathJoin_def Clean_def Let_def Join_snoc Slash_def)
    moreover have "last ((if ?r then ''/'' else '''') @ (if ?ps = [] then '''' else Join ?ps ''/'' @ ''/'')) = Slash \<or>
        (if ?r then ''/'' else '''') @ (if ?ps = [] then '''' else Join ?ps ''/'' @ ''/'') = ''''"
      by (auto simp: Slash_def)
    ultimately show thesis using that by (metis append.assoc)
  qed
  with Base_file [OF _ assms(2) s(2)] assms(1) show ?thesis by simp
qed

end
