(* ===== verification/Launchers.thy ===== *)
theory Launchers
  imports Go_Paths
begin

text \<open>
  The three small programs of the driver's containers: \<open>images/wrap-mount\<close>, which runs mount and umount without touching
  \<open>/etc/mtab\<close>, \<open>images/wait-rpcbind\<close>, which waits for rpcbind, and \<open>images/tlshd\<close>, which starts the TLS handshake daemon.

  What the operating system answers is an argument: the result of \<open>LookPath\<close>, the sequence of observations a loop makes, the event a
  \<open>select\<close> receives. Logging is left out; \<open>log.Fatalf\<close> and \<open>os.Exit(1)\<close> are \<open>ExitCode 1\<close>.
\<close>

datatype process_end = Exec string "string list" | ExitCode nat | IndexPanic

section \<open>wrap-mount\<close>

definition isNoMtab :: "string \<Rightarrow> bool" where
  "isNoMtab arg \<longleftrightarrow> arg = ''-n'' \<or> length arg > 2 \<and> take 3 arg = ''-n,''"

fun addNLoop :: "string list \<Rightarrow> bool" where
  "addNLoop [] = True"
| "addNLoop (arg # args) = (if isNoMtab arg then False else addNLoop args)"

definition syscallExec :: "(string \<Rightarrow> go_error + string) \<Rightarrow> (string \<Rightarrow> go_error option) \<Rightarrow> string \<Rightarrow> string list \<Rightarrow> process_end" where
  "syscallExec LookPath execErr cmd args =
    (case LookPath cmd of
       Inl _ \<Rightarrow> ExitCode 1
     | Inr binary \<Rightarrow> (case execErr binary of Some _ \<Rightarrow> ExitCode 1 | None \<Rightarrow> Exec binary (cmd # args)))"

definition wrapMount :: "(string \<Rightarrow> go_error + string) \<Rightarrow> (string \<Rightarrow> go_error option) \<Rightarrow> string list \<Rightarrow> process_end" where
  "wrapMount LookPath execErr os_Args =
    (case os_Args of
       [] \<Rightarrow> IndexPanic
     | arg0 # args \<Rightarrow>
         (let cmdName = Base arg0;
              args' = (if addNLoop args then ''-n'' # args else args)
          in if cmdName = ''mount'' then syscallExec LookPath execErr ''originalmount'' args'
             else if cmdName = ''umount'' then syscallExec LookPath execErr ''originalumount'' args'
             else ExitCode 1))"

lemma addNLoop_iff: "addNLoop args \<longleftrightarrow> \<not> list_ex isNoMtab args"
  by (induction args) auto

text \<open>The wrapped command runs with exactly one change: whenever \<open>wrapMount\<close> replaces the process, it runs the original of
  the command it was called as, the arguments are those given, in order, with at most \<open>-n\<close> put in front, and one of them says not to write
  \<open>/etc/mtab\<close>; nothing is added if one already did.\<close>

lemma wrap_mount_adds_no_mtab:
  "wrapMount LookPath execErr (arg0 # args) = Exec binary argv \<longleftrightarrow>
   (\<exists>cmd \<in> {''mount'', ''umount''}. Base arg0 = cmd \<and> LookPath (''original'' @ cmd) = Inr binary \<and> execErr binary = None \<and>
      argv = (''original'' @ cmd) # (if list_ex isNoMtab args then args else ''-n'' # args)) \<and>
   list_ex isNoMtab (tl argv)"
  by (auto simp: wrapMount_def syscallExec_def addNLoop_iff isNoMtab_def Let_def split: sum.splits option.splits if_splits)

section \<open>wait-rpcbind\<close>

text \<open>What one turn of the loop sees: a signal that arrived, the result of \<open>Lstat\<close> (whether it is a socket) and the error of dialling.\<close>

record Observation =
  SignalName :: "string option"
  LstatSocket :: "go_error + bool"
  DialError :: "go_error option"

datatype wait_result = Terminated string | Ready

partial_function (option) waitLoop :: "(nat \<Rightarrow> Observation) \<Rightarrow> nat \<Rightarrow> wait_result option" where
  "waitLoop obs i =
    (case SignalName (obs i) of
       Some sigName \<Rightarrow> Some (Terminated sigName)
     | None \<Rightarrow>
         (case LstatSocket (obs i) of
            Inl err \<Rightarrow> waitLoop obs (Suc i)
          | Inr isSocket \<Rightarrow>
              if isSocket \<and> DialError (obs i) = None then Some Ready else waitLoop obs (Suc i)))"

declare waitLoop.simps [code]

definition waitMain :: "(nat \<Rightarrow> Observation) \<Rightarrow> wait_result option" where
  "waitMain obs = waitLoop obs 0"

text \<open>What a turn decides: end on a signal, success on a socket that accepts a connection, else wait on.\<close>

definition decision :: "Observation \<Rightarrow> wait_result option" where
  "decision ob =
     (case SignalName ob of
        Some s \<Rightarrow> Some (Terminated s)
      | None \<Rightarrow> if LstatSocket ob = Inr True \<and> DialError ob = None then Some Ready else None)"

lemma waitLoop_step: "waitLoop obs i = (case decision (obs i) of Some r \<Rightarrow> Some r | None \<Rightarrow> waitLoop obs (Suc i))"
  by (subst waitLoop.simps) (auto simp: decision_def split: option.splits sum.splits)

lemma waitLoop_reaches:
  "decision (obs (i + n)) = Some r \<Longrightarrow> (\<And>j. j < n \<Longrightarrow> decision (obs (i + j)) = None) \<Longrightarrow> waitLoop obs i = Some r"
proof (induction n arbitrary: i)
  case 0
  then show ?case by (simp add: waitLoop_step [of obs i])
next
  case (Suc n)
  have "decision (obs (Suc i + j)) = None" if "j < n" for j using Suc.prems(2) [of "Suc j"] that by simp
  then have "waitLoop obs (Suc i) = Some r" using Suc.IH [of "Suc i"] Suc.prems(1) by simp
  with Suc.prems(2) [of 0] show ?case by (simp add: waitLoop_step [of obs i])
qed

lemma waitLoop_result:
  assumes "waitLoop obs i = Some r"
  shows "\<exists>n. decision (obs (i + n)) = Some r \<and> (\<forall>j < n. decision (obs (i + j)) = None)"
proof (rule waitLoop.raw_induct [where P = "\<lambda>obs i r. \<exists>n. decision (obs (i + n)) = Some r \<and> (\<forall>j < n. decision (obs (i + j)) = None)", OF _ assms])
  fix f obs i r
  assume IH: "\<And>obs i r. f obs i = Some r \<Longrightarrow> \<exists>n. decision (obs (i + n)) = Some r \<and> (\<forall>j < n. decision (obs (i + j)) = None)"
    and step: "(case SignalName (obs i) of Some sigName \<Rightarrow> Some (Terminated sigName)
      | None \<Rightarrow> (case LstatSocket (obs i) of Inl err \<Rightarrow> f obs (Suc i)
          | Inr isSocket \<Rightarrow> if isSocket \<and> DialError (obs i) = None then Some Ready else f obs (Suc i))) = Some r"
  show "\<exists>n. decision (obs (i + n)) = Some r \<and> (\<forall>j < n. decision (obs (i + j)) = None)"
  proof (cases "decision (obs i)")
    case (Some r')
    with step have "decision (obs (i + 0)) = Some r" by (auto simp: decision_def split: option.splits sum.splits if_splits)
    then show ?thesis by (metis less_zeroE)
  next
    case None
    with step have "f obs (Suc i) = Some r" by (auto simp: decision_def split: option.splits sum.splits if_splits)
    from IH [OF this] obtain n where n: "decision (obs (Suc i + n)) = Some r" "\<forall>j < n. decision (obs (Suc i + j)) = None" by blast
    have "\<forall>j < Suc n. decision (obs (i + j)) = None"
      using n(2) None by (metis add.right_neutral add_Suc_shift less_Suc_eq_0_disj)
    with n(1) show ?thesis by (metis add_Suc_shift)
  qed
qed

text \<open>C34: Waiting ends exactly at the first turn that decides: the program returns a result if and only if some turn sees a signal or a
  socket that accepts a connection, and the result is that of the first such turn; otherwise it waits forever.\<close>

theorem wait_ends_at_first_decision:
  "waitMain obs = Some r \<longleftrightarrow> (\<exists>n. decision (obs n) = Some r \<and> (\<forall>j < n. decision (obs j) = None))"
proof
  assume "waitMain obs = Some r"
  then show "\<exists>n. decision (obs n) = Some r \<and> (\<forall>j < n. decision (obs j) = None)"
    using waitLoop_result [of obs 0 r] by (simp add: waitMain_def)
next
  assume "\<exists>n. decision (obs n) = Some r \<and> (\<forall>j < n. decision (obs j) = None)"
  then show "waitMain obs = Some r" using waitLoop_reaches [of obs 0 _ r] by (auto simp: waitMain_def)
qed

theorem wait_ends_at_first_decision_witness:
  "waitMain (\<lambda>i. \<lparr>SignalName = None, LstatSocket = (if i < 2 then Inl (ErrorString ''no such file'') else Inr True),
     DialError = (if i = 2 then Some (ErrorString ''connection refused'') else None)\<rparr>) = Some Ready"
proof -
  let ?obs = "\<lambda>i :: nat. \<lparr>SignalName = None, LstatSocket = (if i < 2 then Inl (ErrorString ''no such file'') else Inr True),
     DialError = (if i = 2 then Some (ErrorString ''connection refused'') else None)\<rparr>"
  have "decision (?obs 3) = Some Ready" by (simp add: decision_def)
  moreover have "decision (?obs j) = None" if "j < 3" for j
    using that by (cases "j < 2") (auto simp: decision_def)
  ultimately show ?thesis using wait_ends_at_first_decision [of ?obs Ready] by blast
qed

section \<open>tlshd\<close>

record Opt =
  TimeoutWait :: nat
  Mode :: string

definition quoted :: "string \<Rightarrow> string" where
  "quoted s = [CHR 0x27] @ s @ [CHR 0x27]"

text \<open>The check of the flags; an error ends the program with code 1.\<close>

definition parseCheck :: "Opt \<Rightarrow> go_error option" where
  "parseCheck opt =
    (if Mode opt \<noteq> ''containers'' \<and> Mode opt \<noteq> ''init-containers'' then Some (ErrorString (''invalid '' @ quoted ''mode''))
     else if TimeoutWait opt = 0 \<or> TimeoutWait opt > 30 then Some (ErrorString (''invalid '' @ quoted ''timeout-wait''))
     else None)"

text \<open>The regular expression \<open>\s+is\s+not\s+available\<close>, unanchored.\<close>

definition re_space :: "char \<Rightarrow> bool" where
  "re_space c \<longleftrightarrow> c \<in> {CHR 0x09, CHR 0x0A, CHR 0x0C, CHR 0x0D, CHR '' ''}"

definition skipSpaces :: "string \<Rightarrow> string option" where
  "skipSpaces s = (if s \<noteq> [] \<and> re_space (hd s) then Some (dropWhile re_space s) else None)"

definition skipWord :: "string \<Rightarrow> string \<Rightarrow> string option" where
  "skipWord word s = (if HasPrefix s word then Some (drop (length word) s) else None)"

definition skipToken :: "string \<Rightarrow> string \<Rightarrow> string option" where
  "skipToken word s = do { s \<leftarrow> skipSpaces s; skipWord word s }"

definition matchHere :: "string \<Rightarrow> bool" where
  "matchHere s \<longleftrightarrow> (do { s \<leftarrow> skipToken ''is'' s; s \<leftarrow> skipToken ''not'' s; skipToken ''available'' s }) \<noteq> None"

fun matchNotAvailable :: "string \<Rightarrow> bool" where
  "matchNotAvailable [] = False"
| "matchNotAvailable (c # cs) = (matchHere (c # cs) \<or> matchNotAvailable cs)"

datatype event = ContextDone | ProcessDone "go_error option" | GotSignal string

text \<open>What comes of SIGTERM: it cannot be sent, the process ends, or it goes on and \<open>done\<close> is never sent to.\<close>

datatype sigterm = SignalFails go_error | ThenEnds "go_error option" | NeverEnds

text \<open>\<open>None\<close>: the program waits forever. In the other cases \<open>main\<close> returns whatever the outcome is.\<close>

definition terminateProcessGracefully :: "sigterm \<Rightarrow> process_end option" where
  "terminateProcessGracefully sig =
    (case sig of
       SignalFails err \<Rightarrow> Some (ExitCode 0)
     | ThenEnds err \<Rightarrow> Some (ExitCode 0)
     | NeverEnds \<Rightarrow> None)"

definition selectEvent :: "event \<Rightarrow> sigterm \<Rightarrow> string \<Rightarrow> process_end option" where
  "selectEvent ev sig stderrBuf =
    (case ev of
       ContextDone \<Rightarrow> terminateProcessGracefully sig
     | ProcessDone err \<Rightarrow>
         if err \<noteq> None then Some (ExitCode 1)
         else if matchNotAvailable stderrBuf then Some (ExitCode 1) else Some (ExitCode 0)
     | GotSignal s \<Rightarrow> terminateProcessGracefully sig)"

definition tlshdMain :: "Opt \<Rightarrow> go_error option \<Rightarrow> go_error option \<Rightarrow> event \<Rightarrow> sigterm \<Rightarrow> string \<Rightarrow> process_end option" where
  "tlshdMain opt execErr startErr ev sig stderrBuf =
    (if parseCheck opt \<noteq> None then Some (ExitCode 1)
     else
       (let path = ''/usr/bin/tlshd''; args = [''-s'', ''-c'', ''/etc/tlshd.conf''] in
        if Mode opt = ''init-containers'' then
          (if startErr \<noteq> None then Some (ExitCode 1) else selectEvent ev sig stderrBuf)
        else if execErr \<noteq> None then Some (ExitCode 1)
        else Some (Exec path (path # args))))"

definition spaces :: "string \<Rightarrow> bool" where
  "spaces ws \<longleftrightarrow> ws \<noteq> [] \<and> list_all re_space ws"

lemma dropWhile_spaces:
  assumes "list_all re_space ws" and "t = [] \<or> \<not> re_space (hd t)"
  shows "dropWhile re_space (ws @ t) = t"
proof -
  have "dropWhile re_space (ws @ t) = dropWhile re_space t" using assms(1) by (simp add: dropWhile_append2 list_all_iff)
  also have "\<dots> = t" using assms(2) by (cases t) auto
  finally show ?thesis .
qed

lemma skipToken_Some:
  assumes "word \<noteq> []" and "\<not> re_space (hd word)"
  shows "skipToken word s = Some t \<longleftrightarrow> (\<exists>ws. spaces ws \<and> s = ws @ word @ t)"
proof
  assume "skipToken word s = Some t"
  then have s: "s \<noteq> []" "re_space (hd s)" and w: "HasPrefix (dropWhile re_space s) word" "t = drop (length word) (dropWhile re_space s)"
    by (auto simp: skipToken_def skipSpaces_def skipWord_def split: if_splits)
  have "dropWhile re_space s = word @ t" using w by (auto simp: HasPrefix_def) (metis append_take_drop_id)
  then have "s = takeWhile re_space s @ word @ t" by (metis takeWhile_dropWhile_id)
  moreover have "spaces (takeWhile re_space s)" using s
    by (cases s) (auto simp: spaces_def list_all_iff dest: set_takeWhileD)
  ultimately show "\<exists>ws. spaces ws \<and> s = ws @ word @ t" by blast
next
  assume "\<exists>ws. spaces ws \<and> s = ws @ word @ t"
  then obtain ws where ws: "spaces ws" "s = ws @ word @ t" by blast
  have "dropWhile re_space s = word @ t"
    unfolding ws(2) using ws(1) assms by (intro dropWhile_spaces) (auto simp: spaces_def)
  moreover have "s \<noteq> []" "re_space (hd s)" using ws by (auto simp: spaces_def list_all_iff hd_append)
  ultimately show "skipToken word s = Some t"
    by (simp add: skipToken_def skipSpaces_def skipWord_def HasPrefix_def)
qed

definition says_not_available :: "string \<Rightarrow> bool" where
  "says_not_available s \<longleftrightarrow> (\<exists>a w1 w2 w3 b. spaces w1 \<and> spaces w2 \<and> spaces w3 \<and>
     s = a @ w1 @ ''is'' @ w2 @ ''not'' @ w3 @ ''available'' @ b)"

lemma matchHere_iff:
  "matchHere s \<longleftrightarrow> (\<exists>w1 w2 w3 b. spaces w1 \<and> spaces w2 \<and> spaces w3 \<and> s = w1 @ ''is'' @ w2 @ ''not'' @ w3 @ ''available'' @ b)"
proof -
  have words: "''is'' \<noteq> []" "\<not> re_space (hd ''is'')" "''not'' \<noteq> []" "\<not> re_space (hd ''not'')"
    "''available'' \<noteq> []" "\<not> re_space (hd ''available'')"
    by (simp_all add: re_space_def)
  note toks = skipToken_Some [OF words(1,2)] skipToken_Some [OF words(3,4)] skipToken_Some [OF words(5,6)]
  have "matchHere s \<longleftrightarrow> (\<exists>s1 s2 b. skipToken ''is'' s = Some s1 \<and> skipToken ''not'' s1 = Some s2 \<and> skipToken ''available'' s2 = Some b)"
    unfolding matchHere_def not_None_eq bind_eq_Some_conv by blast
  then show ?thesis unfolding toks by blast
qed

lemma matchNotAvailable_iff: "matchNotAvailable s \<longleftrightarrow> says_not_available s"
proof -
  have "matchNotAvailable s \<longleftrightarrow> (\<exists>a b. s = a @ b \<and> matchHere b)"
  proof (induction s)
    case Nil
    have "\<not> matchHere []" by (simp add: matchHere_def skipToken_def skipSpaces_def)
    then show ?case by simp
  next
    case (Cons c s)
    have "(\<exists>a b. c # s = a @ b \<and> matchHere b) \<longleftrightarrow> matchHere (c # s) \<or> (\<exists>a b. s = a @ b \<and> matchHere b)"
      by (metis Cons_eq_append_conv)
    with Cons show ?case by simp
  qed
  then show ?thesis unfolding matchHere_iff says_not_available_def by blast
qed

text \<open>C35: As an init container the program fails exactly if the flags are invalid, the daemon cannot be started, or it ends with an
  error or with the message that the handshake service is not available, which the daemon reports with exit code 0. A timeout or a signal
  is a success, unless the daemon survives SIGTERM: then the program waits for it forever, the timeout notwithstanding.\<close>

theorem tlshd_exit_code:
  assumes "Mode opt = ''init-containers''"
  shows "tlshdMain opt execErr startErr ev sig stderrBuf =
    (if TimeoutWait opt \<notin> {1..30} \<or> startErr \<noteq> None \<or>
        (\<exists>err. ev = ProcessDone err \<and> (err \<noteq> None \<or> says_not_available stderrBuf)) then Some (ExitCode 1)
     else if (\<exists>err. ev = ProcessDone err) \<or> sig \<noteq> NeverEnds then Some (ExitCode 0)
     else None)"
  using assms
  by (cases ev; cases sig)
    (auto simp: tlshdMain_def parseCheck_def selectEvent_def terminateProcessGracefully_def matchNotAvailable_iff)

theorem tlshd_exit_code_witness:
  "tlshdMain \<lparr>TimeoutWait = 2, Mode = ''init-containers''\<rparr> None None (ProcessDone None) NeverEnds
     ''Kernel handshake service is not available'' = Some (ExitCode 1) \<and>
   tlshdMain \<lparr>TimeoutWait = 2, Mode = ''init-containers''\<rparr> None None ContextDone NeverEnds [] = None"
proof -
  have "says_not_available ''Kernel handshake service is not available''"
    unfolding matchNotAvailable_iff [symmetric]
    by (simp add: matchHere_def skipToken_def skipSpaces_def skipWord_def HasPrefix_def re_space_def)
  then show ?thesis using tlshd_exit_code [of "\<lparr>TimeoutWait = 2, Mode = ''init-containers''\<rparr>"] by simp
qed

end
