(* ===== verification/Release_Notes.thy ===== *)
theory Release_Notes
  imports Go_Paths
begin

text \<open>
  \<open>hack/generate_release_notes.go\<close>: the tool that builds the release notes from the files of \<open>CHANGELOG/\<close>.

  The operating system is a record \<open>os\<close> of operations on a world \<open>'w\<close>, and \<open>yaml.Unmarshal\<close> is one of
  them; the functions of \<open>sort\<close> and \<open>strings\<close> it calls are defined here, those of \<open>path/filepath\<close> in \<open>Go_Paths\<close>. A YAML node is
  a tree: a node that is its own alias, which YAML allows and on which the recursive functions would not end, has no counterpart.
  The Russian strings are written as UTF-8 bytes. Output on the console is left out.
\<close>

section \<open>Versions\<close>

definition parseVersionFromFilename :: "string \<Rightarrow> string" where
  "parseVersionFromFilename filename = TrimSuffix (TrimSuffix filename ''.ru.yml'') ''.yml''"

text \<open>\<open>strconv.Atoi\<close> of a string of digits: out of range it returns the largest \<open>int\<close>, with an error the
  tool ignores.\<close>

definition Atoi_digits :: "string \<Rightarrow> nat" where
  "Atoi_digits s = nat (min (int (digits_val s)) MaxInt)"

definition partKey :: "string \<Rightarrow> nat" where
  "partKey p = (let m = takeWhile is_digit p in if m = '''' then 0 else Atoi_digits m)"

definition versionKey :: "string \<Rightarrow> nat list" where
  "versionKey path =
    (let v = TrimPrefix (parseVersionFromFilename (Base path)) ''v''
     in map partKey (Split v CHR ''.''))"

text \<open>The loop over the index \<open>i\<close> below \<open>n\<close>; missing components count as 0.\<close>

function compareLoop :: "nat list \<Rightarrow> nat list \<Rightarrow> nat \<Rightarrow> nat \<Rightarrow> int" where
  "compareLoop a b n i =
    (if i < n then
       (let ai = (if i < length a then a ! i else 0);
            bi = (if i < length b then b ! i else 0)
        in if ai \<noteq> bi then (if ai < bi then - 1 else 1) else compareLoop a b n (Suc i))
     else 0)"
  by pat_completeness auto
termination by (relation "measure (\<lambda>(a, b, n, i). n - i)") auto

declare compareLoop.simps [simp del]

definition compareVersionKeys :: "nat list \<Rightarrow> nat list \<Rightarrow> int" where
  "compareVersionKeys a b = compareLoop a b (max (length a) (length b)) 0"

text \<open>\<open>sort.SliceStable\<close>: elements that are equivalent keep their order.\<close>

fun insertStable :: "('a \<Rightarrow> 'a \<Rightarrow> bool) \<Rightarrow> 'a \<Rightarrow> 'a list \<Rightarrow> 'a list" where
  "insertStable before x [] = [x]"
| "insertStable before x (y # ys) = (if before y x then y # insertStable before x ys else x # y # ys)"

fun SliceStable :: "('a \<Rightarrow> 'a \<Rightarrow> bool) \<Rightarrow> 'a list \<Rightarrow> 'a list" where
  "SliceStable before [] = []"
| "SliceStable before (x # xs) = insertStable before x (SliceStable before xs)"

definition sortFilesByVersion :: "string list \<Rightarrow> string list" where
  "sortFilesByVersion files = SliceStable (\<lambda>f g. compareVersionKeys (versionKey f) (versionKey g) < 0) files"

section \<open>The operating system\<close>

record DirEntry =
  EntryName :: string
  EntryIsDir :: bool

datatype yamlKind = DocumentNode | SequenceNode | MappingNode | ScalarNode | AliasNode | ZeroKind

datatype yamlNode = Node' (NodeKind: yamlKind) (NodeValue: string) (NodeAlias: "yamlNode option") (NodeContent: "yamlNode list")

record 'w os =
  Getenv :: "string \<Rightarrow> 'w \<Rightarrow> string"
  Executable :: "'w \<Rightarrow> go_error + string"
  EvalSymlinks :: "string \<Rightarrow> 'w \<Rightarrow> go_error + string"
  StatErr :: "string \<Rightarrow> 'w \<Rightarrow> go_error option"
  IsNotExist :: "go_error \<Rightarrow> bool"
  ReadDir :: "string \<Rightarrow> 'w \<Rightarrow> go_error + DirEntry list"
  ReadFile :: "string \<Rightarrow> 'w \<Rightarrow> go_error + string"
  Unmarshal :: "string \<Rightarrow> go_error + yamlNode"
  Remove :: "string \<Rightarrow> 'w \<Rightarrow> go_error option \<times> 'w"
  MkdirAll :: "string \<Rightarrow> 'w \<Rightarrow> go_error option \<times> 'w"
  WriteFile :: "string \<Rightarrow> string \<Rightarrow> 'w \<Rightarrow> go_error option \<times> 'w"

fun classifyEntries :: "string \<Rightarrow> DirEntry list \<Rightarrow> string list \<times> string list \<Rightarrow> string list \<times> string list" where
  "classifyEntries dir [] r = r"
| "classifyEntries dir (e # entries) r =
     classifyEntries dir entries
       (if EntryIsDir e then r
        else if HasSuffix (EntryName e) ''.ru.yml'' then (fst r, snd r @ [PathJoin [dir, EntryName e]])
        else if HasSuffix (EntryName e) ''.yml'' then (fst r @ [PathJoin [dir, EntryName e]], snd r)
        else r)"

definition getChangelogFiles :: "'w os \<Rightarrow> string \<Rightarrow> 'w \<Rightarrow> go_error + string list \<times> string list" where
  "getChangelogFiles os dir w =
    (case ReadDir os dir w of
       Inl e \<Rightarrow> Inl e
     | Inr entries \<Rightarrow>
         (let (en, ru) = classifyEntries dir entries ([], [])
          in Inr (sortFilesByVersion en, sortFilesByVersion ru)))"

section \<open>Rendering values\<close>

definition ReplaceAll :: "string \<Rightarrow> char \<Rightarrow> string \<Rightarrow> string" where
  "ReplaceAll s c r = concat (map (\<lambda>x. if x = c then r else [x]) s)"

definition SQ :: char where "SQ = CHR 0x27"
definition DQ :: char where "DQ = CHR 0x22"
definition BS :: char where "BS = CHR 0x5C"

definition pyQuote :: "string \<Rightarrow> string" where
  "pyQuote s =
    (let hasSingle = (SQ \<in> set s); hasDouble = (DQ \<in> set s)
     in if hasSingle \<and> \<not> hasDouble
        then [DQ] @ ReplaceAll (ReplaceAll s BS [BS, BS]) DQ [BS, DQ] @ [DQ]
        else [SQ] @ ReplaceAll (ReplaceAll s BS [BS, BS]) SQ [BS, SQ] @ [SQ])"

fun formatPyValue :: "yamlNode \<Rightarrow> string" and formatPyPairs :: "yamlNode list \<Rightarrow> string list"
  and formatPyItems :: "yamlNode list \<Rightarrow> string list" where
  "formatPyValue (Node' kind value alias content) =
    (case kind of
       DocumentNode \<Rightarrow> (case content of [] \<Rightarrow> ''None'' | c # _ \<Rightarrow> formatPyValue c)
     | ScalarNode \<Rightarrow> pyQuote value
     | MappingNode \<Rightarrow> ''{'' @ Join (formatPyPairs content) '', '' @ ''}''
     | SequenceNode \<Rightarrow> ''['' @ Join (formatPyItems content) '', '' @ '']''
     | AliasNode \<Rightarrow> (case alias of Some a \<Rightarrow> formatPyValue a | None \<Rightarrow> value)
     | ZeroKind \<Rightarrow> value)"
| "formatPyPairs (k # v # rest) = (formatPyValue k @ '': '' @ formatPyValue v) # formatPyPairs rest"
| "formatPyPairs _ = []"
| "formatPyItems [] = []"
| "formatPyItems (c # rest) = formatPyValue c # formatPyItems rest"

fun formatChange :: "yamlNode \<Rightarrow> string" and formatChangePairs :: "yamlNode list \<Rightarrow> string list"
  and formatChangeItems :: "yamlNode list \<Rightarrow> string list" where
  "formatChange (Node' kind value alias content) =
    (case kind of
       ScalarNode \<Rightarrow> value
     | MappingNode \<Rightarrow> Join (formatChangePairs content) '', ''
     | SequenceNode \<Rightarrow> Join (formatChangeItems content) '', ''
     | DocumentNode \<Rightarrow> (case content of [] \<Rightarrow> '''' | c # _ \<Rightarrow> formatChange c)
     | AliasNode \<Rightarrow> (case alias of Some a \<Rightarrow> formatChange a | None \<Rightarrow> formatPyValue (Node' kind value alias content))
     | ZeroKind \<Rightarrow> formatPyValue (Node' kind value alias content))"
| "formatChangePairs (k # v # rest) = (NodeValue k @ '': '' @ formatChange v) # formatChangePairs rest"
| "formatChangePairs _ = []"
| "formatChangeItems [] = []"
| "formatChangeItems (c # rest) = formatChange c # formatChangeItems rest"

section \<open>The document\<close>

text \<open>The Russian words for \<open>Releases\<close> and \<open>Changes\<close>.\<close>

definition ruReleases :: string where
  "ruReleases = [CHR 0xD0, CHR 0xA0, CHR 0xD0, CHR 0xB5, CHR 0xD0, CHR 0xBB, CHR 0xD0, CHR 0xB8, CHR 0xD0, CHR 0xB7, CHR 0xD1, CHR 0x8B]"
definition ruChanges :: string where
  "ruChanges = [CHR 0xD0, CHR 0x98, CHR 0xD0, CHR 0xB7, CHR 0xD0, CHR 0xBC, CHR 0xD0, CHR 0xB5, CHR 0xD0, CHR 0xBD,
     CHR 0xD0, CHR 0xB5, CHR 0xD0, CHR 0xBD, CHR 0xD0, CHR 0xB8, CHR 0xD1, CHR 0x8F]"

fun findChanges :: "string \<Rightarrow> yamlNode list \<Rightarrow> yamlNode option" where
  "findChanges changesKey (k # v # rest) = (if NodeValue k = changesKey then Some v else findChanges changesKey rest)"
| "findChanges changesKey _ = None"

definition changeLines :: "yamlNode option \<Rightarrow> string list" where
  "changeLines changes =
    (case changes of
       None \<Rightarrow> []
     | Some c \<Rightarrow> if NodeKind c = SequenceNode then map (\<lambda>x. ''* '' @ formatChange x) (NodeContent c)
                else [''* '' @ formatChange c])"

text \<open>The lines of one file; \<open>[]\<close> where the loop continues without output.\<close>

definition fileLines :: "'w os \<Rightarrow> string \<Rightarrow> string \<Rightarrow> 'w \<Rightarrow> string list" where
  "fileLines os changesKey fp w =
    (let version = parseVersionFromFilename (Base fp) in
     case ReadFile os fp w of
       Inl _ \<Rightarrow> []
     | Inr data \<Rightarrow>
         (case Unmarshal os data of
            Inl _ \<Rightarrow> []
          | Inr root \<Rightarrow>
              (if NodeKind root \<noteq> DocumentNode \<or> length (NodeContent root) = 0 then []
               else let top = hd (NodeContent root) in
                 if NodeKind top \<noteq> MappingNode then []
                 else [''## '' @ version, ''''] @ changeLines (findChanges changesKey (NodeContent top)) @ [''''])))"

fun markdownLoop :: "'w os \<Rightarrow> string \<Rightarrow> string list \<Rightarrow> nat \<Rightarrow> string list \<Rightarrow> 'w \<Rightarrow> string list" where
  "markdownLoop os changesKey files 0 lines w = lines"
| "markdownLoop os changesKey files (Suc i) lines w =
     markdownLoop os changesKey files i (lines @ fileLines os changesKey (files ! i) w) w"

definition markdownLines :: "'w os \<Rightarrow> string list \<Rightarrow> bool \<Rightarrow> 'w \<Rightarrow> string list" where
  "markdownLines os files isRussian w =
    (let title = (if isRussian then ''title: '' @ [DQ] @ ruReleases @ [DQ] else ''title: '' @ [DQ] @ ''Release Notes'' @ [DQ]);
         changesKey = (if isRussian then ruChanges else ''Changes'')
     in markdownLoop os changesKey files (length files) [''---'', title, ''---'', ''''] w)"

definition generateMarkdownContent :: "'w os \<Rightarrow> string list \<Rightarrow> bool \<Rightarrow> 'w \<Rightarrow> string" where
  "generateMarkdownContent os files isRussian w = Join (markdownLines os files isRussian w) [CHR 0x0A]"

section \<open>The program\<close>

definition resolveProjectRoot :: "'w os \<Rightarrow> 'w \<Rightarrow> go_error + string" where
  "resolveProjectRoot os w =
    (let root = Getenv os ''RELEASE_NOTES_ROOT'' w in
     if root \<noteq> '''' then Inr root
     else case Executable os w of
            Inl e \<Rightarrow> Inl e
          | Inr exe \<Rightarrow> Inr (Dir (Dir (case EvalSymlinks os exe w of Inr resolved \<Rightarrow> resolved | Inl _ \<Rightarrow> exe))))"

definition removeIfPresent :: "'w os \<Rightarrow> string \<Rightarrow> 'w \<Rightarrow> 'w" where
  "removeIfPresent os fp w = (if StatErr os fp w = None then snd (Remove os fp w) else w)"

definition writeNotes :: "'w os \<Rightarrow> string list \<Rightarrow> bool \<Rightarrow> string \<Rightarrow> 'w \<Rightarrow> go_error option \<times> 'w" where
  "writeNotes os files isRussian out w =
    (if length files > 0 then WriteFile os out (generateMarkdownContent os files isRussian w) w else (None, w))"

definition publish :: "'w os \<Rightarrow> string list \<Rightarrow> string list \<Rightarrow> string \<Rightarrow> 'w \<Rightarrow> int \<times> 'w" where
  "publish os enFiles ruFiles outputDir w =
    (let w = fold (\<lambda>name. removeIfPresent os (PathJoin [outputDir, name])) [''RELEASE_NOTES.md'', ''RELEASE_NOTES.ru.md''] w in
     case MkdirAll os outputDir w of
       (Some _, w) \<Rightarrow> (1, w)
     | (None, w) \<Rightarrow>
         (case writeNotes os enFiles False (PathJoin [outputDir, ''RELEASE_NOTES.md'']) w of
            (Some _, w) \<Rightarrow> (1, w)
          | (None, w) \<Rightarrow>
              (case writeNotes os ruFiles True (PathJoin [outputDir, ''RELEASE_NOTES.ru.md'']) w of
                 (Some _, w) \<Rightarrow> (1, w)
               | (None, w) \<Rightarrow> (0, w))))"

definition run :: "'w os \<Rightarrow> 'w \<Rightarrow> int \<times> 'w" where
  "run os w =
    (case resolveProjectRoot os w of
       Inl _ \<Rightarrow> (1, w)
     | Inr projectRoot \<Rightarrow>
         (let changelogDir = PathJoin [projectRoot, ''CHANGELOG'']; outputDir = PathJoin [projectRoot, ''docs''] in
          if (case StatErr os changelogDir w of Some e \<Rightarrow> IsNotExist os e | None \<Rightarrow> False) then (1, w)
          else (case getChangelogFiles os changelogDir w of
                  Inl _ \<Rightarrow> (1, w)
                | Inr (enFiles, ruFiles) \<Rightarrow>
                    if length enFiles = 0 \<and> length ruFiles = 0 then (1, w)
                    else if length enFiles \<noteq> length ruFiles then (1, w)
                    else publish os enFiles ruFiles outputDir w)))"

end
