(* ===== verification/Release_Properties.thy ===== *)
theory Release_Properties
  imports Release_Notes "HOL-Library.Multiset"
begin

text \<open>
  The order of versions, reading versions from file names, quoting, and the layout of the release notes.
\<close>

section \<open>The order of versions\<close>

text \<open>Trailing zeros do not count: \<open>1.2\<close> and \<open>1.2.0\<close> are the same version.\<close>

fun strip_zeros :: "nat list \<Rightarrow> nat list" where
  "strip_zeros [] = []"
| "strip_zeros (x # xs) = (if x = 0 \<and> strip_zeros xs = [] then [] else x # strip_zeros xs)"

definition version_of :: "string \<Rightarrow> nat list" where
  "version_of path = strip_zeros (versionKey path)"

text \<open>The comparison as a recursion on both lists.\<close>

fun cmp_keys :: "nat list \<Rightarrow> nat list \<Rightarrow> int" where
  "cmp_keys [] [] = 0"
| "cmp_keys (x # xs) [] = (if x \<noteq> 0 then 1 else cmp_keys xs [])"
| "cmp_keys [] (y # ys) = (if y \<noteq> 0 then - 1 else cmp_keys [] ys)"
| "cmp_keys (x # xs) (y # ys) = (if x \<noteq> y then (if x < y then - 1 else 1) else cmp_keys xs ys)"

lemma drop_step: "i < length a \<Longrightarrow> drop i a = a ! i # drop (Suc i) a"
  by (rule Cons_nth_drop_Suc [symmetric])

lemma compareLoop_cmp:
  assumes "length a \<le> n" and "length b \<le> n"
  shows "compareLoop a b n i = cmp_keys (drop i a) (drop i b)"
proof (induction "n - i" arbitrary: i)
  case 0
  then have "length a \<le> i" "length b \<le> i" "\<not> i < n" using assms by auto
  then show ?case by (simp add: compareLoop.simps [of a b n i])
next
  case (Suc m)
  then have IH: "compareLoop a b n (Suc i) = cmp_keys (drop (Suc i) a) (drop (Suc i) b)" and i: "i < n" by auto
  consider "i < length a" "i < length b" | "i < length a" "length b \<le> i" | "length a \<le> i" "i < length b"
    | "length a \<le> i" "length b \<le> i"
    by linarith
  then show ?case
    by cases (use i in \<open>simp_all add: compareLoop.simps [of a b n i] IH drop_step Let_def\<close>)
qed

lemma Nil_less_iff: "[] < ys \<longleftrightarrow> (ys :: nat list) \<noteq> []"
  by (cases ys) simp_all

lemma cmp_keys_less: "cmp_keys a b < 0 \<longleftrightarrow> strip_zeros a < strip_zeros b"
  by (induction a b rule: cmp_keys.induct) (auto simp: Nil_less_iff)

lemma cmp_keys_zero: "cmp_keys a b = 0 \<longleftrightarrow> strip_zeros a = strip_zeros b"
  by (induction a b rule: cmp_keys.induct) auto

lemma compareVersionKeys_eq: "compareVersionKeys a b = cmp_keys a b"
  by (simp add: compareVersionKeys_def compareLoop_cmp)

lemma insertStable_insort:
  "insertStable (\<lambda>f g. key f < key g) x ys = insort_key (key :: _ \<Rightarrow> 'b :: linorder) x ys"
  by (induction ys) (auto simp: not_less)

lemma SliceStable_sort: "SliceStable (\<lambda>f g. key f < key g) xs = sort_key (key :: _ \<Rightarrow> 'b :: linorder) xs"
  by (induction xs) (simp_all add: insertStable_insort)

lemma sortFilesByVersion_eq: "sortFilesByVersion files = sort_key version_of files"
  by (simp add: sortFilesByVersion_def compareVersionKeys_eq cmp_keys_less version_of_def SliceStable_sort
      flip: version_of_def)

text \<open>Versions are compared component by component as numbers, a missing component counting as 0: the comparison is the
  lexicographic order on the keys without trailing zeros.\<close>

lemma version_comparison:
  "compareVersionKeys a b = (if strip_zeros a = strip_zeros b then 0 else if strip_zeros a < strip_zeros b then - 1 else 1)"
proof -
  have "cmp_keys a b \<in> {- 1, 0, 1}" by (induction a b rule: cmp_keys.induct) auto
  then show ?thesis using cmp_keys_less [of a b] cmp_keys_zero [of a b] by (auto simp: compareVersionKeys_eq)
qed

text \<open>The files are sorted by version: the result is the stable sort of the files, so it is a permutation, its versions ascend
  and files of the same version keep their order.\<close>

lemma files_sorted_by_version:
  "mset (sortFilesByVersion files) = mset files \<and> sorted (map version_of (sortFilesByVersion files)) \<and>
   filter (\<lambda>f. version_of f = v) (sortFilesByVersion files) = filter (\<lambda>f. version_of f = v) files"
  by (simp add: sortFilesByVersion_eq sort_key_stable)

section \<open>Quoting\<close>

text \<open>Reading a quoted string back, as a Python string literal.\<close>

fun py_body :: "char \<Rightarrow> string \<Rightarrow> string option" where
  "py_body q [] = None"
| "py_body q (c # cs) =
     (if c = q then (if cs = [] then Some [] else None)
      else if c = BS then (case cs of [] \<Rightarrow> None | d # ds \<Rightarrow> map_option (Cons d) (py_body q ds))
      else map_option (Cons c) (py_body q cs))"

definition py_unquote :: "string \<Rightarrow> string option" where
  "py_unquote s = (case s of [] \<Rightarrow> None | q # cs \<Rightarrow> if q = SQ \<or> q = DQ then py_body q cs else None)"

lemma ReplaceAll_Cons: "ReplaceAll (c # s) d r = (if c = d then r else [c]) @ ReplaceAll s d r"
  by (simp add: ReplaceAll_def)

lemma ReplaceAll_Nil [simp]: "ReplaceAll [] d r = []"
  by (simp add: ReplaceAll_def)

lemma py_body_escaped:
  assumes "q = SQ \<or> q = DQ"
  shows "py_body q (ReplaceAll (ReplaceAll s BS [BS, BS]) q [BS, q] @ [q]) = Some s"
proof -
  have ne: "q \<noteq> BS" "BS \<noteq> q" using assms by (auto simp: SQ_def DQ_def BS_def)
  show ?thesis by (induction s) (auto simp: ReplaceAll_Cons ne)
qed

text \<open>Quoting loses nothing: what \<open>pyQuote\<close> writes is a string literal that reads back as the string.\<close>

lemma py_quote_roundtrip: "py_unquote (pyQuote s) = Some s"
  using py_body_escaped [of SQ s] py_body_escaped [of DQ s] by (auto simp: pyQuote_def py_unquote_def Let_def)

section \<open>Versions in file names\<close>

lemma digits_no: "\<not> is_digit c \<Longrightarrow> c \<notin> set (digits n)"
  using set_digits by blast

lemma set_Join: "set (Join xs sep) \<subseteq> \<Union> (set ` set xs) \<union> set sep"
  by (induction xs sep rule: Join.induct) auto

lemma partKey_digits: "int k \<le> MaxInt \<Longrightarrow> partKey (digits k) = k"
proof -
  assume k: "int k \<le> MaxInt"
  have tw: "takeWhile is_digit (digits k) = digits k" by (simp add: takeWhile_eq_all_conv set_digits)
  have "partKey (digits k) = Atoi_digits (digits k)" unfolding partKey_def tw Let_def by simp
  with k show ?thesis by (simp add: Atoi_digits_def digits_val_digits)
qed

definition version_name :: "nat list \<Rightarrow> string" where
  "version_name ks = ''v'' @ Join (map digits ks) ''.''"

lemma version_name_last: "ks \<noteq> [] \<Longrightarrow> is_digit (last (version_name ks))"
proof (induction ks rule: rev_induct)
  case (snoc k ks)
  have "last (version_name (ks @ [k])) = last (digits k)" by (simp add: version_name_def Join_snoc)
  then show ?case using set_digits [of "last (digits k)" k] by simp
qed simp

lemma version_name_no_slash: "Slash \<notin> set (version_name ks)"
proof -
  have "Slash \<notin> set (digits k)" for k by (rule digits_no) (simp add: is_digit_def Slash_def)
  then show ?thesis using set_Join [of "map digits ks" "''.''"] by (auto simp: version_name_def Slash_def)
qed

lemma parse_version_name:
  assumes "ks \<noteq> []" and "ext \<in> {''.yml'', ''.ru.yml''}"
  shows "parseVersionFromFilename (version_name ks @ ext) = version_name ks"
proof -
  have no: "\<not> HasSuffix (version_name ks @ t) (s @ t)" if "s \<noteq> ''''" "\<not> is_digit (last s)" for s t
  proof
    assume "HasSuffix (version_name ks @ t) (s @ t)"
    then obtain z where "version_name ks = z @ s" by (auto simp: HasSuffix_iff suffix_def)
    then have "last (version_name ks) = last s" using that(1) by simp
    with that(2) version_name_last [OF assms(1)] show False by simp
  qed
  have "\<not> HasSuffix (version_name ks @ ''.yml'') ''.ru.yml''"
    using no [of "''.ru''" "''.yml''"] by (simp add: is_digit_def)
  moreover have "\<not> HasSuffix (version_name ks) ''.yml''" using no [of "''.yml''" "''''"] by (simp add: is_digit_def)
  ultimately show ?thesis
    using assms(2) TrimSuffix_append [of "version_name ks" "''.yml''"] TrimSuffix_append [of "version_name ks" "''.ru.yml''"]
    by (auto simp: parseVersionFromFilename_def TrimSuffix_def simp del: TrimSuffix_append)
qed

text \<open>C37: The version is read back from the name of a changelog file: for a file \<open>v<a>.<b>...\<close> with the English or the Russian
  extension in any directory, the key is the list of its numbers, as long as each fits an \<open>int\<close>.\<close>

theorem version_key_roundtrip:
  assumes "ks \<noteq> []" and "\<forall>k \<in> set ks. int k \<le> MaxInt" and "ext \<in> {''.yml'', ''.ru.yml''}"
  shows "versionKey (PathJoin [dir, version_name ks @ ext]) = ks"
proof -
  have "version_name ks @ ext \<notin> {'''', ''.'', ''..''}" by (auto simp: version_name_def)
  moreover have "Slash \<notin> set (version_name ks @ ext)" using assms(3) version_name_no_slash by (auto simp: Slash_def)
  ultimately have base: "Base (PathJoin [dir, version_name ks @ ext]) = version_name ks @ ext" by (rule Base_PathJoin)
  have dots: "CHR ''.'' \<notin> set (digits k)" for k by (rule digits_no) (simp add: is_digit_def)
  have "TrimPrefix (version_name ks) ''v'' = Join (map digits ks) ''.''"
    by (simp add: version_name_def TrimPrefix_def HasPrefix_def)
  moreover have "Split (Join (map digits ks) ''.'') CHR ''.'' = map digits ks"
    using assms(1) dots by (intro Split_Join) auto
  ultimately show ?thesis
    using assms(2) by (simp add: versionKey_def base parse_version_name [OF assms(1,3)] partKey_digits map_idI)
qed

theorem version_key_roundtrip_witness:
  "versionKey (PathJoin [''/repo/CHANGELOG'', ''v0.3.10.ru.yml'']) = [0, 3, 10]"
proof -
  have "version_name [0, 3, 10] @ ''.ru.yml'' = ''v0.3.10.ru.yml''"
    by code_simp
  then show ?thesis
    using version_key_roundtrip [of "[0, 3, 10]" "''.ru.yml''" "''/repo/CHANGELOG''"] by (simp add: MaxInt_def)
qed

section \<open>The document\<close>

lemma markdownLoop_eq:
  "n \<le> length files \<Longrightarrow> markdownLoop os key files n acc w = acc @ concat (map (\<lambda>f. fileLines os key f w) (rev (take n files)))"
  by (induction n arbitrary: acc) (simp_all add: take_Suc_conv_app_nth)

lemma classifyEntries_spec:
  "classifyEntries dir es r =
    (fst r @ map (\<lambda>e. PathJoin [dir, EntryName e])
       (filter (\<lambda>e. \<not> EntryIsDir e \<and> HasSuffix (EntryName e) ''.yml'' \<and> \<not> HasSuffix (EntryName e) ''.ru.yml'') es),
     snd r @ map (\<lambda>e. PathJoin [dir, EntryName e]) (filter (\<lambda>e. \<not> EntryIsDir e \<and> HasSuffix (EntryName e) ''.ru.yml'') es))"
  by (induction dir es r rule: classifyEntries.induct) auto


text \<open>A file system with one English changelog file and one directory.\<close>

definition one_file_os :: "unit os" where
  "one_file_os = \<lparr>Getenv = (\<lambda>_ _. ''/repo''), Executable = (\<lambda>_. Inr ''/repo/hack/gen''), EvalSymlinks = (\<lambda>p _. Inr p),
     StatErr = (\<lambda>_ _. None), IsNotExist = (\<lambda>_. False),
     ReadDir = (\<lambda>_ _. Inr [\<lparr>EntryName = ''v0.1.0.yml'', EntryIsDir = False\<rparr>, \<lparr>EntryName = ''v0.10.yml'', EntryIsDir = False\<rparr>,
       \<lparr>EntryName = ''v0.2.yml'', EntryIsDir = False\<rparr>]),
     ReadFile = (\<lambda>_ _. Inr ''Changes: fix''),
     Unmarshal = (\<lambda>_. Inr (Node' DocumentNode '''' None [Node' MappingNode '''' None
       [Node' ScalarNode ''Changes'' None [], Node' ScalarNode ''fix'' None []]])),
     Remove = (\<lambda>_ w. (None, w)), MkdirAll = (\<lambda>_ w. (None, w)), WriteFile = (\<lambda>_ _ w. (None, w))\<rparr>"


end
