(* ===== verification/Spec2Isabelle.thy ===== *)
theory Spec2Isabelle
  imports Event_Recovery Node_Races Controller_Main Scheduler_Properties Extender_Main Webhook_Main Deep_Copy Registration
    Hooks_Properties Volume_Cleanup Launchers Release_Properties
begin

text \<open>
  Verification of the csi-nfs module of Deckhouse: the controller, the validating webhooks, the scheduler
  extender, the hooks, the patched volume cleanup of the driver, the launchers of its containers and the
  generator of the release notes.

  \<^bold>\<open>The program.\<close> A user writes an NFSStorageClass. The webhook (\<open>images/webhooks\<close>) checks it against the
  ModuleConfig. The NFSStorageClass controller (\<open>images/controller\<close>) turns it into a StorageClass, a Secret with
  the mount options and a VolumeSnapshotClass, and takes them away when it is deleted. A second controller watches
  the ModuleConfig and puts an alert label on the StorageClasses whose NFSStorageClass does not fit any more. A loop
  labels the nodes that the NFSStorageClasses select, takes the label from nodes that are no longer
  selected and not in use, and evicts module pods from nodes without the label. The scheduler extender
  (\<open>images/csi-nfs-scheduler-extender\<close>) tells the scheduler which nodes suit a pod. The driver reads the cleanup method
  from the Secret and wipes the files of a deleted volume. When the module is removed, a hook strips finalizers.

  \<^bold>\<open>Conventions.\<close> A Go struct is a record, a pointer an option, a nil map or slice \<open>None\<close>, a string a list of
  bytes, an error a value of \<open>go_error\<close>, a panic \<open>None\<close> of the outer option. Stateful code passes the world \<open>'w\<close>
  explicitly. Ranging over a map has no fixed order: the loop is a fold over any enumeration of the map, and the theorems
  hold for all of them (locale \<open>range_loop\<close>). Loops over slices are structural recursion; the loop of
  wait-rpcbind, which may not end, is a \<open>partial_function\<close> over the observations of each turn, with a theorem that
  says exactly when it returns; the endless loop of the node-selector goroutine is a fold over the wakes it has seen. There is no fuel anywhere.
  Pointers are followed only in theory Deep_Copy, where sharing is the point; elsewhere a struct behind a pointer is its value.

  \<^bold>\<open>Code that is not in the repository\<close> is a parameter. The Kubernetes client is the record \<open>client\<close> of theory
  Kube_Client, one \<open>kind_client\<close> per kind; \<open>kind_laws\<close> and \<open>kube_laws\<close> state what the API server promises of
  it, for a \<open>view\<close> that reads the stored objects off the world: what a successful call does, that a failed one changes at most the
  object it names, that reads do not write. That calls succeed is a separate assumption, the locale \<open>available\<close> (one \<open>available_kind\<close> per
  kind), which the locale \<open>serving\<close> joins with the contract of the reconciler; only the properties about success use it. The functions of apimachinery and go-cmp that the code calls are the record
  \<open>lib\<close> with the laws \<open>lib_laws\<close>. Theory Memory_API implements a server in memory and proves the laws for it
  (\<open>mem: kube_laws mem_client mem_view\<close>); the witnesses run the program against it.

  \<^bold>\<open>Theories, in the order of the imports.\<close>
  \<^item> Prelude: Go's strings, slices and maps, \<open>range_loop\<close>, shared lemmas. Kube_Types: the Kubernetes objects, the form
    in which the server stores them, label selectors. Api_V1alpha1: \<open>api/v1alpha1/nfs_storage_class.go\<close>. Kube_Client: client and laws.
    Samples: objects for witnesses. Memory_API: the server in memory.
  \<^item> Validating: \<open>lib/go/common/pkg/feature\<close> and \<open>validating/validator.go\<close>; the validation decides a declarative
    predicate \<open>admissible\<close>.
  \<^item> Storage_Class: the desired objects and the decision functions of \<open>nfs_storage_class_watcher_func.go\<close>; labels, mount
    options, comparison, and that a configured object is found unchanged the next time (the Secret is not: a finding).
  \<^item> Config: \<open>pkg/config/config.go\<close>.
  \<^item> Resource_Reconcile: the functions of the same file that write; their common contract is the locale \<open>reconcile_stage\<close>.
    Reconcile_Effects: what each of them changes, in success and in failure.
  \<^item> Event_Reconcile: \<open>nfs_storage_class_watcher.go\<close>. Event_Effects and Event_Properties: convergence, deletion, isolation, refusal,
    freedom from panics, requeues. API_Available and Event_Success: while the server is up every request of an admissible class finishes, a
    deletion finishes, and a second request changes nothing. Event_Recovery: attempts that failed or were cut
    short at any call leave a state from which the next one finishes (locale \<open>atomic_api\<close>, the steps \<open>attempt\<close>).
  \<^item> Node_Selector: \<open>node_selector_reconciler.go\<close>. Node_Effects and Node_Properties: which nodes are labelled after a
    turn and which module pods are evicted. Node_Safety: what a turn never writes, whatever its outcome. Node_History and Node_Races: a turn in which other
    clients write between any two calls (locales \<open>seen_kind\<close> and \<open>shared_api\<close>, met by a server in memory that others share): every label it
    writes and every pod it deletes is justified by what it read, and a pod that lands after it was counted is missed.
  \<^item> MC_Watcher and MC_Properties: \<open>mc_watcher.go\<close>.
  \<^item> System: the three loops of the controller process interleaved with each other and with other clients, as a step
    relation, and the invariant that a labelled node in use keeps its label. A step is a whole request or turn.
  \<^item> Webhooks: \<open>images/webhooks/handlers\<close>. Webhook_Main: \<open>images/webhooks/cmd/main.go\<close>, which validator with which object type serves
    which path (locale \<open>static_webhook\<close>).
  \<^item> Logging: the loggers (locale \<open>text_logger\<close>) and the client configuration of the two binaries that share them. Controller_Main and
    Extender_Main: their \<open>main\<close>, as the list of what it does in order, and its exit code.
  \<^item> Scheduler and Scheduler_Properties: the handlers of the scheduler extender. Extender_Server: the goroutines of its
    \<open>runServer\<close> as a step relation, with an invariant, termination and progress.
  \<^item> Hooks and Hooks_Properties: \<open>hooks/go/030-\<close> and \<open>080-\<close>. Registration: \<open>hooks/go/020-\<close> and \<open>070-\<close>, the bindings
    of all hooks, and \<open>api/v1alpha1/register.go\<close>.
  \<^item> Deep_Copy: \<open>api/v1alpha1/zz_generated.deepcopy.go\<close> over a heap, what a copy duplicates and what it shares.
  \<^item> Volume_Cleanup: the files \<open>volume_cleanup_*.go\<close> patched into the driver.
  \<^item> Launchers: \<open>wrap-mount\<close>, \<open>wait-rpcbind\<close> and \<open>tlshd\<close>.
  \<^item> Go_Paths, Release_Notes and Release_Properties: \<open>path/filepath\<close> and \<open>hack/generate_release_notes.go\<close>.
  \<^item> this theory: the properties that span components.

  \<^bold>\<open>Not modelled.\<close> The log output of the reconcilers; what controller-runtime, kubewebhook, cobra and the module SDK do with what is
  registered with them (queues, caches, leader election, decoding of requests, generation of certificates); the parsing of command-line
  flags; \<open>GetMutatingWebhookHandler\<close>, which nothing calls; the \<open>main\<close> of the hooks, which is one call of the SDK. Concurrent
  writes of other clients between two calls are modelled for the node loop (Node_Races); for the other reconciles they are outside
  the laws, except between attempts (Event_Recovery), between whole steps (System) and for the conflicts that \<open>RetryOnConflict\<close> sees.
\<close>

section \<open>The webhooks and the controllers\<close>

text \<open>C13: What the webhook admits, the controller accepts: if an NFSStorageClass that is not being deleted was admitted under the
  ModuleConfig of the cluster, the validation at the start of its reconcile does not refuse it and does not write its status; it can only fail because
  the ModuleConfig cannot be read.\<close>

theorem admitted_class_is_accepted:
  assumes "kube_laws cl view" and "Connection (Spec nsc) = Some c" and "DeletionTimestamp nsc = None"
    and "Operation ar \<noteq> OperationDelete" and "NSCValidate ed (Inr cl) ar (NFSStorageClassObj nsc) w = (out, w1)"
    and "mcs (view w) ('''', csiNfsModuleName) = Some mc" and "settings_typed mc" and "admits_request out"
    and "mcs (view w2) = mcs (view w)" and "validateRequest ed cl csiNfsModuleName nsc w2 = Some ((err, nsc'), w3)"
  shows "nsc' = nsc \<and> view w3 = view w2 \<and> (err = None \<or> (\<exists>e. Get (mc_client cl) '''' csiNfsModuleName w2 = (Inl e, w3) \<and> err = Some e))"
proof -
  note laws = kube_laws.mc_laws [OF assms(1)]
  obtain g0 w0 where g0: "Get (mc_client cl) '''' csiNfsModuleName w = (g0, w0)" by fastforce
  have adm: "ValidateNFSStorageClass ed mc nsc = Some None"
    using assms(3,4,5,6,8) g0 kind_laws.get_ok [OF laws, of "''''" csiNfsModuleName w]
    by (cases g0) (auto simp: NSCValidate_def split: option.splits)
  obtain g w4 where g: "Get (mc_client cl) '''' csiNfsModuleName w2 = (g, w4)" by fastforce
  have v: "view w4 = view w2" using kind_laws.get_view [OF laws g] .
  show ?thesis
  proof (cases g)
    case (Inl e)
    with assms(3,10) g v show ?thesis by (auto simp: validateRequest_def)
  next
    case (Inr mc')
    with kind_laws.get_ok [OF laws] g assms(6,9) have "mc' = mc" by fastforce
    with assms(3,10) g Inr adm v show ?thesis by (auto simp: validateRequest_def)
  qed
qed

definition create_review :: AdmissionReview where
  "create_review = \<lparr>Operation = ''create'', Username = ''alice'', OldObjectRaw = Inl (ErrorString ''''), NewObjectRaw = Inl (ErrorString '''')\<rparr>"

theorem admitted_class_is_accepted_witness:
  "\<exists>w3. validateRequest EE mem_client csiNfsModuleName sample_nsc sample_world = Some ((None, sample_nsc), w3) \<and>
     mem_view w3 = mem_view sample_world"
proof -
  obtain out w1 where out: "NSCValidate EE (Inr mem_client) create_review (NFSStorageClassObj sample_nsc) sample_world = (out, w1)" by fastforce
  have "fst (NSCValidate EE (Inr mem_client) create_review (NFSStorageClassObj sample_nsc) sample_world) = allow" by code_simp
  with out have adm: "admits_request out" by (simp add: admits_request_def allow_def)
  have "map_option fst (validateRequest EE mem_client csiNfsModuleName sample_nsc sample_world) = Some (None, sample_nsc)" by code_simp
  then obtain w3 where w3: "validateRequest EE mem_client csiNfsModuleName sample_nsc sample_world = Some ((None, sample_nsc), w3)" by auto
  have "settings_typed sample_mc" "Operation create_review \<noteq> OperationDelete"
    by (simp_all add: settings_typed_def sample_mc_def create_review_def OperationDelete_def)
  with admitted_class_is_accepted [OF mem.kube_laws_axioms _ _ _ out _ _ adm _ w3] sample_world_stored(2) w3 show ?thesis
    by (auto simp: csiNfsModuleName_def sample_defs)
qed

text \<open>C17: A ModuleConfig that the webhook admits raises no alert: when its controller then finishes on the same cluster, no StorageClass of an
  NFSStorageClass carries the alert label.\<close>

theorem admitted_config_raises_no_alert:
  assumes "mc_env cl view L" and "Operation ar \<noteq> OperationDelete"
    and "MCValidate ed (Inr cl) ar (ModuleConfigObj mc) w0 = (out, w1)" and "admits_request out"
    and "\<And>k nsc. nscs (view w0) k = Some nsc \<Longrightarrow> Connection (Spec nsc) \<noteq> None" and "nscs (view w) = nscs (view w0)"
    and "mcs (view w) ('''', n) = Some mc" and "n \<noteq> ''''" and "DeletionTimestamp mc = None"
    and "RequeueModuleConfigInterval cfg > 0" and "scs_alive (view w)"
    and "ReconcileModuleConfig L ed cl cfg ('''', n) w = Some ((emptyResult, None), w')"
    and "nscs (view w) ('''', m) = Some nsc"
  shows "\<exists>sc. scs (view w') ('''', m) = Some sc \<and> \<not> flagged sc"
proof -
  note laws = mc_env.axioms(1) [OF assms(1)]
  obtain l w2 where l: "List (nsc_client cl) [] w0 = (l, w2)" by fastforce
  then obtain items where items: "l = Inr items" and val: "webhookValidateModuleConfig ed mc items = Some None"
    using assms(2,3,4,9) by (cases l) (auto simp: MCValidate_def split: option.splits)
  have "nsc \<in> set items"
    using kind_laws.list_mem [OF kube_laws.nsc_laws [OF laws] l [unfolded items], of nsc]
      kind_laws.keyed [OF kube_laws.nsc_laws [OF laws], of w "('''', m)" nsc] assms(6,13) by simp
  then have "ValidateNFSStorageClass ed mc nsc = Some None" using val webhookValidate_spec by blast
  then have ok: "\<And>c. Connection (Spec nsc) = Some c \<Longrightarrow> admissible ed mc c" using validate_accepts_iff by blast
  note marks = mc_env.reconcile_module_config_ok [OF assms(1,7,8,9,10,11,12)]
  from conjunct2 [OF marks [unfolded scs_marked_def], THEN spec, of "('''', m)"] assms(13) ok show ?thesis
    by (auto simp: reflagged_def)
qed

definition fitting_world :: mem where
  "fitting_world = sample_world\<lparr>m_scs := [sample_sc NFSStorageClassProvisioner]\<rparr>"

theorem admitted_config_raises_no_alert_witness:
  "\<exists>w' sc. ReconcileModuleConfig std_lib EE mem_client sample_cfg ('''', ''csi-nfs'') fitting_world = Some ((emptyResult, None), w') \<and>
     scs (mem_view w') ('''', ''nfs'') = Some sc \<and> \<not> flagged sc"
proof -
  obtain out w1 where out: "MCValidate EE (Inr mem_client) create_review (ModuleConfigObj sample_mc) fitting_world = (out, w1)" by fastforce
  have "fst (MCValidate EE (Inr mem_client) create_review (ModuleConfigObj sample_mc) fitting_world) = allow" by code_simp
  with out have adm: "admits_request out" by (simp add: admits_request_def allow_def)
  have "map_option fst (ReconcileModuleConfig std_lib EE mem_client sample_cfg ('''', ''csi-nfs'') fitting_world) = Some (emptyResult, None)"
    by code_simp
  then obtain w' where w': "ReconcileModuleConfig std_lib EE mem_client sample_cfg ('''', ''csi-nfs'') fitting_world = Some ((emptyResult, None), w')"
    by auto
  have mc: "mcs (mem_view fitting_world) ('''', ''csi-nfs'') = Some sample_mc"
    and nsc: "nscs (mem_view fitting_world) ('''', ''nfs'') = Some sample_nsc"
    by (simp_all add: mem_view_def fitting_world_def sample_world_def mem_empty_def stored_def ckey_def wire_meta_def sample_defs)
  have conn: "nscs (mem_view fitting_world) k = Some nsc \<Longrightarrow> Connection (Spec nsc) \<noteq> None" for k nsc
    by (auto simp: mem_view_def fitting_world_def sample_world_def mem_empty_def stored_def wire_meta_def sample_defs split: if_splits)
  have cfg: "RequeueModuleConfigInterval sample_cfg > 0"
    by (simp add: sample_cfg_def NewConfig_def Let_def DefaultRequeueModuleConfigInterval_def)
  have dt: "DeletionTimestamp (sample_sc NFSStorageClassProvisioner) = None" by code_simp
  have alive: "scs_alive (mem_view fitting_world)"
    by (auto simp: scs_alive_def mem_view_def fitting_world_def stored_def wire_sc_def dt split: if_splits)
  have "Operation create_review \<noteq> OperationDelete" "''csi-nfs'' \<noteq> ''''" "DeletionTimestamp sample_mc = None"
    by (simp_all add: create_review_def OperationDelete_def sample_mc_def)
  from admitted_config_raises_no_alert [OF memory_mc.mc_env_axioms this(1) out adm _ refl mc this(2,3) cfg alive w' nsc] conn w'
  show ?thesis by blast
qed

section \<open>The extender and the node-selector reconciler\<close>

text \<open>C18: The two readings of a node selector agree where they can: if every NFSStorageClass has a node selector without expressions, a node
  the extender lets through for a pod with a volume of this driver is one the node-selector reconciler wants to label.\<close>

theorem extender_accepts_only_wanted:
  assumes "extender_env cl view L"
    and "Filter L cl None new_response r w = (rw, w')" and "StatusCode rw = Some 200"
    and "Decoded r = Inr args" and "ArgPod args = Some pod" and "getNodeNames args = Inr names" and "Namespace pod \<noteq> ''''"
    and "Written rw = [FilterJSON res]" and "n \<in> set (slice (NodeNames res))"
    and "v \<in> set (Volumes pod)" and "nfs_volume (view w) (Namespace pod) v"
    and "\<And>k nsc. nscs (view w) k = Some nsc \<Longrightarrow> \<exists>s. selector_of nsc = Some s \<and> MatchExpressions s = None"
  shows "\<exists>x. nodes (view w) ('''', n) = Some x \<and> wanted (view w) x"
proof -
  from extender_env.Filter_ok [OF assms(1,2,3) refl assms(4,5,6,7)] assms(8,9,10,11)
  have suit: "suitable (view w) pod n" and cls: "class_of (view w) (Namespace pod) v \<noteq> None" by auto
  from cls obtain nsc where nsc: "class_of (view w) (Namespace pod) v = Some nsc" by blast
  then obtain k where k: "nscs (view w) k = Some nsc" by (auto simp: class_of_def bind_eq_Some_conv)
  from assms(12) [OF k] obtain s where s: "selector_of nsc = Some s" "MatchExpressions s = None" by blast
  have used: "nsc \<in> classes_used (view w) pod" using nsc assms(10,11) by (auto simp: classes_used_def)
  have "selector_of m \<noteq> None" if "m \<in> classes_used (view w) pod" for m
    using that assms(12) by (fastforce simp: classes_used_def class_of_def bind_eq_Some_conv)
  then have nodef: "\<not> (\<exists>m \<in> classes_used (view w) pod. selector_of m = None)" by blast
  from suit assms(10,11) obtain x where x: "nodes (view w) ('''', n) = Some x" "admits (classes_used (view w) pod) x"
    by (auto simp: suitable_def)
  from x(2) nodef used s(1) have "labels_select s x" by (auto simp: admits_def)
  with s(2) have matches: "selector_matches s (smap_of (Labels x))" by (simp add: labels_select_def selector_matches_def)
  have all: "(\<exists>k nsc. nscs (view w) k = Some nsc) \<and> (\<forall>k nsc. nscs (view w) k = Some nsc \<longrightarrow> selector_of nsc \<noteq> None)"
    using k assms(12) by fastforce
  have "wanted (view w) x" unfolding wanted_def if_P [OF all] using k s(1) matches by blast
  with x(1) show ?thesis by blast
qed

theorem extender_accepts_only_wanted_witness:
  "\<exists>x. nodes (mem_view (zone_world None)) ('''', ''n1'') = Some x \<and> wanted (mem_view (zone_world None)) x"
proof -
  let ?pod = "sample_pod ''app'' ''web'' '''' [] (Some ''vol'')"
  obtain rw w' where f: "Filter std_lib mem_client None new_response zone_request (zone_world None) = (rw, w')" by fastforce
  with zone_answer have rw: "StatusCode rw = Some 200" "Written rw = [FilterJSON \<lparr>Nodes = None, NodeNames = Some [''n1''],
       FailedNodes = Some (fmap_of_list [(''n2'', ''node is not selected by user selectors'')]), FilterError = ''''\<rparr>]"
    by auto
  have sel: "nscs (mem_view (zone_world None)) k = Some nsc \<Longrightarrow> \<exists>s. selector_of nsc = Some s \<and> MatchExpressions s = None" for k nsc
    by (auto simp: mem_view_def zone_world_def mem_empty_def stored_def wire_meta_def zone_nsc_def zone_selector_def selector_of_def
        sample_defs split: if_splits)
  define v where "v = \<lparr>VolumeName' = ''data'', PersistentVolumeClaim = Some ''vol''\<rparr>"
  have claim: "pvcs (mem_view (zone_world None)) (''app'', ''vol'') = Some (sample_claim ''app'' ''vol'' ''Bound'')"
    by (simp add: mem_view_def zone_world_def mem_empty_def stored_def nkey_def wire_meta_def sample_claim_def)
  have "provisioner_of c (sample_claim ''app'' ''vol'' ''Bound'') = CSINFSProvisioner" for c
    by (simp add: provisioner_of_def annotated_provisioner_def map_get_def sample_claim_def provisionerAnnotation_def CSINFSProvisioner_def
        annotationBetaStorageProvisioner_def annotationStorageProvisioner_def NFSStorageClassProvisioner_def)
  with claim have v: "v \<in> set (Volumes ?pod)" "nfs_volume (mem_view (zone_world None)) ''app'' v"
    by (simp_all add: sample_pod_def nfs_volume_def v_def)
  from extender_accepts_only_wanted [OF memory_extender.extender_env_axioms f rw(1) zone_request_args(1) _ zone_request_args(2) _ rw(2),
      where n = "''n1''" and pod = ?pod and v = v] v sel
  show ?thesis by (simp add: sample_pod_def)
qed

section \<open>The controller and the driver\<close>

text \<open>C25: The cleanup method of a class reaches the driver: from the data of the Secret that the controller configures, as the API server
  stores it, the driver reads the method of the NFSStorageClass, no method if it has none, and an error for a method it does not know.\<close>

theorem cleanup_method_reaches_driver:
  assumes "configureSecret ed nsc ns = Some s"
  shows "getVolumeCleanupMethod (smap_of (Data (wire_secret s))) =
    (let m = VolumeCleanup (Spec nsc) in
     if m = '''' then ('''', False, None)
     else if m \<in> {''Discard'', ''RandomFillSinglePass'', ''RandomFillThreePass''} then (m, True, None)
     else ('''', False, Some (ErrorString (''invalid volume cleanup method '' @ m))))"
proof -
  from assms obtain mo where s: "Data s = None"
    "StringData s = Some ((if VolumeCleanup (Spec nsc) \<noteq> '''' then fmupd volumeCleanupMethodKey (VolumeCleanup (Spec nsc)) else id)
       (fmupd MountOptionsSecretKey mo fmempty))"
    by (cases "VolumeCleanup (Spec nsc) = ''''") (auto simp: configureSecret_def bind_eq_Some_conv Let_def)
  then show ?thesis
    by (auto simp: wire_secret_def getVolumeCleanupMethod_def driverCleanupMethodKey_def volumeCleanupMethodKey_def
        MountOptionsSecretKey_def volumeCleanupMethodDiscard_def volumeCleanupMethodSinglePass_def
        volumeCleanupMethodThreePass_def Let_def)
qed

theorem cleanup_method_reaches_driver_witness:
  "\<exists>s. configureSecret EE (sample_nsc\<lparr>Spec := sample_spec\<lparr>VolumeCleanup := ''Discard''\<rparr>\<rparr>) ''d8-csi-nfs'' = Some s \<and>
     getVolumeCleanupMethod (smap_of (Data (wire_secret s))) = (''Discard'', True, None)"
proof -
  obtain s where s: "configureSecret EE (sample_nsc\<lparr>Spec := sample_spec\<lparr>VolumeCleanup := ''Discard''\<rparr>\<rparr>) ''d8-csi-nfs'' = Some s"
    by (auto simp: configureSecret_def GetSCMountOptions_eq sample_defs)
  from cleanup_method_reaches_driver [OF s] s show ?thesis by simp
qed

end
